(* ===== verification/Prelude.thy ===== *)
theory Prelude
  imports Complex_Main
begin

text \<open>
  Shared vocabulary of the development. Python's exceptions become the datatype
  \<open>exn\<close>; a statement that may raise and changes state becomes a function of type
  \<open>('s, 'a) io = 's \<Rightarrow> (exn + 'a) \<times> 's\<close> (\<open>Inl\<close> the raised exception, \<open>Inr\<close> the
  returned value, paired with the state after the statement). \<open>bind_io\<close> is sequential
  composition that propagates a raised exception, \<open>catch_io\<close> is a
  \<open>try: ... except Exception: ...\<close> block. Time is \<open>secs\<close>, a rational number of
  seconds (Python's \<open>time.time()\<close> and \<open>time.sleep\<close> work on floats; rounding is not
  modelled). The collections \<open>io_simps\<close> and \<open>py_simps\<close> gather the rewrite rules the
  component theories share.
\<close>

named_theorems io_simps "evaluation rules of the exception-and-state monad"
named_theorems py_simps "characteristic equations of the modelled Python builtins"

type_synonym secs = rat
type_synonym path = string

text \<open>
  The exceptions the sources raise or catch. Each carries the text \<open>str(e)\<close>
  would print; \<open>HTTPError\<close> carries the status code that
  \<open>Response.raise_for_status\<close> rejected.
\<close>

datatype exn =
    RequestException string
  | HTTPError nat
  | KeyError string
  | TypeError string
  | ValueError string
  | IndexError string
  | AttributeError string
  | JSONDecodeError string
  | OSError string
  | FileNotFoundError string
  | Exception string

text \<open>\<open>except requests.RequestException\<close>: \<open>HTTPError\<close> is a subclass.\<close>

fun is_request_exception :: "exn \<Rightarrow> bool" where
  "is_request_exception (RequestException _) = True"
| "is_request_exception (HTTPError _) = True"
| "is_request_exception _ = False"

type_synonym ('s, 'a) io = "'s \<Rightarrow> (exn + 'a) \<times> 's"

definition ret :: "'a \<Rightarrow> ('s, 'a) io" where
  "ret x s = (Inr x, s)"

definition throw :: "exn \<Rightarrow> ('s, 'a) io" where
  "throw e s = (Inl e, s)"

definition bind_io :: "('s, 'a) io \<Rightarrow> ('a \<Rightarrow> ('s, 'b) io) \<Rightarrow> ('s, 'b) io" where
  "bind_io m f s = (case m s of (Inl e, s') \<Rightarrow> (Inl e, s') | (Inr x, s') \<Rightarrow> f x s')"

text \<open>\<open>try: m except Exception as e: h(e)\<close>.\<close>

definition catch_io :: "('s, 'a) io \<Rightarrow> (exn \<Rightarrow> ('s, 'a) io) \<Rightarrow> ('s, 'a) io" where
  "catch_io m h s = (case m s of (Inl e, s') \<Rightarrow> h e s' | (Inr x, s') \<Rightarrow> (Inr x, s'))"

lemma ret_apply [io_simps, simp]: "ret x s = (Inr x, s)"
  by (simp add: ret_def)

lemma throw_apply [io_simps, simp]: "throw e s = (Inl e, s)"
  by (simp add: throw_def)

lemma bind_io_Inl [io_simps]: "m s = (Inl e, s') \<Longrightarrow> bind_io m f s = (Inl e, s')"
  by (simp add: bind_io_def)

lemma bind_io_Inr [io_simps]: "m s = (Inr x, s') \<Longrightarrow> bind_io m f s = f x s'"
  by (simp add: bind_io_def)

lemma catch_io_Inl [io_simps]: "m s = (Inl e, s') \<Longrightarrow> catch_io m h s = h e s'"
  by (simp add: catch_io_def)

lemma catch_io_Inr [io_simps]: "m s = (Inr x, s') \<Longrightarrow> catch_io m h s = (Inr x, s')"
  by (simp add: catch_io_def)

lemma bind_io_ret [simp]: "bind_io (ret x) f = f x"
  by (simp add: bind_io_def fun_eq_iff)

lemma bind_io_throw [simp]: "bind_io (throw e) f = throw e"
  by (simp add: bind_io_def fun_eq_iff)

lemma bind_io_assoc: "bind_io (bind_io m f) g = bind_io m (\<lambda>x. bind_io (f x) g)"
  by (simp add: bind_io_def fun_eq_iff split: prod.splits sum.splits)

lemma catch_io_ret [simp]: "catch_io (ret x) h = ret x"
  by (simp add: catch_io_def fun_eq_iff)

lemma catch_io_throw [simp]: "catch_io (throw e) h = h e"
  by (simp add: catch_io_def fun_eq_iff)

subsection \<open>Lists\<close>

lemma length_dropWhile_le: "length (dropWhile P xs) \<le> length xs"
  by (induction xs) auto

end
