(* ===== verification/Py_Str.thy ===== *)
theory Py_Str
  imports Prelude
begin

text \<open>
  The Python string builtins the sources call, modelled from the Python language
  reference (they are not code of this repository): \<open>p in s\<close>, \<open>str.replace\<close>,
  \<open>str.split\<close>/\<open>str.join\<close>, \<open>str.strip\<close>, \<open>str(int)\<close>, \<open>repr(str)\<close> and
  \<open>str.format\<close> with keyword arguments. Strings are byte strings (\<open>char list\<close>, the
  UTF-8 encoding of Python's code-point strings): substring search, replacement and
  splitting at ASCII separators agree on both views, because UTF-8 is
  self-synchronising.
\<close>

definition is_digit :: "char \<Rightarrow> bool" where
  "is_digit c \<longleftrightarrow> c \<in> set ''0123456789''"

definition starts_with :: "string \<Rightarrow> string \<Rightarrow> bool" where
  "starts_with p s \<longleftrightarrow> take (length p) s = p"

text \<open>\<open>p in s\<close> for two strings: substring test.\<close>

fun py_in :: "string \<Rightarrow> string \<Rightarrow> bool" where
  "py_in p [] \<longleftrightarrow> p = []"
| "py_in p (c # cs) \<longleftrightarrow> starts_with p (c # cs) \<or> py_in p cs"

text \<open>\<open>s.replace(old, new)\<close>: every non-overlapping occurrence, left to right; an empty
  \<open>old\<close> inserts \<open>new\<close> around every character.\<close>

function py_replace :: "string \<Rightarrow> string \<Rightarrow> string \<Rightarrow> string" where
  "py_replace old new s =
     (if old = [] then concat (map (\<lambda>c. new @ [c]) s) @ new
      else if s = [] then []
      else if starts_with old s then new @ py_replace old new (drop (length old) s)
      else hd s # py_replace old new (tl s))"
  by pat_completeness auto
termination
  by (relation "measure (\<lambda>(old, new, s). length s)") auto

declare py_replace.simps [simp del]

text \<open>The first occurrence of a non-empty separator: the text before and after it.\<close>

fun cut :: "string \<Rightarrow> string \<Rightarrow> (string \<times> string) option" where
  "cut sep [] = (if sep = [] then Some ([], []) else None)"
| "cut sep (c # cs) =
     (if starts_with sep (c # cs) then Some ([], drop (length sep) (c # cs))
      else map_option (\<lambda>(a, b). (c # a, b)) (cut sep cs))"

text \<open>\<open>s.split(sep)\<close> for a non-empty separator, scanning left to right and
  cutting at every non-overlapping occurrence. (An empty separator raises
  \<open>ValueError\<close> in Python; the only call site passes the literal \<open>" - "\<close>.)\<close>

fun split_acc :: "string \<Rightarrow> string \<Rightarrow> string \<Rightarrow> string list" where
  "split_acc sep acc [] = [rev acc]"
| "split_acc sep acc (c # cs) =
     (if sep \<noteq> [] \<and> starts_with sep (c # cs)
      then rev acc # split_acc sep [] (drop (length sep - 1) cs)
      else split_acc sep (c # acc) cs)"

definition py_split :: "string \<Rightarrow> string \<Rightarrow> string list" where
  "py_split sep s = split_acc sep [] s"

fun py_join :: "string \<Rightarrow> string list \<Rightarrow> string" where
  "py_join sep [] = []"
| "py_join sep [x] = x"
| "py_join sep (x # y # ys) = x @ sep @ py_join sep (y # ys)"

text \<open>\<open>str.strip()\<close>; the ASCII characters for which \<open>str.isspace\<close> holds.\<close>

definition py_whitespace :: "char \<Rightarrow> bool" where
  "py_whitespace c \<longleftrightarrow> c \<in> set [CHR 0x20, CHR 0x09, CHR 0x0A, CHR 0x0B, CHR 0x0C, CHR 0x0D,
                                  CHR 0x1C, CHR 0x1D, CHR 0x1E, CHR 0x1F]"

definition py_strip :: "string \<Rightarrow> string" where
  "py_strip s = rev (dropWhile py_whitespace (rev (dropWhile py_whitespace s)))"

text \<open>\<open>str(n)\<close> for an integer.\<close>

definition digit_char :: "nat \<Rightarrow> char" where
  "digit_char d = ''0123456789'' ! d"

fun nat_str :: "nat \<Rightarrow> string" where
  "nat_str n = (if n < 10 then [digit_char n] else nat_str (n div 10) @ [digit_char (n mod 10)])"

declare nat_str.simps [simp del]

definition int_str :: "int \<Rightarrow> string" where
  "int_str i = (if i < 0 then CHR ''-'' # nat_str (nat (- i)) else nat_str (nat i))"

text \<open>\<open>str(e)\<close> of an exception: its message; for an \<open>HTTPError\<close> the status
  and its class (the reason phrase and URL that \<open>requests\<close> appends are not
  modelled).\<close>

fun exn_str :: "exn \<Rightarrow> string" where
  "exn_str (RequestException m) = m"
| "exn_str (HTTPError n) = nat_str n @ (if n < 500 then '' Client Error'' else '' Server Error'')"
| "exn_str (KeyError m) = m"
| "exn_str (TypeError m) = m"
| "exn_str (ValueError m) = m"
| "exn_str (IndexError m) = m"
| "exn_str (AttributeError m) = m"
| "exn_str (JSONDecodeError m) = m"
| "exn_str (OSError m) = m"
| "exn_str (FileNotFoundError m) = m"
| "exn_str (Exception m) = m"

text \<open>\<open>repr(s)\<close> of a string: single quotes unless the text holds a single quote and
  no double quote; the quote, the backslash and the ASCII control characters are
  escaped. Bytes above 127 are kept (Python keeps printable non-ASCII code points).\<close>

definition hex_digit :: "nat \<Rightarrow> char" where
  "hex_digit d = ''0123456789abcdef'' ! d"

definition repr_char :: "char \<Rightarrow> char \<Rightarrow> string" where
  "repr_char q c =
     (if c = q \<or> c = CHR 0x5C then [CHR 0x5C, c]
      else if c = CHR 0x0A then [CHR 0x5C, CHR ''n'']
      else if c = CHR 0x0D then [CHR 0x5C, CHR ''r'']
      else if c = CHR 0x09 then [CHR 0x5C, CHR ''t'']
      else if of_char c < (32::nat) \<or> of_char c = (127::nat)
      then [CHR 0x5C, CHR ''x'', hex_digit (of_char c div 16), hex_digit (of_char c mod 16)]
      else [c])"

definition py_repr_str :: "string \<Rightarrow> string" where
  "py_repr_str s =
     (let q = (if CHR 0x27 \<in> set s \<and> CHR 0x22 \<notin> set s then CHR 0x22 else CHR 0x27)
      in q # concat (map (repr_char q) s) @ [q])"

text \<open>
  \<open>template.format(**args)\<close>. \<open>{{\<close> and \<open>}}\<close> are literal braces, \<open>{name}\<close> is
  replaced by the keyword argument \<open>name\<close>; a lone \<open>}\<close>, an unclosed \<open>{\<close> and a
  \<open>{\<close> inside a field raise \<open>ValueError\<close>, an empty or numeric field
  (positional) raises \<open>IndexError\<close>, an unknown name \<open>KeyError\<close>. The field text is
  taken as a plain keyword name: format specifications (\<open>{x:>5}\<close>), conversions
  (\<open>{x!r}\<close>) and attribute or index access are not modelled.
\<close>

definition format_field :: "(string \<times> string) list \<Rightarrow> string \<Rightarrow> exn + string" where
  "format_field args f =
     (if CHR ''{'' \<in> set f then Inl (ValueError ''unexpected '{' in field name'')
      else if f = [] \<or> list_all is_digit f
      then Inl (IndexError ''Replacement index out of range for positional args tuple'')
      else (case map_of args f of None \<Rightarrow> Inl (KeyError (py_repr_str f)) | Some v \<Rightarrow> Inr v))"

function py_format :: "(string \<times> string) list \<Rightarrow> string \<Rightarrow> exn + string" where
  "py_format args [] = Inr []"
| "py_format args (c # cs) =
     (if c = CHR ''{'' then
        (if cs = [] then Inl (ValueError ''Single '{' encountered in format string'')
         else if hd cs = CHR ''{'' then map_sum id (Cons CHR ''{'') (py_format args (tl cs))
         else
           (let f = takeWhile (\<lambda>x. x \<noteq> CHR ''}'') cs; r = dropWhile (\<lambda>x. x \<noteq> CHR ''}'') cs in
            if r = [] then Inl (ValueError ''expected '}' before end of string'')
            else (case format_field args f of
                    Inl e \<Rightarrow> Inl e
                  | Inr v \<Rightarrow> map_sum id ((@) v) (py_format args (tl r)))))
      else if c = CHR ''}'' then
        (if cs \<noteq> [] \<and> hd cs = CHR ''}'' then map_sum id (Cons CHR ''}'') (py_format args (tl cs))
         else Inl (ValueError ''Single '}' encountered in format string''))
      else map_sum id (Cons c) (py_format args cs))"
  by pat_completeness auto
termination
proof (relation "measure (\<lambda>(args, s). length s)")
  fix args :: "(string \<times> string) list" and c cs f r
  assume "r = dropWhile (\<lambda>x. x \<noteq> CHR ''}'') cs"
  then have "length r \<le> length cs" by (simp add: length_dropWhile_le)
  then show "((args, tl r), args, c # cs) \<in> measure (\<lambda>(args, s). length s)"
    by simp
qed auto

text \<open>\<open>os.path.join(a, b)\<close> (\<open>posixpath\<close>): \<open>b\<close> if it is absolute, else \<open>a\<close> and
  \<open>b\<close> with one separator between them.\<close>

definition path_join :: "path \<Rightarrow> path \<Rightarrow> path" where
  "path_join a b =
     (if starts_with ''/'' b then b
      else if a = [] \<or> last a = CHR ''/'' then a @ b
      else a @ ''/'' @ b)"

definition brace_free :: "string \<Rightarrow> bool" where
  "brace_free s \<longleftrightarrow> CHR ''{'' \<notin> set s \<and> CHR ''}'' \<notin> set s"

declare py_format.simps(2) [simp del]

subsection \<open>Lemmas\<close>

lemma starts_with_iff: "starts_with p s \<longleftrightarrow> (\<exists>b. s = p @ b)"
  by (auto simp: starts_with_def intro: exI [of _ "drop (length p) s"] dest: sym)
    (metis append_take_drop_id)

lemma cut_Some: "cut sep s = Some (a, b) \<Longrightarrow> s = a @ sep @ b"
proof (induction sep s arbitrary: a rule: cut.induct)
  case (1 sep)
  then show ?case by (simp split: if_splits)
next
  case (2 sep c cs)
  show ?case
  proof (cases "starts_with sep (c # cs)")
    case True
    with "2.prems" show ?thesis
      by (auto simp: starts_with_def) (metis append_take_drop_id)
  next
    case False
    with "2.prems" obtain a' where "cut sep cs = Some (a', b)" and "a = c # a'"
      by auto
    with "2.IH" False show ?thesis by simp
  qed
qed

lemma cut_None: "cut sep s = None \<longleftrightarrow> \<not> py_in sep s"
  by (induction sep s rule: cut.induct) auto



lemma py_in_iff: "py_in p s \<longleftrightarrow> (\<exists>a b. s = a @ p @ b)"
proof (induction s)
  case Nil
  then show ?case by auto
next
  case (Cons c cs)
  have "(\<exists>a b. c # cs = a @ p @ b) \<longleftrightarrow> (\<exists>b. c # cs = p @ b) \<or> (\<exists>a b. cs = a @ p @ b)"
    by (auto simp: Cons_eq_append_conv)
  then show ?case by (simp add: Cons.IH starts_with_iff)
qed

lemma py_replace_single [py_simps]:
  "py_replace [c] [d] s = map (\<lambda>x. if x = c then d else x) s"
  by (induction s) (subst py_replace.simps; simp add: starts_with_def)+

lemma cut_first:
  "cut sep s = Some (a, b) \<Longrightarrow> s = a' @ sep @ b' \<Longrightarrow> length a \<le> length a'"
proof (induction sep s arbitrary: a a' rule: cut.induct)
  case (1 sep)
  then show ?case by (simp split: if_splits)
next
  case (2 sep c cs)
  show ?case
  proof (cases "starts_with sep (c # cs)")
    case True
    with "2.prems"(1) show ?thesis by simp
  next
    case False
    with "2.prems"(1) obtain a0 where a0: "cut sep cs = Some (a0, b)" "a = c # a0"
      by auto
    from False "2.prems"(2) obtain a1 where "a' = c # a1" "cs = a1 @ sep @ b'"
      by (cases a') (auto simp: starts_with_iff)
    with "2.IH" [OF False a0(1)] a0(2) show ?thesis by simp
  qed
qed

lemma split_acc_cut:
  "sep \<noteq> [] \<Longrightarrow> split_acc sep acc s =
     (case cut sep s of None \<Rightarrow> [rev acc @ s] | Some (a, b) \<Rightarrow> (rev acc @ a) # split_acc sep [] b)"
proof (induction s arbitrary: acc)
  case Nil
  then show ?case by simp
next
  case (Cons c cs)
  show ?case
  proof (cases "starts_with sep (c # cs)")
    case True
    with Cons.prems show ?thesis by (cases sep) simp_all
  next
    case False
    with Cons show ?thesis by (auto split: option.splits)
  qed
qed

lemma py_split_cut [py_simps]:
  "sep \<noteq> [] \<Longrightarrow> cut sep s = Some (a, b) \<Longrightarrow> py_split sep s = a # py_split sep b"
  by (simp add: py_split_def split_acc_cut)

lemma py_split_no_sep [py_simps]:
  "sep \<noteq> [] \<Longrightarrow> \<not> py_in sep s \<Longrightarrow> py_split sep s = [s]"
  by (simp add: py_split_def split_acc_cut cut_None [symmetric])

lemma py_split_not_Nil: "py_split sep s \<noteq> []"
proof -
  have "split_acc sep acc s \<noteq> []" for acc
    by (induction s arbitrary: acc) auto
  then show ?thesis by (simp add: py_split_def)
qed

lemma py_join_Cons: "xs \<noteq> [] \<Longrightarrow> py_join sep (x # xs) = x @ sep @ py_join sep xs"
  by (cases xs) auto

lemma py_join_split: "sep \<noteq> [] \<Longrightarrow> py_join sep (py_split sep s) = s"
proof (induction "length s" arbitrary: s rule: less_induct)
  case less
  show ?case
  proof (cases "cut sep s")
    case None
    with less.prems show ?thesis by (simp add: cut_None py_split_no_sep)
  next
    case (Some ab)
    then obtain a b where ab: "cut sep s = Some (a, b)" by (cases ab) auto
    with less.prems have s: "s = a @ sep @ b" by (simp add: cut_Some)
    with less.prems have "length b < length s" by (cases sep) auto
    with less.hyps less.prems have "py_join sep (py_split sep b) = b" by simp
    with ab s less.prems show ?thesis
      by (simp add: py_split_cut py_join_Cons py_split_not_Nil)
  qed
qed

lemma py_format_plain_Cons:
  "c \<noteq> CHR ''{'' \<Longrightarrow> c \<noteq> CHR ''}'' \<Longrightarrow> py_format args (c # cs) = map_sum id (Cons c) (py_format args cs)"
  by (simp add: py_format.simps(2))

lemma py_format_brace_free_append:
  "brace_free a \<Longrightarrow> py_format args (a @ rest) = map_sum id ((@) a) (py_format args rest)"
proof (induction a)
  case Nil
  show ?case by (cases "py_format args rest") simp_all
next
  case (Cons c a)
  then have "brace_free a" "c \<noteq> CHR ''{''" "c \<noteq> CHR ''}''" by (auto simp: brace_free_def)
  with Cons.IH show ?case
    by (simp add: py_format_plain_Cons sum.map_comp comp_def)
qed

lemma py_format_field:
  assumes "format_field args k = Inr v" and "CHR ''}'' \<notin> set k"
  shows "py_format args (CHR ''{'' # k @ CHR ''}'' # rest) = map_sum id ((@) v) (py_format args rest)"
proof -
  from assms(1) have k: "k \<noteq> []" "CHR ''{'' \<notin> set k"
    by (auto simp: format_field_def split: if_splits)
  then have "hd (k @ CHR ''}'' # rest) \<noteq> CHR ''{''" by (cases k) auto
  moreover have "takeWhile (\<lambda>x. x \<noteq> CHR ''}'') (k @ CHR ''}'' # rest) = k"
    using assms(2) by (induction k) auto
  moreover have "dropWhile (\<lambda>x. x \<noteq> CHR ''}'') (k @ CHR ''}'' # rest) = CHR ''}'' # rest"
    using assms(2) by (induction k) auto
  ultimately show ?thesis using assms(1) k(1)
    by (simp add: py_format.simps(2) Let_def)
qed

lemma py_format_subst [py_simps]:
  assumes "brace_free a" and "brace_free b"
    and "format_field args k = Inr v" and "CHR ''}'' \<notin> set k"
  shows "py_format args (a @ CHR ''{'' # k @ CHR ''}'' # b) = Inr (a @ v @ b)"
proof -
  have "py_format args b = Inr b"
    using py_format_brace_free_append [OF assms(2), of args "[]"] by simp
  with assms show ?thesis
    by (simp add: py_format_brace_free_append py_format_field)
qed

end
