(* ===== verification/Json.thy ===== *)
theory Json
  imports Py_Str
begin

text \<open>
  Decoded JSON values (what \<open>json.load\<close> and \<open>Response.json()\<close> return) and the
  Python operations the sources apply to them: subscription \<open>x[k]\<close> with a string
  key, membership \<open>k in x\<close>, \<open>dict.get\<close>, truthiness, \<open>isinstance\<close>, and
  \<open>str(x)\<close>/\<open>repr(x)\<close> as f-strings use them. An object is the list of its members
  in document order; as in \<open>json.loads\<close>, the last of duplicate keys wins.
  Floating-point numbers are not modelled (the fields the code reads are strings,
  integers, lists and objects).
\<close>

datatype json =
    JNull
  | JBool bool
  | JInt int
  | JStr string
  | JArr "json list"
  | JObj "(string \<times> json) list"

fun type_name :: "json \<Rightarrow> string" where
  "type_name JNull = ''NoneType''"
| "type_name (JBool _) = ''bool''"
| "type_name (JInt _) = ''int''"
| "type_name (JStr _) = ''str''"
| "type_name (JArr _) = ''list''"
| "type_name (JObj _) = ''dict''"

text \<open>A name in single quotes, as Python's error messages print it.\<close>

definition quoted :: "string \<Rightarrow> string" where
  "quoted s = CHR 0x27 # s @ [CHR 0x27]"

definition obj_lookup :: "(string \<times> json) list \<Rightarrow> string \<Rightarrow> json option" where
  "obj_lookup kvs k = map_of (rev kvs) k"

text \<open>\<open>x[k]\<close> for a string \<open>k\<close>.\<close>

fun py_getitem :: "json \<Rightarrow> string \<Rightarrow> exn + json" where
  "py_getitem (JObj kvs) k =
     (case obj_lookup kvs k of None \<Rightarrow> Inl (KeyError (py_repr_str k)) | Some v \<Rightarrow> Inr v)"
| "py_getitem (JArr _) k = Inl (TypeError ''list indices must be integers or slices, not str'')"
| "py_getitem (JStr _) k = Inl (TypeError (''string indices must be integers, not '' @ quoted ''str''))"
| "py_getitem x k = Inl (TypeError (quoted (type_name x) @ '' object is not subscriptable''))"

text \<open>\<open>k in x\<close> for a string \<open>k\<close>: key of a dict, element of a list, substring of
  a string; a \<open>TypeError\<close> for the other values.\<close>

fun py_contains :: "string \<Rightarrow> json \<Rightarrow> exn + bool" where
  "py_contains k (JObj kvs) = Inr (k \<in> set (map fst kvs))"
| "py_contains k (JArr xs) = Inr (JStr k \<in> set xs)"
| "py_contains k (JStr s) = Inr (py_in k s)"
| "py_contains k x = Inl (TypeError (''argument of type '' @ quoted (type_name x) @ '' is not iterable''))"

text \<open>\<open>x.get(k, d)\<close>: only dicts have \<open>get\<close>.\<close>

fun py_dict_get :: "json \<Rightarrow> string \<Rightarrow> json \<Rightarrow> exn + json" where
  "py_dict_get (JObj kvs) k d = Inr (case obj_lookup kvs k of None \<Rightarrow> d | Some v \<Rightarrow> v)"
| "py_dict_get x k d =
     Inl (AttributeError (quoted (type_name x) @ '' object has no attribute '' @ quoted ''get''))"

fun is_dict :: "json \<Rightarrow> bool" where
  "is_dict (JObj _) = True"
| "is_dict _ = False"

fun is_list :: "json \<Rightarrow> bool" where
  "is_list (JArr _) = True"
| "is_list _ = False"

fun is_str :: "json \<Rightarrow> bool" where
  "is_str (JStr _) = True"
| "is_str _ = False"

text \<open>\<open>bool(x)\<close>.\<close>

fun py_truthy :: "json \<Rightarrow> bool" where
  "py_truthy JNull = False"
| "py_truthy (JBool b) = b"
| "py_truthy (JInt i) = (i \<noteq> 0)"
| "py_truthy (JStr s) = (s \<noteq> [])"
| "py_truthy (JArr xs) = (xs \<noteq> [])"
| "py_truthy (JObj kvs) = (kvs \<noteq> [])"

text \<open>The members of the dict \<open>json.loads\<close> builds: keys in order of first occurrence,
  each with its last value.\<close>

definition dict_items :: "('k \<times> 'v) list \<Rightarrow> ('k \<times> 'v) list" where
  "dict_items kvs = map (\<lambda>k. (k, the (map_of (rev kvs) k))) (remdups (map fst kvs))"

text \<open>\<open>repr(x)\<close>; \<open>str(x)\<close> differs only on strings, which it returns unquoted.\<close>

fun py_repr :: "json \<Rightarrow> string"
  and repr_elems :: "json list \<Rightarrow> string list"
  and repr_members :: "(string \<times> json) list \<Rightarrow> (string \<times> string) list" where
  "py_repr JNull = ''None''"
| "py_repr (JBool b) = (if b then ''True'' else ''False'')"
| "py_repr (JInt i) = int_str i"
| "py_repr (JStr s) = py_repr_str s"
| "py_repr (JArr xs) = ''['' @ py_join '', '' (repr_elems xs) @ '']''"
| "py_repr (JObj kvs) =
     ''{'' @ py_join '', '' (map (\<lambda>(k, r). py_repr_str k @ '': '' @ r) (dict_items (repr_members kvs)))
     @ ''}''"
| "repr_elems [] = []"
| "repr_elems (x # xs) = py_repr x # repr_elems xs"
| "repr_members [] = []"
| "repr_members ((k, v) # kvs) = (k, py_repr v) # repr_members kvs"

fun py_str :: "json \<Rightarrow> string" where
  "py_str (JStr s) = s"
| "py_str x = py_repr x"

subsection \<open>Lemmas\<close>

lemma obj_lookup_present: "k \<in> set (map fst kvs) \<Longrightarrow> \<exists>v. obj_lookup kvs k = Some v"
  by (cases "obj_lookup kvs k") (auto simp: obj_lookup_def map_of_eq_None_iff)

lemma py_contains_dict_getitem:
  "py_contains k (JObj kvs) = Inr True \<Longrightarrow> \<exists>v. py_getitem (JObj kvs) k = Inr v"
proof -
  assume "py_contains k (JObj kvs) = Inr True"
  then obtain v where "obj_lookup kvs k = Some v" using obj_lookup_present [of k kvs] by auto
  then show ?thesis by simp
qed

lemma py_getitem_Inr_dict: "py_getitem x k = Inr v \<Longrightarrow> is_dict x"
  by (cases x) (auto split: option.splits)

end
