(* ===== verification/Config.thy ===== *)
theory Config
  imports Json
begin

text \<open>
  The configuration store of \<open>APIHandler\<close> (\<open>src/utils/api.py\<close>): the
  \<open>config.json\<close> document \<open>load_config\<close> reads once, as records. \<open>playlists\<close> is
  the ordered list of playlist providers (\<open>config['apis']['playlists']\<close>),
  \<open>song_download\<close> the single download-link source
  (\<open>config['apis']['song_download']\<close>). The keys the code reads unconditionally
  are fields; \<open>request_interval\<close>, read with \<open>.get(..., 1000)\<close>, is optional.
  A document that lacks a key the code indexes is outside the model.
\<close>

record data_paths =
  song_name_path :: string
  artist_path :: string
  song_id_path :: string

record playlist_api =
  api_name :: string
  request_format :: string
  response_type :: string
  data_paths :: data_paths

record download_api =
  dl_request_format :: string
  dl_response_type :: string
  default_quality :: string
  quality_options :: "string list"
  request_interval :: "int option"

record config =
  playlists :: "playlist_api list"
  song_download :: download_api

text \<open>\<open>get_request_interval\<close>: the interval in milliseconds, 1000 when absent.\<close>

definition get_request_interval :: "config \<Rightarrow> int" where
  "get_request_interval c = (case request_interval (song_download c) of None \<Rightarrow> 1000 | Some i \<Rightarrow> i)"

text \<open>\<open>set_request_interval\<close>: the in-memory update (the method then rewrites
  \<open>config.json\<close> in the working directory, which is not modelled).\<close>

definition set_request_interval :: "int \<Rightarrow> config \<Rightarrow> config" where
  "set_request_interval i c = c\<lparr>song_download := (song_download c)\<lparr>request_interval := Some i\<rparr>\<rparr>"

text \<open>The expression \<open>...get('request_interval', 1000) / 1000\<close> that both
  \<open>request_with_retry\<close> and \<open>SongDownloader.__init__\<close> evaluate: seconds.\<close>

definition interval_secs :: "config \<Rightarrow> secs" where
  "interval_secs c = of_int (get_request_interval c) / 1000"

subsection \<open>Lemmas\<close>

lemma get_set_request_interval [simp]: "get_request_interval (set_request_interval i c) = i"
  by (simp add: get_request_interval_def set_request_interval_def)

lemma playlists_set_request_interval [simp]:
  "playlists (set_request_interval i c) = playlists c"
  by (simp add: set_request_interval_def)

lemma interval_secs_nonneg: "0 \<le> get_request_interval c \<Longrightarrow> 0 \<le> interval_secs c"
  by (simp add: interval_secs_def)

end
