(* ===== verification/Transport.thy ===== *)
theory Transport
  imports Config
begin

text \<open>
  The environment the program acts on, and the retrying transport
  \<open>APIHandler.request_with_retry\<close> (\<open>src/utils/api.py\<close>). The world is a record:
  \<open>clock\<close> is \<open>time.time()\<close>; \<open>net i\<close> is the reply the network gives to the
  \<open>i\<close>-th HTTP request of the run, with its latency in milliseconds, and \<open>calls\<close>
  counts the requests issued so far; \<open>files\<close> is the file system (path to
  content) and \<open>listing d\<close> the entry names of directory \<open>d\<close> in the order
  \<open>os.scandir\<close> yields them; \<open>tool i\<close> is what the \<open>i\<close>-th run of the external converter does,
  \<open>runs\<close> counts the runs; \<open>trace\<close> records every request (URL and issue time),
  sleep and tool run in order. A reply is a connection failure or a response with a
  status code, its decoded text, what \<open>Response.json()\<close> returns (\<open>None\<close>: the
  body is not JSON), its body as \<open>iter_content(1024)\<close> delivers it (each chunk with
  the milliseconds the network takes to deliver it), and an error raised while the
  body is read.
\<close>

record http_response =
  status_code :: nat
  body_text :: string
  json_body :: "json option"
  chunks :: "(nat \<times> string) list"
  read_error :: "string option"

datatype net_reply = Conn_error string | Reply http_response

datatype tool_run =
    Spawn_failed string
  | Exited int string "(path \<times> string) list"

datatype event = Get string secs | Slept secs | Ran "string list"

record world =
  clock :: secs
  net :: "nat \<Rightarrow> nat \<times> net_reply"
  calls :: nat
  files :: "path \<Rightarrow> string option"
  listing :: "path \<Rightarrow> string list"
  tool :: "nat \<Rightarrow> tool_run"
  runs :: nat
  trace :: "event list"

text \<open>\<open>time.time()\<close> and \<open>time.sleep(d)\<close>; a negative duration raises.\<close>

definition now :: "(world, secs) io" where
  "now w = (Inr (clock w), w)"

definition sleep :: "secs \<Rightarrow> (world, unit) io" where
  "sleep d w =
     (if d < 0 then (Inl (ValueError ''sleep length must be non-negative''), w)
      else (Inr (), w\<lparr>clock := clock w + d, trace := trace w @ [Slept d]\<rparr>))"

text \<open>What \<open>requests.get\<close> returns or raises for a reply. Without \<open>stream=True\<close>
  the body is read inside \<open>get\<close>, so a read error raises there.\<close>

fun reply_outcome :: "bool \<Rightarrow> net_reply \<Rightarrow> exn + http_response" where
  "reply_outcome stream (Conn_error m) = Inl (RequestException m)"
| "reply_outcome stream (Reply r) =
     (case read_error r of
        Some m \<Rightarrow> if stream then Inr r else Inl (RequestException m)
      | None \<Rightarrow> Inr r)"

text \<open>The world after one more request to \<open>url\<close>, issued now: it is logged,
  counted, and its latency passes.\<close>

definition issued :: "string \<Rightarrow> world \<Rightarrow> world" where
  "issued url w =
     w\<lparr>calls := Suc (calls w), clock := clock w + of_nat (fst (net w (calls w))) / 1000,
       trace := trace w @ [Get url (clock w)]\<rparr>"

text \<open>\<open>requests.get(url, timeout=30[, stream=True])\<close>.\<close>

definition http_get :: "string \<Rightarrow> bool \<Rightarrow> (world, http_response) io" where
  "http_get url stream w = (reply_outcome stream (snd (net w (calls w))), issued url w)"

text \<open>\<open>Response.raise_for_status()\<close>: an error for 4xx and 5xx only.\<close>

definition raise_for_status :: "http_response \<Rightarrow> (world, unit) io" where
  "raise_for_status r =
     (if 400 \<le> status_code r \<and> status_code r < 600 then throw (HTTPError (status_code r))
      else ret ())"

text \<open>The body of the \<open>try\<close> in \<open>request_with_retry\<close>.\<close>

definition checked_get :: "string \<Rightarrow> (world, http_response) io" where
  "checked_get url = bind_io (http_get url False) (\<lambda>r. bind_io (raise_for_status r) (\<lambda>_. ret r))"

text \<open>
  The loop \<open>for retry in range(max_retries)\<close>: a \<open>RequestException\<close> is followed by
  a sleep of the configured interval, except on the last attempt, where it is
  re-raised; any other exception propagates. With \<open>max_retries = 0\<close> the loop body
  never runs and the method returns \<open>None\<close>, the \<open>Inr None\<close> of the model.
\<close>

function retry_loop :: "string \<Rightarrow> secs \<Rightarrow> nat \<Rightarrow> nat \<Rightarrow> (world, http_response option) io" where
  "retry_loop url iv n retry w =
     (if retry < n then
        (case checked_get url w of
           (Inr r, w') \<Rightarrow> (Inr (Some r), w')
         | (Inl e, w') \<Rightarrow>
             if is_request_exception e \<and> retry < n - 1 then
               (case sleep iv w' of
                  (Inl e', w'') \<Rightarrow> (Inl e', w'')
                | (Inr _, w'') \<Rightarrow> retry_loop url iv n (Suc retry) w'')
             else (Inl e, w'))
      else (Inr None, w))"
  by pat_completeness auto
termination
  by (relation "measure (\<lambda>(url, iv, n, retry, w). n - retry)") auto

declare retry_loop.simps [simp del]

text \<open>\<open>request_with_retry(url)\<close> with its default of three attempts; the interval
  is read from the configuration at each call.\<close>

definition request_with_retry :: "config \<Rightarrow> string \<Rightarrow> (world, http_response option) io" where
  "request_with_retry c url = retry_loop url (interval_secs c) 3 0"

subsection \<open>Abstract specification\<close>

text \<open>
  What one attempt yields, independent of time: the reply classified as
  \<open>requests.get\<close> plus \<open>raise_for_status\<close> classify it. The transport's contract is
  then a function of the list of the next attempts' outcomes: the first success, or
  else the error of the last attempt.
\<close>

definition get_outcome :: "net_reply \<Rightarrow> exn + http_response" where
  "get_outcome rep =
     (case reply_outcome False rep of
        Inl e \<Rightarrow> Inl e
      | Inr r \<Rightarrow> if 400 \<le> status_code r \<and> status_code r < 600 then Inl (HTTPError (status_code r))
                else Inr r)"

fun first_success :: "(exn + 'a) list \<Rightarrow> exn + 'a option" where
  "first_success [] = Inr None"
| "first_success [x] = map_sum id Some x"
| "first_success (Inr r # xs) = Inr (Some r)"
| "first_success (Inl e # xs) = first_success xs"

definition next_outcomes :: "world \<Rightarrow> nat \<Rightarrow> (exn + http_response) list" where
  "next_outcomes w k = map (\<lambda>i. get_outcome (snd (net w (calls w + i)))) [0..<k]"

fun attempts_used :: "(exn + 'a) list \<Rightarrow> nat" where
  "attempts_used [] = 0"
| "attempts_used [x] = 1"
| "attempts_used (Inr r # xs) = 1"
| "attempts_used (Inl e # xs) = Suc (attempts_used xs)"

fun slept :: "event list \<Rightarrow> secs list" where
  "slept [] = []"
| "slept (Slept d # es) = d # slept es"
| "slept (_ # es) = slept es"

fun requests_in :: "event list \<Rightarrow> (string \<times> secs) list" where
  "requests_in [] = []"
| "requests_in (Get u t # es) = (u, t) # requests_in es"
| "requests_in (_ # es) = requests_in es"

text \<open>\<open>later w w'\<close>: \<open>w'\<close> is a later state of the same run as \<open>w\<close>: the
  clock has not gone back, the network is the same, and the trace has only grown,
  by requests issued no earlier than the clock of \<open>w\<close>.\<close>

definition later :: "world \<Rightarrow> world \<Rightarrow> bool" where
  "later w w' \<longleftrightarrow> clock w \<le> clock w' \<and> net w' = net w \<and>
     (\<exists>evs. trace w' = trace w @ evs \<and> list_all (\<lambda>(u, t). clock w \<le> t) (requests_in evs))"

subsection \<open>Examples\<close>

definition ok_reply :: http_response where
  "ok_reply = \<lparr>status_code = 200, body_text = ''http://cdn/a.mp3'', json_body = None,
                chunks = [(0, ''ID3'')], read_error = None\<rparr>"

definition example_config :: config where
  "example_config =
     \<lparr>playlists = [],
      song_download = \<lparr>dl_request_format = ''http://dl/?id={song_id}&br={quality}'',
                       dl_response_type = ''text'', default_quality = ''standard'',
                       quality_options = [''standard'', ''exhigh''], request_interval = Some 200\<rparr>\<rparr>"

text \<open>A network that fails the first two requests of a run and answers the rest.\<close>

definition flaky_world :: world where
  "flaky_world =
     \<lparr>clock = 0,
      net = (\<lambda>i. if i = 0 then (30, Conn_error ''timed out'')
                 else if i = 1 then (10, Reply (ok_reply\<lparr>status_code := 503\<rparr>))
                 else (10, Reply ok_reply)),
      calls = 0, files = Map.empty, listing = (\<lambda>_. []), tool = (\<lambda>_. Spawn_failed ''ncmdump''), runs = 0, trace = []\<rparr>"

subsection \<open>Lemmas\<close>


lemma issued_simps [simp]:
  "calls (issued url w) = Suc (calls w)" "net (issued url w) = net w"
  "files (issued url w) = files w" "tool (issued url w) = tool w" "runs (issued url w) = runs w"
  "trace (issued url w) = trace w @ [Get url (clock w)]"
  by (simp_all add: issued_def)

lemma sleep_ok:
  "0 \<le> d \<Longrightarrow> sleep d w = (Inr (), w\<lparr>clock := clock w + d, trace := trace w @ [Slept d]\<rparr>)"
  by (simp add: sleep_def)

lemma checked_get_eq:
  "checked_get url w = (get_outcome (snd (net w (calls w))), issued url w)"
  by (auto simp: checked_get_def http_get_def get_outcome_def raise_for_status_def bind_io_def
      split: sum.splits)

lemma get_outcome_request_exception:
  "get_outcome rep = Inl e \<Longrightarrow> is_request_exception e"
  by (cases rep) (auto simp: get_outcome_def split: option.splits if_splits sum.splits)

lemma next_outcomes_0 [simp]: "next_outcomes w 0 = []"
  by (simp add: next_outcomes_def)

lemma next_outcomes_Suc:
  "next_outcomes w (Suc k) = get_outcome (snd (net w (calls w))) # next_outcomes (issued url w) k"
  by (simp add: next_outcomes_def map_upt_Suc del: upt_Suc)

lemma next_outcomes_sleep:
  "next_outcomes (w\<lparr>clock := t, trace := tr\<rparr>) k = next_outcomes w k"
  by (simp add: next_outcomes_def)

lemma retry_loop_spec:
  "0 \<le> iv \<Longrightarrow> fst (retry_loop url iv n retry w) = first_success (next_outcomes w (n - retry))"
proof (induction url iv n retry w rule: retry_loop.induct)
  case (1 url iv n retry w)
  show ?case
  proof (cases "retry < n")
    case False
    then show ?thesis by (simp add: retry_loop.simps next_outcomes_def)
  next
    case True
    then obtain k where k: "n - retry = Suc k" by (cases "n - retry") auto
    show ?thesis
    proof (cases "get_outcome (snd (net w (calls w)))")
      case (Inr r)
      with True k show ?thesis
        by (cases k) (simp_all add: retry_loop.simps checked_get_eq next_outcomes_Suc [of _ _ url])
    next
      case (Inl e)
      then have re: "is_request_exception e" by (rule get_outcome_request_exception)
      show ?thesis
      proof (cases "retry < n - 1")
        case False
        with True k Inl have "n - retry = Suc 0" by simp
        with True Inl False show ?thesis
          by (simp add: retry_loop.simps checked_get_eq next_outcomes_Suc [of _ _ url])
      next
        case more: True
        let ?w2 = "(issued url w)\<lparr>clock := clock (issued url w) + iv,
                     trace := trace (issued url w) @ [Slept iv]\<rparr>"
        have IH: "fst (retry_loop url iv n (Suc retry) ?w2) = first_success (next_outcomes ?w2 (n - Suc retry))"
          using "1.IH" [OF True sym [OF checked_get_eq] Inl conjI [OF re more]
              sym [OF sleep_ok [OF "1.prems"]] refl "1.prems"] .
        from more k obtain j where kj: "k = Suc j" by (cases k) auto
        with k have j: "n - Suc retry = Suc j" by simp
        from True more Inl re IH k kj j "1.prems" show ?thesis
          by (simp add: retry_loop.simps [of url iv n retry] checked_get_eq sleep_ok
              next_outcomes_def map_upt_Suc del: upt_Suc)
      qed
    qed
  qed
qed

lemma retry_loop_frame:
  assumes "retry_loop url iv n retry w = (res, w')"
  shows "net w' = net w \<and> files w' = files w \<and> tool w' = tool w \<and> runs w' = runs w
    \<and> calls w' \<le> calls w + (n - retry) \<and> (retry < n \<longrightarrow> Suc (calls w) \<le> calls w')"
  using assms
proof (induction url iv n retry w arbitrary: res rule: retry_loop.induct)
  case (1 url iv n retry w)
  show ?case
  proof (cases "retry < n \<and> isl (get_outcome (snd (net w (calls w))))
      \<and> retry < n - 1 \<and> 0 \<le> iv")
    case True
    then obtain e where e: "get_outcome (snd (net w (calls w))) = Inl e" by (cases "get_outcome (snd (net w (calls w)))") auto
    with True have re: "is_request_exception e" by (simp add: get_outcome_request_exception)
    let ?w2 = "(issued url w)\<lparr>clock := clock (issued url w) + iv,
                 trace := trace (issued url w) @ [Slept iv]\<rparr>"
    from True have iv: "0 \<le> iv" by simp
    from iv True e re "1.prems" have rec: "retry_loop url iv n (Suc retry) ?w2 = (res, w')"
      by (simp add: retry_loop.simps [of url iv n retry] checked_get_eq sleep_ok)
    have "net w' = net ?w2 \<and> files w' = files ?w2 \<and> tool w' = tool ?w2 \<and> runs w' = runs ?w2
      \<and> calls w' \<le> calls ?w2 + (n - Suc retry) \<and> (Suc retry < n \<longrightarrow> Suc (calls ?w2) \<le> calls w')"
      using "1.IH" [OF _ sym [OF checked_get_eq] e _ sym [OF sleep_ok [OF iv]] refl rec] True re
      by simp
    with True show ?thesis by auto
  next
    case False
    with "1.prems" show ?thesis
      by (auto simp: retry_loop.simps [of url iv n retry] checked_get_eq sleep_def
          split: if_splits sum.splits)
  qed
qed

lemma retry_loop_trace:
  assumes "0 \<le> iv" and "retry_loop url iv n retry w = (res, w')"
  shows "\<exists>evs. trace w' = trace w @ evs \<and> slept evs = replicate (calls w' - calls w - 1) iv
    \<and> map fst (requests_in evs) = replicate (calls w' - calls w) url \<and> clock w \<le> clock w'"
  using assms
proof (induction url iv n retry w arbitrary: res rule: retry_loop.induct)
  case (1 url iv n retry w)
  show ?case
  proof (cases "retry < n \<and> isl (get_outcome (snd (net w (calls w)))) \<and> retry < n - 1")
    case True
    then obtain e where e: "get_outcome (snd (net w (calls w))) = Inl e" by (cases "get_outcome (snd (net w (calls w)))") auto
    with True have re: "is_request_exception e" by (simp add: get_outcome_request_exception)
    let ?w2 = "(issued url w)\<lparr>clock := clock (issued url w) + iv,
                 trace := trace (issued url w) @ [Slept iv]\<rparr>"
    from "1.prems"(1) True e re "1.prems"(2) have rec: "retry_loop url iv n (Suc retry) ?w2 = (res, w')"
      by (simp add: retry_loop.simps [of url iv n retry] checked_get_eq sleep_ok)
    from "1.IH" [OF _ sym [OF checked_get_eq] e _ sym [OF sleep_ok [OF "1.prems"(1)]] refl "1.prems"(1) rec] True re
    obtain evs where evs: "trace w' = trace ?w2 @ evs" "slept evs = replicate (calls w' - calls ?w2 - 1) iv"
      "map fst (requests_in evs) = replicate (calls w' - calls ?w2) url" "clock ?w2 \<le> clock w'"
      by (auto simp: checked_get_eq sleep_ok)
    from True have "Suc retry < n" by auto
    with retry_loop_frame [OF rec] have "Suc (calls ?w2) \<le> calls w'" by simp
    then have "calls w' - calls w - 1 = Suc (calls w' - calls ?w2 - 1)"
      and "calls w' - calls w = Suc (calls w' - calls ?w2)" by simp_all
    with evs "1.prems"(1) show ?thesis
      by (intro exI [of _ "[Get url (clock w), Slept iv] @ evs"]) (simp add: issued_def)
  next
    case False
    with "1.prems" show ?thesis
      by (auto simp: retry_loop.simps [of url iv n retry] checked_get_eq sleep_def issued_def
          split: if_splits sum.splits)
  qed
qed

lemma retry_loop_attempts:
  assumes "0 \<le> iv" and "retry_loop url iv n retry w = (res, w')"
  shows "calls w' = calls w + attempts_used (next_outcomes w (n - retry))"
  using assms
proof (induction url iv n retry w arbitrary: res rule: retry_loop.induct)
  case (1 url iv n retry w)
  show ?case
  proof (cases "retry < n")
    case False
    with "1.prems" show ?thesis by (simp add: retry_loop.simps)
  next
    case True
    then obtain k where k: "n - retry = Suc k" by (cases "n - retry") auto
    show ?thesis
    proof (cases "get_outcome (snd (net w (calls w)))")
      case (Inr r)
      with True k "1.prems" show ?thesis
        by (cases k) (auto simp: retry_loop.simps checked_get_eq next_outcomes_Suc [of _ _ url])
    next
      case (Inl e)
      then have re: "is_request_exception e" by (rule get_outcome_request_exception)
      show ?thesis
      proof (cases "retry < n - 1")
        case False
        with True k Inl have "n - retry = Suc 0" by simp
        with True Inl False "1.prems" show ?thesis
          by (auto simp: retry_loop.simps checked_get_eq next_outcomes_Suc [of _ _ url])
      next
        case more: True
        let ?w2 = "(issued url w)\<lparr>clock := clock (issued url w) + iv,
                     trace := trace (issued url w) @ [Slept iv]\<rparr>"
        from "1.prems"(1) True Inl re more "1.prems"(2)
        have rec: "retry_loop url iv n (Suc retry) ?w2 = (res, w')"
          by (simp add: retry_loop.simps [of url iv n retry] checked_get_eq sleep_ok)
        have IH: "calls w' = calls ?w2 + attempts_used (next_outcomes ?w2 (n - Suc retry))"
          using "1.IH" [OF True sym [OF checked_get_eq] Inl conjI [OF re more]
              sym [OF sleep_ok [OF "1.prems"(1)]] refl "1.prems"(1) rec] .
        from more k obtain j where kj: "k = Suc j" by (cases k) auto
        with k have j: "n - Suc retry = Suc j" by simp
        from Inl IH k kj j show ?thesis
          by (simp add: next_outcomes_def map_upt_Suc del: upt_Suc)
      qed
    qed
  qed
qed

lemma requests_in_append [simp]: "requests_in (xs @ ys) = requests_in xs @ requests_in ys"
  by (induction xs rule: requests_in.induct) auto

lemma later_refl [simp]: "later w w"
  unfolding later_def by (rule conjI[OF order_refl conjI[OF refl exI[of _ "[]"]]]) simp

lemma later_trans: "later w1 w2 \<Longrightarrow> later w2 w3 \<Longrightarrow> later w1 w3"
proof -
  assume a: "later w1 w2" and b: "later w2 w3"
  from a obtain e1 where c1: "clock w1 \<le> clock w2" and n1: "net w2 = net w1"
    and t1: "trace w2 = trace w1 @ e1" and r1: "list_all (\<lambda>(u, t). clock w1 \<le> t) (requests_in e1)"
    unfolding later_def by blast
  from b obtain e2 where c2: "clock w2 \<le> clock w3" and n2: "net w3 = net w2"
    and t2: "trace w3 = trace w2 @ e2" and r2: "list_all (\<lambda>(u, t). clock w2 \<le> t) (requests_in e2)"
    unfolding later_def by blast
  from r2 c1 have r2': "list_all (\<lambda>(u, t). clock w1 \<le> t) (requests_in e2)"
    by (auto simp: list_all_iff)
  show ?thesis unfolding later_def
    using c1 c2 n1 n2 t1 t2 r1 r2' by (intro conjI exI [of _ "e1 @ e2"]) auto
qed

lemma later_issued [intro]: "later w (issued url w)"
  unfolding later_def issued_def by (intro conjI exI [of _ "[Get url (clock w)]"]) auto

lemma later_sleep [intro]: "later w (snd (sleep d w))"
  unfolding later_def sleep_def by (intro conjI exI [of _ "if d < 0 then [] else [Slept d]"]) auto

lemma retry_loop_retry:
  assumes "retry < n - 1" and "get_outcome (snd (net w (calls w))) = Inl e"
    and "is_request_exception e" and "0 \<le> iv"
  shows "retry_loop url iv n retry w = retry_loop url iv n (Suc retry) (snd (sleep iv (issued url w)))"
proof -
  from assms(1) have "retry < n" by simp
  with assms show ?thesis by (simp add: retry_loop.simps [of url iv n retry] checked_get_eq sleep_ok)
qed

lemma retry_loop_stop:
  assumes "\<not> (retry < n - 1 \<and> isl (get_outcome (snd (net w (calls w)))) \<and> 0 \<le> iv)"
  shows "snd (retry_loop url iv n retry w) \<in> {w, issued url w, snd (sleep iv (issued url w))}"
  using assms
  by (auto simp: retry_loop.simps [of url iv n retry] checked_get_eq get_outcome_request_exception sleep_def
      split: sum.splits prod.splits)

lemma later_retry_loop: "later w (snd (retry_loop url iv n retry w))"
proof (induction url iv n retry w rule: retry_loop.induct)
  case (1 url iv n retry w)
  show ?case
  proof (cases "retry < n - 1 \<and> isl (get_outcome (snd (net w (calls w)))) \<and> 0 \<le> iv")
    case True
    then obtain e where e: "get_outcome (snd (net w (calls w))) = Inl e"
      by (cases "get_outcome (snd (net w (calls w)))") auto
    with True have re: "is_request_exception e" by (simp add: get_outcome_request_exception)
    from True have iv: "0 \<le> iv" by simp
    have s: "fst (sleep iv (issued url w)) = Inr ()" using iv by (simp add: sleep_ok)
    have IH: "later (snd (sleep iv (issued url w)))
        (snd (retry_loop url iv n (Suc retry) (snd (sleep iv (issued url w)))))"
      using "1.IH" [OF _ sym [OF checked_get_eq] e _ prod.collapse s] True re by (simp add: less_diff_conv)
    have "later w (snd (sleep iv (issued url w)))" by (rule later_trans [OF later_issued later_sleep])
    from later_trans [OF this IH] True e re show ?thesis by (simp add: retry_loop_retry)
  next
    case False
    then show ?thesis using retry_loop_stop [OF False, of url]
      by (auto intro: later_trans [OF later_issued later_sleep])
  qed
qed

text \<open>C3: the transport's contract. With a non-negative configured interval, the
  result of \<open>request_with_retry\<close> is the first successful outcome among the next
  three requests, or else the error of the third: the loop refines
  \<open>first_success\<close>.\<close>

theorem request_with_retry_refines:
  assumes "0 \<le> get_request_interval c"
  shows "fst (request_with_retry c url w) = first_success (next_outcomes w 3)"
  using retry_loop_spec [OF interval_secs_nonneg [OF assms]]
  by (simp add: request_with_retry_def)


text \<open>C4: one transport call issues between one and three requests, all to the same
  URL; between consecutive requests it sleeps exactly the configured interval (no
  backoff, no jitter), and the number of requests is the number of attempts the
  outcomes call for.\<close>

theorem request_with_retry_attempts:
  assumes "0 \<le> get_request_interval c" and "request_with_retry c url w = (r, w')"
  shows "calls w' = calls w + attempts_used (next_outcomes w 3) \<and>
    1 \<le> calls w' - calls w \<and> calls w' - calls w \<le> 3 \<and>
    (\<exists>evs. trace w' = trace w @ evs \<and>
       slept evs = replicate (calls w' - calls w - 1) (interval_secs c) \<and>
       map fst (requests_in evs) = replicate (calls w' - calls w) url)"
proof -
  have iv: "0 \<le> interval_secs c" by (rule interval_secs_nonneg [OF assms(1)])
  have run: "retry_loop url (interval_secs c) 3 0 w = (r, w')"
    using assms(2) by (simp add: request_with_retry_def)
  from retry_loop_attempts [OF iv run] have "calls w' = calls w + attempts_used (next_outcomes w 3)"
    by simp
  moreover from retry_loop_frame [OF run] have "1 \<le> calls w' - calls w \<and> calls w' - calls w \<le> 3"
    by auto
  moreover from retry_loop_trace [OF iv run] have "\<exists>evs. trace w' = trace w @ evs \<and>
       slept evs = replicate (calls w' - calls w - 1) (interval_secs c) \<and>
       map fst (requests_in evs) = replicate (calls w' - calls w) url"
    by blast
  ultimately show ?thesis by blast
qed

text \<open>C11: \<open>raise_for_status\<close> rejects 4xx and 5xx only, so a reply with any status
  below 400 (a 1xx or a 3xx as well as a 2xx) is returned at the first attempt and
  never retried, although the specification counts every non-2xx status as a
  retryable failure.\<close>

theorem request_with_retry_accepts_below_400:
  assumes "net w (calls w) = (lat, Reply r)" and "read_error r = None" and "status_code r < 400"
  shows "request_with_retry c url w = (Inr (Some r), issued url w)"
  using assms
  by (simp add: request_with_retry_def retry_loop.simps [of url _ 3 0] checked_get_eq get_outcome_def)

theorem request_with_retry_refines_witness:
  "0 \<le> get_request_interval example_config \<and>
   fst (request_with_retry example_config ''http://dl/?id=1'' flaky_world) = Inr (Some ok_reply)"
proof -
  have h: "0 \<le> get_request_interval example_config"
    by (simp add: example_config_def get_request_interval_def)
  have "fst (request_with_retry example_config ''http://dl/?id=1'' flaky_world) =
        first_success (next_outcomes flaky_world 3)"
    by (rule request_with_retry_refines [OF h])
  also have "\<dots> = Inr (Some ok_reply)"
    by (simp add: next_outcomes_def flaky_world_def get_outcome_def ok_reply_def upt_rec)
  finally show ?thesis using h by simp
qed

theorem request_with_retry_attempts_witness:
  "0 \<le> get_request_interval example_config \<and>
   request_with_retry example_config ''http://dl/?id=1'' flaky_world =
     (Inr (Some ok_reply), snd (request_with_retry example_config ''http://dl/?id=1'' flaky_world)) \<and>
   calls (snd (request_with_retry example_config ''http://dl/?id=1'' flaky_world)) = 3"
proof -
  have h: "0 \<le> get_request_interval example_config"
    by (simp add: example_config_def get_request_interval_def)
  have run: "request_with_retry example_config ''http://dl/?id=1'' flaky_world =
     (Inr (Some ok_reply), snd (request_with_retry example_config ''http://dl/?id=1'' flaky_world))"
    by (simp add: request_with_retry_def retry_loop.simps checked_get_eq get_outcome_def
        flaky_world_def ok_reply_def interval_secs_def get_request_interval_def example_config_def
        sleep_def issued_def)
  have "attempts_used (next_outcomes flaky_world 3) = 3"
    by (simp add: next_outcomes_def flaky_world_def get_outcome_def ok_reply_def upt_rec)
  with request_with_retry_attempts [OF h run] h run show ?thesis
    by (simp add: flaky_world_def)
qed

theorem request_with_retry_accepts_below_400_witness:
  "request_with_retry example_config ''http://x'' (flaky_world\<lparr>calls := 5,
      net := (\<lambda>i. (40, Reply (ok_reply\<lparr>status_code := 304\<rparr>)))\<rparr>) =
   (Inr (Some (ok_reply\<lparr>status_code := 304\<rparr>)), issued ''http://x'' (flaky_world\<lparr>calls := 5,
      net := (\<lambda>i. (40, Reply (ok_reply\<lparr>status_code := 304\<rparr>)))\<rparr>))"
  by (rule request_with_retry_accepts_below_400) (simp_all add: ok_reply_def)

end
