(* ===== verification/Api.thy ===== *)
theory Api
  imports Transport
begin

text \<open>
  The resolver and the location fetcher of \<open>APIHandler\<close> (\<open>src/utils/api.py\<close>).
  \<open>extract_song_id_from_url\<close> writes out the two regular-expression searches of the
  source; \<open>song_info\<close> and \<open>collect_songs\<close> are the per-song \<open>try\<close> block and its
  loop; \<open>playlist_tracks\<close> is the shape dispatch (by provider name, as the code does
  it); \<open>try_provider\<close> is one iteration of the provider loop, \<open>resolve_loop\<close> the
  loop with its final \<open>raise\<close>, \<open>get_playlist_songs\<close> the method.
  \<open>get_song_download_url\<close> is the location fetch. Printing is not modelled.
  Non-ASCII literals of the source are written as their UTF-8 bytes.
\<close>

subsection \<open>Song ids\<close>

text \<open>\<open>re.search(r'id=([0-9]+)', url)\<close>: the leftmost \<open>id=\<close> followed by a digit; the
  group is the longest digit run after it.\<close>

fun search_id_param :: "string \<Rightarrow> string option" where
  "search_id_param [] = None"
| "search_id_param (c # cs) =
     (if starts_with ''id='' (c # cs) \<and> drop 3 (c # cs) \<noteq> [] \<and> is_digit (hd (drop 3 (c # cs)))
      then Some (takeWhile is_digit (drop 3 (c # cs)))
      else search_id_param cs)"

text \<open>Whether \<open>([0-9]+)$\<close> matches at the start of \<open>s\<close>: a digit run followed by the
  end of the string or by a final newline (\<open>$\<close> matches before one).\<close>

definition digits_at_end :: "string \<Rightarrow> string option" where
  "digits_at_end s =
     (let ds = takeWhile is_digit s; rest = dropWhile is_digit s in
      if ds \<noteq> [] \<and> (rest = [] \<or> rest = [CHR 0x0A]) then Some ds else None)"

text \<open>\<open>re.search(r'([0-9]+)$', url)\<close>: the leftmost position where it matches.\<close>

fun search_trailing_digits :: "string \<Rightarrow> string option" where
  "search_trailing_digits [] = None"
| "search_trailing_digits (c # cs) =
     (case digits_at_end (c # cs) of Some ds \<Rightarrow> Some ds | None \<Rightarrow> search_trailing_digits cs)"

definition extract_song_id_from_url :: "string \<Rightarrow> string" where
  "extract_song_id_from_url url =
     (case search_id_param url of
        Some d \<Rightarrow> d
      | None \<Rightarrow> (case search_trailing_digits url of Some d \<Rightarrow> d | None \<Rightarrow> ''''))"

subsection \<open>Songs of one provider\<close>

text \<open>A resolved song: the dict \<open>{'name': ..., 'artist': ..., 'id': ...}\<close> the
  resolver builds. Name and artist are kept as the JSON values the provider sent.\<close>

record song =
  song_name :: json
  song_artist :: json
  song_id :: string

text \<open>The id of a song: extracted from a string that contains \<open>http\<close>, else
  \<open>str(value)\<close>.\<close>

definition song_id_of :: "json \<Rightarrow> string" where
  "song_id_of v =
     (case v of JStr s \<Rightarrow> if py_in ''http'' s then extract_song_id_from_url s else s | _ \<Rightarrow> py_str v)"

text \<open>The body of the per-song \<open>try\<close>: three subscriptions, any of which may raise.\<close>

definition song_info :: "playlist_api \<Rightarrow> json \<Rightarrow> exn + song" where
  "song_info api x =
     (case py_getitem x (song_name_path (data_paths api)) of
        Inl e \<Rightarrow> Inl e
      | Inr n \<Rightarrow>
          (case py_getitem x (artist_path (data_paths api)) of
             Inl e \<Rightarrow> Inl e
           | Inr a \<Rightarrow>
               (case py_getitem x (song_id_path (data_paths api)) of
                  Inl e \<Rightarrow> Inl e
                | Inr i \<Rightarrow> Inr \<lparr>song_name = n, song_artist = a, song_id = song_id_of i\<rparr>)))"

text \<open>The loop over the songs: a song whose block raises is skipped.\<close>

fun collect_songs :: "playlist_api \<Rightarrow> json list \<Rightarrow> song list" where
  "collect_songs api [] = []"
| "collect_songs api (x # xs) =
     (case song_info api x of Inl _ \<Rightarrow> collect_songs api xs | Inr s \<Rightarrow> s # collect_songs api xs)"

definition injahow_name :: string where
  "injahow_name = ''Injahow'' @ [CHR 0xE6, CHR 0xAD, CHR 0x8C, CHR 0xE5, CHR 0x8D, CHR 0x95] @ ''API''"

text \<open>
  The shape dispatch: the provider named \<open>Injahow\<dots>API\<close> must answer a list; any
  other provider a dict with \<open>result.tracks\<close> (tested first) or \<open>tracks\<close>.
  \<open>Inr None\<close> is a shape mismatch (the code prints and \<open>continue\<close>s), \<open>Inl\<close> an
  exception of \<open>in\<close> or of a subscription (caught by the provider's \<open>try\<close>).
\<close>

definition playlist_tracks :: "playlist_api \<Rightarrow> json \<Rightarrow> exn + json option" where
  "playlist_tracks api data =
     (if api_name api = injahow_name then (if is_list data then Inr (Some data) else Inr None)
      else if is_dict data then
        (case py_contains ''result'' data of
           Inl e \<Rightarrow> Inl e
         | Inr has_result \<Rightarrow>
             (case (if has_result
                    then (case py_getitem data ''result'' of Inl e \<Rightarrow> Inl e | Inr r \<Rightarrow> py_contains ''tracks'' r)
                    else Inr False) of
                Inl e \<Rightarrow> Inl e
              | Inr True \<Rightarrow>
                  (case py_getitem data ''result'' of
                     Inl e \<Rightarrow> Inl e
                   | Inr r \<Rightarrow> map_sum id Some (py_getitem r ''tracks''))
              | Inr False \<Rightarrow>
                  (case py_contains ''tracks'' data of
                     Inl e \<Rightarrow> Inl e
                   | Inr True \<Rightarrow> map_sum id Some (py_getitem data ''tracks'')
                   | Inr False \<Rightarrow> Inr None)))
      else Inr None)"

text \<open>The songs a provider's decoded response yields: \<open>Inr None\<close> when the tracks are
  missing or not a list.\<close>

definition provider_songs :: "playlist_api \<Rightarrow> json \<Rightarrow> exn + song list option" where
  "provider_songs api data =
     (case playlist_tracks api data of
        Inl e \<Rightarrow> Inl e
      | Inr None \<Rightarrow> Inr None
      | Inr (Some (JArr xs)) \<Rightarrow> Inr (Some (collect_songs api xs))
      | Inr (Some _) \<Rightarrow> Inr None)"

subsection \<open>The provider loop\<close>

text \<open>
  One iteration of \<open>for api in playlist_apis\<close>, the body of its \<open>try\<close>:
  \<open>Inr (Some songs)\<close> (non-empty) returns them, \<open>Inr None\<close> and \<open>Inl\<close> go on to
  the next provider. A provider whose \<open>response_type\<close> is not \<open>json\<close> is fetched
  and then skipped.
\<close>

definition try_provider :: "config \<Rightarrow> playlist_api \<Rightarrow> string \<Rightarrow> (world, song list option) io" where
  "try_provider c api list_id w =
     (case py_format [(''list_id'', list_id)] (request_format api) of
        Inl e \<Rightarrow> (Inl e, w)
      | Inr url \<Rightarrow>
          (case request_with_retry c url w of
             (Inl e, w') \<Rightarrow> (Inl e, w')
           | (Inr None, w') \<Rightarrow>
               (if response_type api = ''json''
                then (Inl (AttributeError ''NoneType object has no attribute json''), w')
                else (Inr None, w'))
           | (Inr (Some r), w') \<Rightarrow>
               (if response_type api = ''json'' then
                  (case json_body r of
                     None \<Rightarrow> (Inl (JSONDecodeError ''Expecting value''), w')
                   | Some data \<Rightarrow>
                       (case provider_songs api data of
                          Inl e \<Rightarrow> (Inl e, w')
                        | Inr (Some songs) \<Rightarrow> (if songs \<noteq> [] then (Inr (Some songs), w') else (Inr None, w'))
                        | Inr None \<Rightarrow> (Inr None, w')))
                else (Inr None, w'))))"

definition all_failed_msg :: string where
  "all_failed_msg =
     [CHR 0xE6, CHR 0x89, CHR 0x80, CHR 0xE6, CHR 0x9C, CHR 0x89, CHR 0xE6, CHR 0xAD, CHR 0x8C,
      CHR 0xE5, CHR 0x8D, CHR 0x95] @ ''API'' @
     [CHR 0xE9, CHR 0x83, CHR 0xBD, CHR 0xE8, CHR 0xAF, CHR 0xB7, CHR 0xE6, CHR 0xB1, CHR 0x82,
      CHR 0xE5, CHR 0xA4, CHR 0xB1, CHR 0xE8, CHR 0xB4, CHR 0xA5, CHR 0xEF, CHR 0xBC, CHR 0x8C,
      CHR 0xE8, CHR 0xAF, CHR 0xB7, CHR 0xE6, CHR 0xA3, CHR 0x80, CHR 0xE6, CHR 0x9F, CHR 0xA5,
      CHR 0xE7, CHR 0xBD, CHR 0x91, CHR 0xE7, CHR 0xBB, CHR 0x9C, CHR 0xE8, CHR 0xBF, CHR 0x9E,
      CHR 0xE6, CHR 0x8E, CHR 0xA5, CHR 0xE6, CHR 0x88, CHR 0x96, CHR 0xE7, CHR 0xA8, CHR 0x8D,
      CHR 0xE5, CHR 0x90, CHR 0x8E, CHR 0xE9, CHR 0x87, CHR 0x8D, CHR 0xE8, CHR 0xAF, CHR 0x95]"

fun resolve_loop :: "config \<Rightarrow> playlist_api list \<Rightarrow> string \<Rightarrow> (world, song list) io" where
  "resolve_loop c [] list_id w = (Inl (Exception all_failed_msg), w)"
| "resolve_loop c (api # apis) list_id w =
     (case try_provider c api list_id w of
        (Inr (Some songs), w') \<Rightarrow> (Inr songs, w')
      | (_, w') \<Rightarrow> resolve_loop c apis list_id w')"

definition get_playlist_songs :: "config \<Rightarrow> string \<Rightarrow> (world, song list) io" where
  "get_playlist_songs c list_id = resolve_loop c (playlists c) list_id"

subsection \<open>The location fetcher\<close>

text \<open>
  \<open>get_song_download_url(song_id, quality)\<close>: the configured default quality when
  none is given; in \<open>text\<close> mode the stripped body, in \<open>json\<close> mode the
  \<open>url\<close> member or \<open>''''\<close> (a JSON value, which need not be a string). A
  \<open>None\<close> response (not reached with three attempts) fails on its attribute access.
\<close>

definition location_of :: "download_api \<Rightarrow> http_response option \<Rightarrow> exn + json" where
  "location_of d resp =
     (if dl_response_type d = ''text'' then
        (case resp of None \<Rightarrow> Inl (AttributeError ''NoneType object has no attribute text'')
         | Some r \<Rightarrow> Inr (JStr (py_strip (body_text r))))
      else if dl_response_type d = ''json'' then
        (case resp of None \<Rightarrow> Inl (AttributeError ''NoneType object has no attribute json'')
         | Some r \<Rightarrow>
             (case json_body r of
                None \<Rightarrow> Inl (JSONDecodeError ''Expecting value'')
              | Some data \<Rightarrow> py_dict_get data ''url'' (JStr '''')))
      else Inl (ValueError (''Unsupported response type: '' @ dl_response_type d)))"

definition get_song_download_url :: "config \<Rightarrow> string \<Rightarrow> string option \<Rightarrow> (world, json) io" where
  "get_song_download_url c sid quality w =
     (let d = song_download c;
          q = (case quality of None \<Rightarrow> default_quality d | Some x \<Rightarrow> x)
      in case py_format [(''song_id'', sid), (''quality'', q)] (dl_request_format d) of
           Inl e \<Rightarrow> (Inl e, w)
         | Inr url \<Rightarrow>
             (case request_with_retry c url w of
                (Inl e, w') \<Rightarrow> (Inl e, w')
              | (Inr resp, w') \<Rightarrow> (location_of d resp, w')))"

subsection \<open>Auxiliary: runs in which every provider fails\<close>

text \<open>The world after running the given providers in order, if every one of them
  fails (raises, mismatches or yields no song).\<close>

fun failing_run :: "config \<Rightarrow> playlist_api list \<Rightarrow> string \<Rightarrow> world \<Rightarrow> world option" where
  "failing_run c [] list_id w = Some w"
| "failing_run c (api # apis) list_id w =
     (case try_provider c api list_id w of
        (Inr (Some _), _) \<Rightarrow> None
      | (_, w') \<Rightarrow> failing_run c apis list_id w')"

subsection \<open>Examples\<close>


definition scenario_config :: config where
  "scenario_config =
     \<lparr>playlists =
        [\<lparr>api_name = ''NetEase'', request_format = ''http://a/playlist?id={list_id}'',
          response_type = ''json'',
          data_paths = \<lparr>song_name_path = ''name'', artist_path = ''artist'', song_id_path = ''id''\<rparr>\<rparr>,
         \<lparr>api_name = injahow_name, request_format = ''http://b/?type=playlist&id={list_id}'',
          response_type = ''json'',
          data_paths = \<lparr>song_name_path = ''name'', artist_path = ''artist'', song_id_path = ''url''\<rparr>\<rparr>],
      song_download = song_download example_config\<rparr>"

definition scenario_world :: world where
  "scenario_world =
     flaky_world\<lparr>net := (\<lambda>i. if i = 0
        then (20, Reply (ok_reply\<lparr>json_body := Some (JObj [(''result'', JObj [(''tracks'', JArr [])])])\<rparr>))
        else (20, Reply (ok_reply\<lparr>json_body := Some (JArr [JObj [(''name'', JStr ''Song''),
                 (''artist'', JStr ''Artist''), (''url'', JStr ''http://x?id=42'')]])\<rparr>)))\<rparr>"

definition scenario_song :: song where
  "scenario_song = \<lparr>song_name = JStr ''Song'', song_artist = JStr ''Artist'', song_id = ''42''\<rparr>"

definition scenario_final :: world where
  "scenario_final = snd (get_playlist_songs scenario_config ''3778678'' scenario_world)"

text \<open>A download source answering JSON, and a network whose reply has no \<open>url\<close>.\<close>

definition json_source_config :: config where
  "json_source_config =
     example_config\<lparr>song_download := (song_download example_config)\<lparr>dl_response_type := ''json''\<rparr>\<rparr>"

definition no_url_world :: world where
  "no_url_world = flaky_world\<lparr>net := (\<lambda>i. (15, Reply (ok_reply\<lparr>json_body := Some (JObj [(''code'', JInt 404)])\<rparr>)))\<rparr>"

subsection \<open>Lemmas\<close>

lemma takeWhile_nonempty: "xs \<noteq> [] \<Longrightarrow> P (hd xs) \<Longrightarrow> takeWhile P xs \<noteq> []"
  by (cases xs) auto

lemma search_id_param_digits: "search_id_param s = Some d \<Longrightarrow> d \<noteq> [] \<and> list_all is_digit d"
  by (induction s rule: search_id_param.induct)
    (auto split: if_splits simp: list_all_iff takeWhile_nonempty dest: set_takeWhileD)

lemma digits_at_end_digits: "digits_at_end s = Some d \<Longrightarrow> d \<noteq> [] \<and> list_all is_digit d"
  by (auto simp: digits_at_end_def Let_def list_all_iff split: if_splits dest: set_takeWhileD)

lemma search_trailing_digits_digits:
  "search_trailing_digits s = Some d \<Longrightarrow> d \<noteq> [] \<and> list_all is_digit d"
  by (induction s) (auto split: option.splits dest: digits_at_end_digits)

text \<open>C5: every id the extraction returns is a string of decimal digits, and it is empty exactly when neither the \<open>id=\<close> pattern nor the trailing-digits pattern matches.\<close>

theorem extract_song_id_digits:
  "list_all is_digit (extract_song_id_from_url url) \<and>
   (extract_song_id_from_url url = [] \<longleftrightarrow> search_id_param url = None \<and> search_trailing_digits url = None)"
  by (auto simp: extract_song_id_from_url_def split: option.splits
      dest: search_id_param_digits search_trailing_digits_digits)

text \<open>The extraction examples of the specification: an \<open>id=\<close> parameter, a trailing digit run, and no digits at all.\<close>

theorem extract_song_id_examples:
  "extract_song_id_from_url ''https://x/y?id=12345'' = ''12345'' \<and>
   extract_song_id_from_url ''https://music/song/67890'' = ''67890'' \<and>
   extract_song_id_from_url ''abc'' = ''''"
  by (simp add: extract_song_id_from_url_def starts_with_def is_digit_def digits_at_end_def)


lemma try_provider_Some_nonempty:
  "try_provider c api lid w = (Inr (Some songs), w') \<Longrightarrow> songs \<noteq> []"
  by (auto simp: try_provider_def split: sum.splits prod.splits option.splits if_splits)

lemma scenario_run:
  "get_playlist_songs scenario_config ''3778678'' scenario_world = (Inr [scenario_song], scenario_final) \<and>
   calls scenario_final = 2"
  by (simp add: get_playlist_songs_def scenario_config_def scenario_world_def flaky_world_def
      try_provider_def request_with_retry_def retry_loop.simps checked_get_def http_get_def
      raise_for_status_def bind_io_def ok_reply_def provider_songs_def playlist_tracks_def
      song_info_def obj_lookup_def song_id_of_def extract_song_id_from_url_def starts_with_def
      is_digit_def digits_at_end_def py_format.simps format_field_def issued_def scenario_final_def scenario_song_def)


lemma resolve_loop_Inr:
  "resolve_loop c apis lid w = (Inr songs, w') \<Longrightarrow>
   \<exists>pre api post w1. apis = pre @ api # post \<and> failing_run c pre lid w = Some w1
     \<and> try_provider c api lid w1 = (Inr (Some songs), w')"
proof (induction apis arbitrary: w)
  case Nil
  then show ?case by simp
next
  case (Cons a apis)
  show ?case
  proof (cases "try_provider c a lid w")
    case (Pair r w2)
    show ?thesis
    proof (cases "\<exists>s. r = Inr (Some s)")
      case True
      with Cons.prems Pair show ?thesis
        by (auto intro!: exI [of _ "[]"])
    next
      case False
      with Cons.prems Pair have "resolve_loop c apis lid w2 = (Inr songs, w')"
        by (auto split: sum.splits option.splits)
      with Cons.IH obtain pre api post w1 where "apis = pre @ api # post"
        "failing_run c pre lid w2 = Some w1" "try_provider c api lid w1 = (Inr (Some songs), w')"
        by blast
      with False Pair show ?thesis
        by (intro exI [of _ "a # pre"]) (auto split: sum.splits option.splits)
    qed
  qed
qed

text \<open>C1: resolution returns the songs of the first provider, in configured order, that yields at least one song; every provider before it failed, and the run ends right after that provider: no lower-priority provider is contacted.\<close>

theorem get_playlist_songs_first_nonempty:
  assumes "get_playlist_songs c lid w = (Inr songs, w')"
  shows "\<exists>pre api post w1. playlists c = pre @ api # post \<and> failing_run c pre lid w = Some w1
     \<and> try_provider c api lid w1 = (Inr (Some songs), w') \<and> songs \<noteq> []"
  using resolve_loop_Inr [OF assms [unfolded get_playlist_songs_def]] try_provider_Some_nonempty
  by blast

lemma resolve_loop_Inl:
  "resolve_loop c apis lid w = (Inl e, w') \<longleftrightarrow>
   e = Exception all_failed_msg \<and> failing_run c apis lid w = Some w'"
proof (induction apis arbitrary: w)
  case Nil
  then show ?case by auto
next
  case (Cons a apis)
  then show ?case
    by (cases "try_provider c a lid w") (auto split: sum.splits option.splits)
qed

text \<open>C2: resolution raises exactly when every configured provider fails, and then it raises the aggregate \<open>all APIs failed\<close> exception, never a single provider's error.\<close>

theorem get_playlist_songs_error:
  "get_playlist_songs c lid w = (Inl e, w') \<longleftrightarrow>
   e = Exception all_failed_msg \<and> failing_run c (playlists c) lid w = Some w'"
  by (simp add: get_playlist_songs_def resolve_loop_Inl)

text \<open>C6: for a provider with nested-result handling, a response with \<open>result.tracks\<close> and one with a top-level \<open>tracks\<close> holding the same list yield the same songs.\<close>

theorem nested_shapes_agree:
  "api_name api \<noteq> injahow_name \<Longrightarrow>
   provider_songs api (JObj [(''result'', JObj [(''tracks'', t)])]) =
   provider_songs api (JObj [(''tracks'', t)])"
  by (simp add: provider_songs_def playlist_tracks_def obj_lookup_def)

text \<open>C10: the flat-list shape is chosen by the provider's name: a provider not named \<open>Injahow\<dots>API\<close> that answers a bare list yields no songs.\<close>

theorem flat_list_needs_injahow_name:
  "api_name api \<noteq> injahow_name \<Longrightarrow> provider_songs api (JArr xs) = Inr None"
  by (simp add: provider_songs_def playlist_tracks_def)


text \<open>In \<open>json\<close> mode a reply without a \<open>url\<close> member gives the empty location;
  the absence is not an error at this layer.\<close>

theorem get_song_download_url_missing_url:
  assumes "dl_response_type (song_download c) = ''json''"
    and "py_format [(''song_id'', sid), (''quality'', default_quality (song_download c))]
           (dl_request_format (song_download c)) = Inr url"
    and "request_with_retry c url w = (Inr (Some r), w')"
    and "json_body r = Some (JObj kvs)" and "''url'' \<notin> set (map fst kvs)"
  shows "get_song_download_url c sid None w = (Inr (JStr ''''), w')"
proof -
  from assms(5) have "obj_lookup kvs ''url'' = None"
    by (auto simp: obj_lookup_def map_of_eq_None_iff)
  with assms show ?thesis
    by (simp add: get_song_download_url_def location_of_def)
qed

subsection \<open>Witnesses\<close>

theorem get_playlist_songs_first_nonempty_witness:
  "get_playlist_songs scenario_config ''3778678'' scenario_world = (Inr [scenario_song], scenario_final) \<and>
   calls scenario_final = 2 \<and>
   (\<exists>pre api post w1. playlists scenario_config = pre @ api # post
      \<and> failing_run scenario_config pre ''3778678'' scenario_world = Some w1
      \<and> try_provider scenario_config api ''3778678'' w1 = (Inr (Some [scenario_song]), scenario_final)
      \<and> [scenario_song] \<noteq> [])"
  using scenario_run get_playlist_songs_first_nonempty [OF conjunct1 [OF scenario_run]] by blast

theorem nested_shapes_agree_witness:
  "api_name (hd (playlists scenario_config)) \<noteq> injahow_name \<and>
   provider_songs (hd (playlists scenario_config)) (JObj [(''result'', JObj [(''tracks'', JArr [])])]) =
   provider_songs (hd (playlists scenario_config)) (JObj [(''tracks'', JArr [])])"
proof -
  have h: "api_name (hd (playlists scenario_config)) \<noteq> injahow_name"
    by (simp add: scenario_config_def injahow_name_def)
  show ?thesis using h nested_shapes_agree [OF h] by blast
qed

theorem flat_list_needs_injahow_name_witness:
  "api_name (hd (playlists scenario_config)) \<noteq> injahow_name \<and>
   provider_songs (hd (playlists scenario_config)) (JArr [JObj []]) = Inr None"
proof -
  have h: "api_name (hd (playlists scenario_config)) \<noteq> injahow_name"
    by (simp add: scenario_config_def injahow_name_def)
  show ?thesis using h flat_list_needs_injahow_name [OF h] by blast
qed


theorem get_song_download_url_missing_url_witness:
  "get_song_download_url json_source_config ''42'' None no_url_world =
     (Inr (JStr ''''), snd (request_with_retry json_source_config ''http://dl/?id=42&br=standard'' no_url_world))"
proof -
  let ?url = "''http://dl/?id=42&br=standard''"
  let ?r = "ok_reply\<lparr>json_body := Some (JObj [(''code'', JInt 404)])\<rparr>"
  have fmt: "py_format [(''song_id'', ''42''), (''quality'', default_quality (song_download json_source_config))]
           (dl_request_format (song_download json_source_config)) = Inr ?url"
    by (simp add: json_source_config_def example_config_def py_format.simps format_field_def is_digit_def)
  have req: "request_with_retry json_source_config ?url no_url_world =
             (Inr (Some ?r), snd (request_with_retry json_source_config ?url no_url_world))"
    by (simp add: request_with_retry_def retry_loop.simps checked_get_def http_get_def
        raise_for_status_def bind_io_def no_url_world_def ok_reply_def)
  show ?thesis
    by (rule get_song_download_url_missing_url [OF _ fmt req])
      (auto simp: json_source_config_def example_config_def)
qed

end
