(* ===== verification/Downloader.thy ===== *)
theory Downloader
  imports Api
begin

text \<open>
  The throughput-limited transfer, \<open>SongDownloader\<close> (\<open>src/utils/downloader.py\<close>).
  Its state is the record \<open>downloader\<close>: the request interval it captured from the
  configuration when it was built, and \<open>last_request_time\<close>, the time the last
  successful location fetch returned. \<open>download_file\<close> streams a reply into a file
  with the optional byte-rate limit (\<open>stream_chunks\<close> is its chunk loop);
  \<open>download_attempt\<close> is one pass of the \<open>try\<close> in \<open>download_song\<close> (throttle,
  location fetch, stream), \<open>download_loop\<close> the three-attempt loop with its 3-second
  delay, \<open>download_song\<close> the method with the file name and the skip check, and
  \<open>download_playlist\<close> the class's own playlist method. Directories are not
  modelled: \<open>os.makedirs\<close> is taken to succeed, \<open>os.path.exists\<close> is a lookup in
  the world's files. The \<open>content-length\<close> header the code reads and never uses is
  not modelled.
\<close>

record downloader =
  dl_interval :: secs
  last_request_time :: secs

definition new_downloader :: "config \<Rightarrow> downloader" where
  "new_downloader c = \<lparr>dl_interval = interval_secs c, last_request_time = 0\<rparr>"

subsection \<open>File names\<close>

definition illegal_chars :: string where
  "illegal_chars =
     [CHR ''<'', CHR ''>'', CHR '':'', CHR ''/'', CHR 0x5C, CHR ''|'', CHR ''?'', CHR ''*'', CHR 0x22]"

text \<open>\<open>for char in illegal_chars: filename = filename.replace(char, '_')\<close>\<close>

fun replace_each :: "string \<Rightarrow> string \<Rightarrow> string" where
  "replace_each [] s = s"
| "replace_each (c # cs) s = replace_each cs (py_replace [c] ''_'' s)"

definition sanitize_filename :: "string \<Rightarrow> string" where
  "sanitize_filename s = replace_each illegal_chars s"

text \<open>The reference the loop is meant to compute: every illegal character becomes
  \<open>_\<close>, every other character is kept.\<close>

definition sanitize_spec :: "string \<Rightarrow> string" where
  "sanitize_spec s = map (\<lambda>c. if c \<in> set illegal_chars then CHR ''_'' else c) s"

definition song_filename :: "song \<Rightarrow> int \<Rightarrow> string" where
  "song_filename s fmt =
     sanitize_filename
       (if fmt = 0 then py_str (song_name s) @ '' - '' @ py_str (song_artist s) @ ''.mp3''
        else py_str (song_artist s) @ '' - '' @ py_str (song_name s) @ ''.mp3'')"

text \<open>The UTF-8 bytes of the word "skipped" (U+5DF2 U+8DF3 U+8FC7) and of the full-width
  \<open>(file exists)\<close> suffix of the skip message.\<close>

definition skip_marker :: string where
  "skip_marker = [CHR 0xE5, CHR 0xB7, CHR 0xB2, CHR 0xE8, CHR 0xB7, CHR 0xB3, CHR 0xE8, CHR 0xBF, CHR 0x87]"

definition exists_suffix :: string where
  "exists_suffix =
     [CHR 0xEF, CHR 0xBC, CHR 0x88, CHR 0xE6, CHR 0x96, CHR 0x87, CHR 0xE4, CHR 0xBB, CHR 0xB6,
      CHR 0xE5, CHR 0xB7, CHR 0xB2, CHR 0xE5, CHR 0xAD, CHR 0x98, CHR 0xE5, CHR 0x9C, CHR 0xA8,
      CHR 0xEF, CHR 0xBC, CHR 0x89]"

definition skip_message :: "string \<Rightarrow> string" where
  "skip_message fn = skip_marker @ '': '' @ fn @ exists_suffix"

subsection \<open>Streaming with a rate limit\<close>

definition append_file :: "path \<Rightarrow> string \<Rightarrow> world \<Rightarrow> world" where
  "append_file p ch w = w\<lparr>files := (files w)(p \<mapsto> (case files w p of None \<Rightarrow> ch | Some c \<Rightarrow> c @ ch))\<rparr>"

text \<open>
  \<open>for chunk in response.iter_content(chunk_size=1024)\<close>: each chunk arrives after
  its network delay; a non-empty chunk is written and counted, and with a positive
  \<open>speed_limit\<close> (KiB/s) the loop sleeps until the elapsed time since
  \<open>start_time\<close> (\<open>t0\<close>) reaches \<open>downloaded / (speed_limit * 1024)\<close>. The
  sleep's argument is positive there, so it returns normally.
\<close>

fun stream_chunks :: "path \<Rightarrow> int \<Rightarrow> secs \<Rightarrow> nat \<Rightarrow> (nat \<times> string) list \<Rightarrow> world \<Rightarrow> world" where
  "stream_chunks p speed_limit t0 n [] w = w"
| "stream_chunks p speed_limit t0 n ((d, ch) # cs) w =
     (let w1 = w\<lparr>clock := clock w + of_nat d / 1000\<rparr> in
      if ch = [] then stream_chunks p speed_limit t0 n cs w1
      else
        (let w2 = append_file p ch w1; n' = n + length ch in
         if 0 < speed_limit then
           (let elapsed = clock w2 - t0; expected = of_nat n' / (of_int speed_limit * 1024) in
            if elapsed < expected then stream_chunks p speed_limit t0 n' cs (snd (sleep (expected - elapsed) w2))
            else stream_chunks p speed_limit t0 n' cs w2)
         else stream_chunks p speed_limit t0 n' cs w2))"

text \<open>\<open>download_file(url, filepath, speed_limit)\<close>: a streamed request (no transport
  retry), \<open>raise_for_status\<close>, the file opened with \<open>'wb'\<close> (created empty), the
  chunk loop, and the error a broken body raises after the chunks it delivered. A
  location that is not a string is refused by \<open>requests\<close> before any request.\<close>

definition download_file :: "json \<Rightarrow> path \<Rightarrow> int \<Rightarrow> (world, unit) io" where
  "download_file url p speed_limit w =
     (case url of
        JStr u \<Rightarrow>
          (case http_get u True w of
             (Inl e, w1) \<Rightarrow> (Inl e, w1)
           | (Inr r, w1) \<Rightarrow>
               (case raise_for_status r w1 of
                  (Inl e, w2) \<Rightarrow> (Inl e, w2)
                | (Inr _, w2) \<Rightarrow>
                    (let w3 = w2\<lparr>files := (files w2)(p \<mapsto> [])\<rparr>;
                         w4 = stream_chunks p speed_limit (clock w3) 0 (chunks r) w3
                     in case read_error r of
                          Some m \<Rightarrow> (Inl (RequestException m), w4)
                        | None \<Rightarrow> (Inr (), w4))))
      | _ \<Rightarrow> (Inl (RequestException (''Invalid URL: No scheme supplied'')), w))"

subsection \<open>One song\<close>

text \<open>The wait before a location fetch: until \<open>request_interval\<close> has passed since
  \<open>last_request_time\<close>.\<close>

definition throttle :: "downloader \<Rightarrow> world \<Rightarrow> world" where
  "throttle d w =
     (let elapsed = clock w - last_request_time d in
      if elapsed < dl_interval d then snd (sleep (dl_interval d - elapsed) w) else w)"

text \<open>One pass of the \<open>try\<close> block: \<open>Inr filepath\<close> on success. The timestamp is
  taken when the location fetch returns, before the location is checked.\<close>

definition download_attempt ::
  "config \<Rightarrow> song \<Rightarrow> path \<Rightarrow> string option \<Rightarrow> int \<Rightarrow> downloader \<Rightarrow> world
   \<Rightarrow> (exn + path) \<times> downloader \<times> world" where
  "download_attempt c s p q speed_limit d w =
     (case get_song_download_url c (song_id s) q (throttle d w) of
        (Inl e, w2) \<Rightarrow> (Inl e, d, w2)
      | (Inr u, w2) \<Rightarrow>
          (let d' = d\<lparr>last_request_time := clock w2\<rparr> in
           if \<not> py_truthy u
           then (Inl (ValueError (''Failed to get download URL for song: '' @ py_str (song_name s))), d', w2)
           else (case download_file u p speed_limit w2 of
                   (Inl e, w3) \<Rightarrow> (Inl e, d', w3)
                 | (Inr _, w3) \<Rightarrow> (Inr p, d', w3))))"

text \<open>\<open>for attempt in range(max_retries)\<close> with \<open>max_retries = 3\<close> and
  \<open>retry_delay = 3\<close>. The final branch is the loop running out without a
  \<open>return\<close>, which the last attempt's \<open>return\<close> makes unreachable from attempt 0.\<close>

function download_loop ::
  "config \<Rightarrow> song \<Rightarrow> path \<Rightarrow> string option \<Rightarrow> int \<Rightarrow> nat \<Rightarrow> downloader \<Rightarrow> world
   \<Rightarrow> (bool \<times> string) \<times> downloader \<times> world" where
  "download_loop c s p q speed_limit attempt d w =
     (if attempt < 3 then
        (case download_attempt c s p q speed_limit d w of
           (Inr fp, d', w') \<Rightarrow> ((True, fp), d', w')
         | (Inl e, d', w') \<Rightarrow>
             if attempt < 2 then download_loop c s p q speed_limit (Suc attempt) d' (snd (sleep 3 w'))
             else ((False, ''Failed after 3 attempts: '' @ exn_str e), d', w'))
      else ((False, ''''), d, w))"
  by pat_completeness auto
termination
  by (relation "measure (\<lambda>(c, s, p, q, speed_limit, attempt, d, w). 3 - attempt)") auto

declare download_loop.simps [simp del]

definition download_song ::
  "config \<Rightarrow> song \<Rightarrow> path \<Rightarrow> string option \<Rightarrow> int \<Rightarrow> bool \<Rightarrow> int \<Rightarrow> downloader \<Rightarrow> world
   \<Rightarrow> (bool \<times> string) \<times> downloader \<times> world" where
  "download_song c s save q speed_limit skip fmt d w =
     (let fn = song_filename s fmt; p = path_join save fn in
      if skip \<and> files w p \<noteq> None then ((True, skip_message fn), d, w)
      else download_loop c s p q speed_limit 0 d w)"

subsection \<open>A whole playlist\<close>

record dl_result =
  res_song :: "song option"
  res_success :: bool
  res_message :: string

fun download_each ::
  "config \<Rightarrow> path \<Rightarrow> string option \<Rightarrow> int \<Rightarrow> song list \<Rightarrow> downloader \<Rightarrow> world
   \<Rightarrow> dl_result list \<times> downloader \<times> world" where
  "download_each c save q speed_limit [] d w = ([], d, w)"
| "download_each c save q speed_limit (s # ss) d w =
     (case download_song c s save q speed_limit False 0 d w of
        ((ok, msg), d', w') \<Rightarrow>
          (case download_each c save q speed_limit ss d' w' of
             (rs, d'', w'') \<Rightarrow> (\<lparr>res_song = Some s, res_success = ok, res_message = msg\<rparr> # rs, d'', w'')))"

text \<open>\<open>SongDownloader.download_playlist\<close>: resolution, then every song with the
  defaults \<open>skip_existing=False\<close> and \<open>filename_format=0\<close>; any exception becomes a
  single failed result.\<close>

definition download_playlist ::
  "config \<Rightarrow> string \<Rightarrow> path \<Rightarrow> string option \<Rightarrow> int \<Rightarrow> downloader \<Rightarrow> world
   \<Rightarrow> dl_result list \<times> downloader \<times> world" where
  "download_playlist c list_id save q speed_limit d w =
     (case get_playlist_songs c list_id w of
        (Inl e, w') \<Rightarrow> ([\<lparr>res_song = None, res_success = False, res_message = exn_str e\<rparr>], d, w')
      | (Inr songs, w') \<Rightarrow>
          (if songs = []
           then ([\<lparr>res_song = None, res_success = False,
                   res_message = ''No songs found in playlist: '' @ list_id\<rparr>], d, w')
           else download_each c save q speed_limit songs d w'))"

subsection \<open>Examples\<close>

text \<open>A world in which every path exists, and one whose replies break after the
  first chunk.\<close>

definition stored_world :: world where
  "stored_world = flaky_world\<lparr>files := (\<lambda>_. Some ''ID3'')\<rparr>"

definition broken_world :: world where
  "broken_world = flaky_world\<lparr>calls := 2,
     net := (\<lambda>i. (10, Reply (ok_reply\<lparr>chunks := [(5, ''ID3''), (5, [])],
                                     read_error := Some ''Connection broken''\<rparr>)))\<rparr>"

subsection \<open>Lemmas\<close>

lemma replace_each_map:
  "CHR ''_'' \<notin> set cs \<Longrightarrow> replace_each cs s = map (\<lambda>x. if x \<in> set cs then CHR ''_'' else x) s"
  by (induction cs arbitrary: s) (auto simp: py_replace_single)

lemma underscore_legal: "CHR ''_'' \<notin> set illegal_chars"
  by (simp add: illegal_chars_def)

lemma sanitize_filename_map:
  "sanitize_filename s = map (\<lambda>x. if x \<in> set illegal_chars then CHR ''_'' else x) s"
  by (simp add: sanitize_filename_def replace_each_map [OF underscore_legal])

lemma append_file_simps [simp]:
  "clock (append_file p ch w) = clock w" "net (append_file p ch w) = net w"
  "calls (append_file p ch w) = calls w" "trace (append_file p ch w) = trace w"
  "tool (append_file p ch w) = tool w" "runs (append_file p ch w) = runs w"
  by (simp_all add: append_file_def)

lemma stream_chunks_files:
  "files w p = Some c \<Longrightarrow>
   files (stream_chunks p sl t0 n cs w) = (files w)(p \<mapsto> c @ concat (map snd cs))"
proof (induction p sl t0 n cs w arbitrary: c rule: stream_chunks.induct)
  case (1 p sl t0 n w)
  then show ?case by auto
next
  case (2 p sl t0 n d ch cs w)
  then show ?case
    by (auto simp: Let_def append_file_def sleep_def fun_upd_def)
qed

lemma later_stream_chunks: "later w (stream_chunks p sl t0 n cs w)"
proof (induction p sl t0 n cs w rule: stream_chunks.induct)
  case (1 p sl t0 n w)
  then show ?case by simp
next
  case (2 p sl t0 n d ch cs w)
  let ?w1 = "w\<lparr>clock := clock w + of_nat d / 1000\<rparr>"
  let ?w2 = "append_file p ch ?w1" and ?n = "n + length ch"
  let ?r = "of_int sl * (1024::rat)"
  have w1: "later w ?w1" by (simp add: later_def)
  have w2: "later w ?w2" using w1 by (simp add: later_def)
  show ?case
  proof (cases "ch = []")
    case True
    then show ?thesis using later_trans [OF w1 "2.IH"(1) [OF refl True]] by simp
  next
    case ne: False
    consider (slow) "0 < sl" "clock ?w2 - t0 < of_nat ?n / ?r"
      | (fast) "0 < sl" "\<not> clock ?w2 - t0 < of_nat ?n / ?r" | (nolimit) "\<not> 0 < sl"
      by blast
    then show ?thesis
    proof cases
      case slow
      with later_trans [OF later_trans [OF w2 later_sleep] "2.IH"(2) [OF refl ne refl refl slow(1) refl refl slow(2)]] ne
      show ?thesis by (simp add: Let_def)
    next
      case fast
      with later_trans [OF w2 "2.IH"(3) [OF refl ne refl refl fast(1) refl refl fast(2)]] ne
      show ?thesis by (simp add: Let_def)
    next
      case nolimit
      with later_trans [OF w2 "2.IH"(4) [OF refl ne refl refl nolimit]] ne
      show ?thesis by (simp add: Let_def)
    qed
  qed
qed

lemma stream_chunks_rate:
  assumes "0 < sl" and "of_nat n / (of_int sl * 1024) \<le> clock w - t0"
  shows "of_nat (n + length (concat (map snd cs))) / (of_int sl * 1024)
    \<le> clock (stream_chunks p sl t0 n cs w) - t0"
  using assms
proof (induction p sl t0 n cs w rule: stream_chunks.induct)
  case (1 p sl t0 n w)
  then show ?case by simp
next
  case (2 p sl t0 n d ch cs w)
  let ?r = "of_int sl * (1024::rat)"
  let ?w1 = "w\<lparr>clock := clock w + of_nat d / 1000\<rparr>"
  have i1: "of_nat n / ?r \<le> clock ?w1 - t0" using "2.prems" by simp
  show ?case
  proof (cases "ch = []")
    case True
    then show ?thesis using "2.IH"(1) [OF refl True "2.prems"(1) i1] by simp
  next
    case False
    let ?w2 = "append_file p ch ?w1" and ?n = "n + length ch"
    show ?thesis
    proof (cases "clock ?w2 - t0 < of_nat ?n / ?r")
      case True
      let ?w3 = "snd (sleep (of_nat ?n / ?r - (clock ?w2 - t0)) ?w2)"
      have "clock ?w3 = t0 + of_nat ?n / ?r" using True by (simp add: sleep_def)
      then have "of_nat ?n / ?r \<le> clock ?w3 - t0" by simp
      from "2.IH"(2) [OF refl False refl refl _ refl refl True "2.prems"(1) this] "2.prems"(1) False True
      show ?thesis by (simp add: Let_def add.assoc)
    next
      case nle: False
      then have "of_nat ?n / ?r \<le> clock ?w2 - t0" by simp
      from "2.IH"(3) [OF refl False refl refl _ refl refl nle "2.prems"(1) this] "2.prems"(1) False nle
      show ?thesis by (simp add: Let_def add.assoc)
    qed
  qed
qed

lemma later_files [intro]: "later w (w\<lparr>files := f\<rparr>)"
  unfolding later_def by (intro conjI exI [of _ "[]"]) auto

lemma later_get_song_download_url: "later w (snd (get_song_download_url c sid q w))"
  using later_retry_loop [of w]
  by (auto simp: get_song_download_url_def request_with_retry_def Let_def
      split: sum.splits prod.splits) (metis snd_conv)+

lemma download_file_reply:
  assumes "net w (calls w) = (lat, Reply r)" and "\<not> (400 \<le> status_code r \<and> status_code r < 600)"
  shows "download_file (JStr u) p sl w =
    (case read_error r of Some m \<Rightarrow> Inl (RequestException m) | None \<Rightarrow> Inr (),
     stream_chunks p sl (clock (issued u w)) 0 (chunks r) ((issued u w)\<lparr>files := (files w)(p \<mapsto> [])\<rparr>))"
  using assms
  by (auto simp: download_file_def http_get_def raise_for_status_def split: option.splits)

lemma later_download_file: "later w (snd (download_file u p sl w))"
proof -
  have step: "later w (stream_chunks p sl t0 0 cs ((issued v w)\<lparr>files := f\<rparr>))" for v t0 cs f
    by (rule later_trans [OF later_trans [OF later_issued later_files] later_stream_chunks])
  show ?thesis
    by (auto simp: download_file_def http_get_def raise_for_status_def Let_def step
        split: json.splits sum.splits prod.splits option.splits)
qed

lemma download_file_Inr:
  assumes "download_file u p sl w = (Inr x, w')"
  shows "\<exists>v lat r. u = JStr v \<and> net w (calls w) = (lat, Reply r)
    \<and> \<not> (400 \<le> status_code r \<and> status_code r < 600) \<and> read_error r = None
    \<and> files w' = (files w)(p \<mapsto> concat (map snd (chunks r)))"
proof (cases u)
  case (JStr v)
  obtain lat rep where n: "net w (calls w) = (lat, rep)" by (cases "net w (calls w)")
  then show ?thesis
  proof (cases rep)
    case (Conn_error m)
    with assms JStr n show ?thesis by (simp add: download_file_def http_get_def)
  next
    case (Reply r)
    show ?thesis
    proof (cases "400 \<le> status_code r \<and> status_code r < 600")
      case True
      with assms JStr n Reply show ?thesis
        by (simp add: download_file_def http_get_def raise_for_status_def split: option.splits)
    next
      case False
      with assms JStr n Reply download_file_reply [of w lat r v p sl] show ?thesis
        by (auto simp: stream_chunks_files split: option.splits)
    qed
  qed
qed (use assms in \<open>simp_all add: download_file_def\<close>)

lemma throttle_clock: "last_request_time d + dl_interval d \<le> clock (throttle d w)"
  by (auto simp: throttle_def sleep_def Let_def)

lemma later_throttle: "later w (throttle d w)"
  by (auto simp: throttle_def Let_def)

lemma throttle_trace: "\<exists>es. trace (throttle d w) = trace w @ es \<and> requests_in es = []"
  by (auto simp: throttle_def sleep_def Let_def intro: exI [of _ "[]"])

lemma download_attempt_result:
  "fst (download_attempt c s p q sl d w) = Inr fp \<Longrightarrow> fp = p"
  by (auto simp: download_attempt_def Let_def split: sum.splits prod.splits if_splits)

lemma later_download_attempt: "later (throttle d w) (snd (snd (download_attempt c s p q sl d w)))"
  using later_get_song_download_url [of "throttle d w" c "song_id s" q]
  by (auto simp: download_attempt_def Let_def split: sum.splits prod.splits)
    (metis later_download_file later_trans snd_conv)+

text \<open>C16: the pacing of \<open>SongDownloader\<close>: every request one download attempt issues,
  the location fetch with its retries and the transfer, happens at least
  \<open>request_interval\<close> after the downloader's \<open>last_request_time\<close>.\<close>

theorem download_attempt_throttled:
  "\<exists>evs. trace (snd (snd (download_attempt c s p q sl d w))) = trace w @ evs
     \<and> list_all (\<lambda>(u, t). last_request_time d + dl_interval d \<le> t) (requests_in evs)"
proof -
  obtain es where es: "trace (throttle d w) = trace w @ es" "requests_in es = []"
    using throttle_trace by blast
  obtain evs where evs: "trace (snd (snd (download_attempt c s p q sl d w))) = trace (throttle d w) @ evs"
    "list_all (\<lambda>(u, t). clock (throttle d w) \<le> t) (requests_in evs)"
    using later_download_attempt [of d w c s p q sl] unfolding later_def by blast
  have "list_all (\<lambda>(u, t). last_request_time d + dl_interval d \<le> t) (requests_in evs)"
    using evs(2) throttle_clock [of d w] by (auto simp: list_all_iff)
  with es evs show ?thesis by (intro exI [of _ "es @ evs"]) simp
qed

lemma download_attempt_files:
  "fst (download_attempt c s p q sl d w) = Inr fp \<Longrightarrow> files (snd (snd (download_attempt c s p q sl d w))) p \<noteq> None"
  using download_file_Inr
  by (auto simp: download_attempt_def Let_def split: sum.splits prod.splits if_splits) fastforce

lemma download_loop_outcome:
  "attempt < 3 \<Longrightarrow>
   (fst (download_loop c s p q sl attempt d w) = (True, p)
      \<and> files (snd (snd (download_loop c s p q sl attempt d w))) p \<noteq> None)
   \<or> (\<exists>e. fst (download_loop c s p q sl attempt d w) = (False, ''Failed after 3 attempts: '' @ exn_str e))"
proof (induction c s p q sl attempt d w rule: download_loop.induct)
  case (1 c s p q sl attempt d w)
  obtain res d' w' where a: "download_attempt c s p q sl d w = (res, d', w')" by (cases "download_attempt c s p q sl d w")
  show ?case
  proof (cases res)
    case (Inr fp)
    with a download_attempt_result [of c s p q sl d w fp] download_attempt_files [of c s p q sl d w fp]
    show ?thesis using "1.prems" by (simp add: download_loop.simps [of c s p q sl attempt])
  next
    case (Inl e)
    show ?thesis
    proof (cases "attempt < 2")
      case True
      with "1.IH" [OF "1.prems" a [symmetric] Inl refl True] "1.prems" a Inl show ?thesis
        by (simp add: download_loop.simps [of c s p q sl attempt])
    next
      case False
      with "1.prems" a Inl show ?thesis by (auto simp: download_loop.simps [of c s p q sl attempt])
    qed
  qed
qed

lemma download_each_songs: "map res_song (fst (download_each c save q sl ss d w)) = map Some ss"
  by (induction ss arbitrary: d w) (auto split: prod.splits, metis fst_conv)

lemma download_each_length: "length (fst (download_each c save q sl ss d w)) = length ss"
  using download_each_songs [of c save q sl ss d w] by (metis length_map)

lemma stream_chunks_frame:
  "calls (stream_chunks p sl t0 n cs w) = calls w \<and> tool (stream_chunks p sl t0 n cs w) = tool w
   \<and> runs (stream_chunks p sl t0 n cs w) = runs w"
  by (induction p sl t0 n cs w rule: stream_chunks.induct) (auto simp: Let_def sleep_def)

text \<open>A speed limit that is not positive takes the same path as 0: every step of the
  transfer, and so of a whole download, is the same as without a limit.\<close>

lemma stream_chunks_nonpos:
  "sl \<le> 0 \<Longrightarrow> stream_chunks p sl t0 n cs w = stream_chunks p 0 t0 n cs w"
  by (induction p sl t0 n cs w rule: stream_chunks.induct) (simp_all add: Let_def)

lemma download_file_nonpos: "sl \<le> 0 \<Longrightarrow> download_file u p sl w = download_file u p 0 w"
  unfolding download_file_def by (simp only: stream_chunks_nonpos [of sl])

lemma download_attempt_nonpos:
  "sl \<le> 0 \<Longrightarrow> download_attempt c s p q sl d w = download_attempt c s p q 0 d w"
  unfolding download_attempt_def by (simp only: download_file_nonpos [of sl])

lemma download_loop_nonpos:
  "sl \<le> 0 \<Longrightarrow> download_loop c s p q sl k d w = download_loop c s p q 0 k d w"
proof (induction c s p q sl k d w rule: download_loop.induct)
  case (1 c s p q sl k d w)
  then show ?case
    by (subst (1 2) download_loop.simps) (auto simp: download_attempt_nonpos [of sl] split: prod.splits sum.splits)
qed

lemma download_song_nonpos:
  "sl \<le> 0 \<Longrightarrow> download_song c s save q sl skip fmt d w = download_song c s save q 0 skip fmt d w"
  unfolding download_song_def by (simp only: download_loop_nonpos [of sl])

text \<open>\<open>download_song\<close> always returns one of three things: the skip message
  for the song's file name, success with the file's path, or failure with
  \<open>Failed after 3 attempts: \<close> and the last attempt's error. The fall-through
  result of the attempt loop is never returned.\<close>

theorem download_song_outcome:
  "fst (download_song c s save q sl skip fmt d w)
     \<in> {(True, skip_message (song_filename s fmt)), (True, path_join save (song_filename s fmt))}
       \<union> range (\<lambda>e. (False, ''Failed after 3 attempts: '' @ exn_str e))"
  using download_loop_outcome [of 0 c s "path_join save (song_filename s fmt)" q sl d w]
  by (auto simp: download_song_def Let_def)

text \<open>Whenever \<open>download_song\<close> reports success, the song's file exists
  afterwards.\<close>

theorem download_song_success_file:
  assumes "fst (fst (download_song c s save q sl skip fmt d w))"
  shows "files (snd (snd (download_song c s save q sl skip fmt d w))) (path_join save (song_filename s fmt)) \<noteq> None"
  using assms download_loop_outcome [of 0 c s "path_join save (song_filename s fmt)" q sl d w]
  by (auto simp: download_song_def Let_def split: if_splits)

text \<open>With \<open>skip_existing\<close> set and the song's file present, \<open>download_song\<close>
  returns the skip message and changes nothing: no request, no sleep, and the
  downloader state is unchanged.\<close>

theorem download_song_skip:
  "skip \<Longrightarrow> files w (path_join save (song_filename s fmt)) \<noteq> None \<Longrightarrow>
   download_song c s save q sl skip fmt d w = ((True, skip_message (song_filename s fmt)), d, w)"
  by (simp add: download_song_def Let_def)

text \<open>For a reply that is not an HTTP error and whose body is read completely,
  \<open>download_file\<close> succeeds after one request. The file then holds exactly the
  concatenated chunks, and no other file changes.\<close>

theorem download_file_writes_body:
  assumes "net w (calls w) = (lat, Reply r)" and "\<not> (400 \<le> status_code r \<and> status_code r < 600)"
    and "read_error r = None"
  shows "\<exists>w'. download_file (JStr u) p sl w = (Inr (), w')
    \<and> files w' = (files w)(p \<mapsto> concat (map snd (chunks r))) \<and> calls w' = Suc (calls w)"
  using download_file_reply [OF assms(1,2)] assms(3)
  by (simp add: stream_chunks_files stream_chunks_frame)

text \<open>C18: the rate limit: with a positive \<open>speed_limit\<close>, the transfer of \<open>n\<close>
  bytes takes at least \<open>n / (speed_limit * 1024)\<close> seconds from the request.\<close>

theorem download_file_rate:
  assumes "0 < sl" and "net w (calls w) = (lat, Reply r)"
    and "\<not> (400 \<le> status_code r \<and> status_code r < 600)"
    and "download_file (JStr u) p sl w = (res, w')"
  shows "of_nat (length (concat (map snd (chunks r)))) / (of_int sl * 1024) \<le> clock w' - clock (issued u w)"
  using download_file_reply [OF assms(2,3)] assms(4) stream_chunks_rate [OF assms(1), of 0]
  by (auto split: option.splits)

text \<open>C19: a body that breaks during the transfer makes \<open>download_file\<close> raise. The
  file is left holding the chunks delivered so far, and a later
  \<open>download_song\<close> with \<open>skip_existing\<close> reports that incomplete file as already
  downloaded.\<close>

theorem broken_transfer_leaves_partial_file:
  assumes "net w (calls w) = (lat, Reply r)" and "\<not> (400 \<le> status_code r \<and> status_code r < 600)"
    and "read_error r = Some m" and "p = path_join save (song_filename s fmt)"
  shows "\<exists>w'. download_file (JStr u) p sl w = (Inl (RequestException m), w')
    \<and> files w' p = Some (concat (map snd (chunks r)))
    \<and> download_song c s save q sl' True fmt d w' = ((True, skip_message (song_filename s fmt)), d, w')"
  using download_file_reply [OF assms(1,2)] assms(3,4)
  by (simp add: stream_chunks_files download_song_def Let_def)

theorem download_file_writes_body_witness:
  "\<exists>w'. download_file (JStr ''http://cdn/a.mp3'') ''/music/a.mp3'' 0 (flaky_world\<lparr>calls := 2\<rparr>) = (Inr (), w')
     \<and> files w' = (files flaky_world)(''/music/a.mp3'' \<mapsto> ''ID3'') \<and> calls w' = 3"
  using download_file_writes_body [of "flaky_world\<lparr>calls := 2\<rparr>" 10 ok_reply "''http://cdn/a.mp3''" "''/music/a.mp3''" 0]
  by (simp add: flaky_world_def ok_reply_def)

lemma get_playlist_songs_nonempty:
  "get_playlist_songs c lid w = (Inr songs, w') \<Longrightarrow> songs \<noteq> []"
  using resolve_loop_Inr [of c "playlists c" lid w songs w'] try_provider_Some_nonempty
  by (fastforce simp: get_playlist_songs_def)

text \<open>When the playlist resolves, \<open>SongDownloader.download_playlist\<close> returns one
  result per song, in the playlist's order.\<close>

theorem download_playlist_results:
  assumes "get_playlist_songs c lid w = (Inr songs, w1)"
  shows "map res_song (fst (download_playlist c lid save q sl d w)) = map Some songs"
  using assms get_playlist_songs_nonempty [OF assms]
  by (simp add: download_playlist_def download_each_songs)

text \<open>When no provider yields the playlist, \<open>download_playlist\<close> returns one failed
  result carrying the resolver's all-providers-failed message, and no song.\<close>

theorem download_playlist_unresolved:
  assumes "get_playlist_songs c lid w = (Inl e, w1)"
  shows "fst (download_playlist c lid save q sl d w)
    = [\<lparr>res_song = None, res_success = False, res_message = all_failed_msg\<rparr>]"
  using assms resolve_loop_Inl [of c "playlists c" lid w e w1]
  by (simp add: download_playlist_def get_playlist_songs_def)

text \<open>The character-by-character \<open>replace\<close> loop of \<open>sanitize_filename\<close> is
  equivalent to a single pass that maps each illegal character to \<open>_\<close>.\<close>

theorem sanitize_filename_spec: "sanitize_filename s = sanitize_spec s"
  by (simp add: sanitize_filename_map sanitize_spec_def)

text \<open>A sanitized name contains no illegal character and has the original's length.
  Sanitizing it again changes nothing.\<close>

theorem sanitize_filename_safe:
  "set (sanitize_filename s) \<inter> set illegal_chars = {} \<and> length (sanitize_filename s) = length s
   \<and> sanitize_filename (sanitize_filename s) = sanitize_filename s"
  using underscore_legal by (auto simp: sanitize_filename_map)


theorem download_playlist_results_witness:
  "map res_song (fst (download_playlist scenario_config ''3778678'' ''/music'' None 0
      (new_downloader scenario_config) scenario_world)) = [Some scenario_song]"
  using download_playlist_results [OF conjunct1 [OF scenario_run]] by simp

theorem download_playlist_unresolved_witness:
  "fst (download_playlist example_config ''1'' ''/music'' None 0 (new_downloader example_config) flaky_world)
    = [\<lparr>res_song = None, res_success = False, res_message = all_failed_msg\<rparr>]"
  using download_playlist_unresolved [of example_config "''1''" flaky_world]
  by (simp add: get_playlist_songs_def example_config_def)

theorem download_song_skip_witness:
  "download_song example_config scenario_song ''/music'' None 0 True 0 (new_downloader example_config) stored_world
    = ((True, skip_message (song_filename scenario_song 0)), new_downloader example_config, stored_world)"
  using download_song_skip [of True stored_world] by (simp add: stored_world_def)

theorem download_song_success_file_witness:
  "files (snd (snd (download_song example_config scenario_song ''/music'' None 0 True 0
      (new_downloader example_config) stored_world))) (path_join ''/music'' (song_filename scenario_song 0)) \<noteq> None"
  using download_song_success_file [of example_config scenario_song "''/music''" None 0 True 0
      "new_downloader example_config" stored_world]
  by (simp add: download_song_def stored_world_def)

theorem download_file_rate_witness:
  "of_nat (length (concat (map snd (chunks ok_reply)))) / (of_int 1 * 1024)
    \<le> clock (snd (download_file (JStr ''u'') ''/m/a.mp3'' 1 (flaky_world\<lparr>calls := 2\<rparr>)))
      - clock (issued ''u'' (flaky_world\<lparr>calls := 2\<rparr>))"
  using download_file_rate [of 1 "flaky_world\<lparr>calls := 2\<rparr>" 10 ok_reply "''u''" "''/m/a.mp3''"
      "fst (download_file (JStr ''u'') ''/m/a.mp3'' 1 (flaky_world\<lparr>calls := 2\<rparr>))"]
  by (simp add: flaky_world_def ok_reply_def)

theorem broken_transfer_leaves_partial_file_witness:
  "\<exists>w'. download_file (JStr ''u'') (path_join ''/music'' (song_filename scenario_song 0)) 0 broken_world
      = (Inl (RequestException ''Connection broken''), w')
    \<and> files w' (path_join ''/music'' (song_filename scenario_song 0)) = Some ''ID3''
    \<and> download_song example_config scenario_song ''/music'' None 0 True 0 (new_downloader example_config) w'
      = ((True, skip_message (song_filename scenario_song 0)), new_downloader example_config, w')"
  using broken_transfer_leaves_partial_file [of broken_world 10
      "ok_reply\<lparr>chunks := [(5, ''ID3''), (5, [])], read_error := Some ''Connection broken''\<rparr>"
      "''Connection broken''" "path_join ''/music'' (song_filename scenario_song 0)" "''/music''"
      scenario_song 0 "''u''" 0 example_config None 0 "new_downloader example_config"]
  by (simp add: broken_world_def flaky_world_def ok_reply_def)

end
