(* ===== verification/Converter.thy ===== *)
theory Converter
  imports Transport
begin

text \<open>
  The batch normalizer's tool side, \<open>NCMConverter\<close> (\<open>src/utils/ncm_converter.py\<close>):
  locating the \<open>ncmdump\<close> executable (\<open>find_ncmdump\<close>, \<open>__init__\<close>), converting
  one file by running it (\<open>convert_single_file\<close>), and the class's own
  \<open>batch_convert\<close>. The path functions are \<open>posixpath\<close>'s: \<open>basename\<close>,
  \<open>dirname\<close>, \<open>splitext\<close>, and \<open>glob.glob(os.path.join(d, '*.ncm'))\<close>, which
  lists the directory in \<open>os.scandir\<close> order, skips hidden names and matches the
  suffix case-sensitively. A run of the tool is the world's next \<open>tool_run\<close>. It
  either fails to start, or exits with a code and a standard error text after
  writing its output files. \<open>os.makedirs\<close> succeeds on every non-empty path, and
  the file system has no directories of its own.
\<close>

subsection \<open>Paths\<close>

definition basename :: "path \<Rightarrow> string" where
  "basename p = rev (takeWhile (\<lambda>c. c \<noteq> CHR ''/'') (rev p))"

text \<open>\<open>os.path.dirname\<close>: everything up to the last separator, with the trailing
  separators removed unless the head consists of separators only.\<close>

definition dirname :: "path \<Rightarrow> path" where
  "dirname p =
     (let head = rev (dropWhile (\<lambda>c. c \<noteq> CHR ''/'') (rev p)) in
      if list_all (\<lambda>c. c = CHR ''/'') head then head
      else rev (dropWhile (\<lambda>c. c = CHR ''/'') (rev head)))"

text \<open>\<open>os.path.splitext\<close>: the extension starts at the last dot of the base name,
  unless only dots precede that dot in the base name.\<close>

definition splitext :: "path \<Rightarrow> path \<times> string" where
  "splitext p =
     (let b = basename p; d = take (length p - length b) p in
      if CHR ''.'' \<in> set b then
        (let ext = CHR ''.'' # rev (takeWhile (\<lambda>c. c \<noteq> CHR ''.'') (rev b));
             stem = take (length b - length ext) b
         in if list_all (\<lambda>c. c = CHR ''.'') stem then (p, []) else (d @ stem, ext))
      else (p, []))"

definition ends_with :: "string \<Rightarrow> string \<Rightarrow> bool" where
  "ends_with s suf \<longleftrightarrow> length suf \<le> length s \<and> drop (length s - length suf) s = suf"

definition glob_ncm :: "path \<Rightarrow> world \<Rightarrow> path list" where
  "glob_ncm d w =
     map (path_join d)
       (filter (\<lambda>n. \<not> starts_with ''.'' n \<and> ends_with n ''.ncm'' \<and> files w (path_join d n) \<noteq> None)
          (listing w d))"

subsection \<open>Locating the tool\<close>

text \<open>The process environment \<open>find_ncmdump\<close> reads: \<open>sys._MEIPASS\<close> (set in
  the packaged build), the working directory, the directory of the module file,
  and \<open>os.environ['PATH']\<close>.\<close>

record locator_env =
  meipass :: "path option"
  cwd :: path
  module_dir :: path
  env_path :: "string option"

definition ncmdump_exe :: string where
  "ncmdump_exe = ''ncmdump.exe''"

definition find_ncmdump :: "locator_env \<Rightarrow> world \<Rightarrow> exn + path option" where
  "find_ncmdump env w =
     (let ex = (\<lambda>p. files w p \<noteq> None);
          app = path_join (path_join (path_join (module_dir env) ''..'') ''app'') ncmdump_exe;
          scripts = path_join (path_join (path_join (path_join (module_dir env) ''..'') ''.conda'')
                      ''Scripts'') ncmdump_exe;
          bundled = (case meipass env of
                       None \<Rightarrow> None
                     | Some m \<Rightarrow>
                         if ex (path_join m ncmdump_exe) then Some (path_join m ncmdump_exe)
                         else if ex (path_join (path_join m ''app'') ncmdump_exe)
                         then Some (path_join (path_join m ''app'') ncmdump_exe)
                         else None)
      in case bundled of
           Some p \<Rightarrow> Inr (Some p)
         | None \<Rightarrow>
             if ex ncmdump_exe then Inr (Some (path_join (cwd env) ncmdump_exe))
             else if ex app then Inr (Some app)
             else if ex scripts then Inr (Some scripts)
             else (case env_path env of
                     None \<Rightarrow> Inl (KeyError (py_repr_str ''PATH''))
                   | Some ps \<Rightarrow> Inr (find ex (map (\<lambda>d. path_join d ncmdump_exe) (py_split '':'' ps)))))"

text \<open>\<open>NCMConverter.__init__(ncmdump_path)\<close>: the given path, or the located one;
  an absent or empty path raises \<open>FileNotFoundError\<close>. The converter's state is the
  tool path.\<close>

definition tool_not_found_msg :: string where
  "tool_not_found_msg = ''ncmdump executable not found. Please provide the path.''"

definition ncm_converter_init :: "locator_env \<Rightarrow> path option \<Rightarrow> world \<Rightarrow> exn + path" where
  "ncm_converter_init env arg w =
     (case (case arg of None \<Rightarrow> find_ncmdump env w | Some p \<Rightarrow> Inr (Some p)) of
        Inl e \<Rightarrow> Inl e
      | Inr None \<Rightarrow> Inl (FileNotFoundError tool_not_found_msg)
      | Inr (Some p) \<Rightarrow> if p = [] then Inl (FileNotFoundError tool_not_found_msg) else Inr p)"

subsection \<open>Converting\<close>

text \<open>\<open>subprocess.run(argv, capture_output=True, text=True)\<close>: the run is logged and
  counted, and a started tool writes its outputs before it exits.\<close>

definition run_tool :: "string list \<Rightarrow> world \<Rightarrow> tool_run \<times> world" where
  "run_tool argv w =
     (let r = tool w (runs w); w1 = w\<lparr>runs := Suc (runs w), trace := trace w @ [Ran argv]\<rparr> in
      (r, case r of
            Spawn_failed _ \<Rightarrow> w1
          | Exited _ _ outs \<Rightarrow> w1\<lparr>files := fold (\<lambda>(p, c) f. f(p \<mapsto> c)) outs (files w1)\<rparr>))"

text \<open>\<open>convert_single_file(ncm_file, output_dir)\<close>. Every exception is caught and
  becomes a failed pair. \<open>os.makedirs('')\<close> raises \<open>FileNotFoundError\<close>, a tool
  that cannot be started raises \<open>OSError\<close>, and a non-zero exit raises
  \<open>CalledProcessError\<close> (\<open>check=True\<close>).\<close>

definition convert_single_file :: "path \<Rightarrow> path \<Rightarrow> path option \<Rightarrow> world \<Rightarrow> (bool \<times> string) \<times> world" where
  "convert_single_file tp ncm od w =
     (let od' = (case od of None \<Rightarrow> dirname ncm | Some d \<Rightarrow> d) in
      if od' = [] then ((False, ''[Errno 2] No such file or directory: '' @ quoted ''''), w)
      else
        (case run_tool [tp, ncm, ''-o'', od'] w of
           (Spawn_failed m, w1) \<Rightarrow> ((False, m), w1)
         | (Exited code err outs, w1) \<Rightarrow>
             if code \<noteq> 0 then ((False, ''Conversion failed: '' @ err), w1)
             else
               (let mp3 = fst (splitext ncm) @ ''.mp3'' in
                if files w1 mp3 \<noteq> None then ((True, mp3), w1)
                else
                  (let mp3' = path_join od' (fst (splitext (basename ncm)) @ ''.mp3'') in
                   if files w1 mp3' \<noteq> None then ((True, mp3'), w1)
                   else ((False, ''Converted file not found: '' @ mp3'), w1)))))"

record conv_result =
  conv_file :: "path option"
  conv_success :: bool
  conv_message :: string

fun convert_each :: "path \<Rightarrow> path option \<Rightarrow> path list \<Rightarrow> world \<Rightarrow> conv_result list \<times> world" where
  "convert_each tp od [] w = ([], w)"
| "convert_each tp od (f # fs) w =
     (case convert_single_file tp f od w of
        ((ok, msg), w1) \<Rightarrow>
          (case convert_each tp od fs w1 of
             (rs, w2) \<Rightarrow> (\<lparr>conv_file = Some f, conv_success = ok, conv_message = msg\<rparr> # rs, w2)))"

text \<open>\<open>batch_convert(input_dir, output_dir)\<close> (the \<open>tqdm\<close> progress bar is not
  modelled).\<close>

definition batch_convert :: "path \<Rightarrow> path \<Rightarrow> path option \<Rightarrow> world \<Rightarrow> conv_result list \<times> world" where
  "batch_convert tp input od w =
     (let fs = glob_ncm input w in
      if fs = [] then ([\<lparr>conv_file = None, conv_success = False,
                         conv_message = ''No NCM files found in '' @ input\<rparr>], w)
      else convert_each tp od fs w)"

subsection \<open>Reference: the lookup order\<close>

text \<open>The candidates \<open>find_ncmdump\<close> tries, in order, each with the path it checks
  and the path it returns.\<close>

definition ncmdump_candidates :: "locator_env \<Rightarrow> string \<Rightarrow> (path \<times> path) list" where
  "ncmdump_candidates env ps =
     (case meipass env of
        None \<Rightarrow> []
      | Some m \<Rightarrow> [(path_join m ncmdump_exe, path_join m ncmdump_exe),
                  (path_join (path_join m ''app'') ncmdump_exe, path_join (path_join m ''app'') ncmdump_exe)])
     @ [(ncmdump_exe, path_join (cwd env) ncmdump_exe)]
     @ map (\<lambda>p. (p, p))
         ([path_join (path_join (path_join (module_dir env) ''..'') ''app'') ncmdump_exe,
           path_join (path_join (path_join (path_join (module_dir env) ''..'') ''.conda'') ''Scripts'') ncmdump_exe]
          @ map (\<lambda>d. path_join d ncmdump_exe) (py_split '':'' ps))"

subsection \<open>Examples\<close>

text \<open>An environment with nothing bundled; a folder with one source whose flipped
  name is taken in the output folder; a source with a stale \<open>.mp3\<close> beside it
  and a tool that writes nothing.\<close>

definition bare_env :: locator_env where
  "bare_env = \<lparr>meipass = None, cwd = ''/home/u'', module_dir = ''/opt/app/utils'', env_path = None\<rparr>"

definition conv_base :: world where
  "conv_base = flaky_world\<lparr>listing := (\<lambda>d. if d = ''/in'' then [''A - B.ncm''] else []),
     files := [''/in/A - B.ncm'' \<mapsto> ''ncm1'', ''/out/B - A.mp3'' \<mapsto> ''old''],
     tool := (\<lambda>i. Exited 0 [] [(''/out/A - B.mp3'', ''X'')])\<rparr>"

definition stale_world :: world where
  "stale_world = flaky_world\<lparr>files := [''/in/a.ncm'' \<mapsto> ''ncm'', ''/in/a.mp3'' \<mapsto> ''old''],
     tool := (\<lambda>_. Exited 0 [] [])\<rparr>"

subsection \<open>Lemmas\<close>

lemmas conv_eval_core = glob_ncm_def flaky_world_def convert_single_file_def run_tool_def splitext_def
  basename_def path_join_def starts_with_def ends_with_def py_split_def Let_def

lemma rev_takeWhile_suffix:
  "take (length xs - length (takeWhile P (rev xs))) xs @ rev (takeWhile P (rev xs)) = xs"
proof -
  have e: "xs = rev (dropWhile P (rev xs)) @ rev (takeWhile P (rev xs))"
    by (metis rev_append rev_rev_ident takeWhile_dropWhile_id)
  have "length (takeWhile P (rev xs)) + length (dropWhile P (rev xs)) = length xs"
    by (metis length_append length_rev takeWhile_dropWhile_id)
  then have "length xs - length (takeWhile P (rev xs)) = length (rev (dropWhile P (rev xs)))"
    by simp
  then show ?thesis by (metis append_eq_conv_conj e)
qed

text \<open>\<open>splitext\<close> splits a path without losing anything: the root and the extension concatenate back to the path.\<close>

theorem splitext_roundtrip: "fst (splitext p) @ snd (splitext p) = p"
proof -
  let ?b = "basename p"
  have pb: "take (length p - length ?b) p @ ?b = p"
    using rev_takeWhile_suffix [of p "\<lambda>c. c \<noteq> CHR ''/''"] by (simp add: basename_def)
  show ?thesis
  proof (cases "CHR ''.'' \<in> set ?b")
    case False
    then show ?thesis by (simp add: splitext_def Let_def)
  next
    case True
    let ?t = "takeWhile (\<lambda>c. c \<noteq> CHR ''.'') (rev ?b)"
    have ne: "dropWhile (\<lambda>c. c \<noteq> CHR ''.'') (rev ?b) \<noteq> []"
      using True by (simp add: dropWhile_eq_Nil_conv)
    then obtain x r where xr: "dropWhile (\<lambda>c. c \<noteq> CHR ''.'') (rev ?b) = x # r"
      by (cases "dropWhile (\<lambda>c. c \<noteq> CHR ''.'') (rev ?b)") auto
    with hd_dropWhile [OF ne] have r: "dropWhile (\<lambda>c. c \<noteq> CHR ''.'') (rev ?b) = CHR ''.'' # r"
      by simp
    then have "rev ?b = ?t @ CHR ''.'' # r" by (metis takeWhile_dropWhile_id)
    then have "?b = rev (?t @ CHR ''.'' # r)" by (metis rev_rev_ident)
    then have b: "?b = rev r @ CHR ''.'' # rev ?t" by simp
    have "take (length ?b - length (CHR ''.'' # rev ?t)) ?b = rev r"
      by (subst (1 2) b) simp
    with b have "take (length ?b - length (CHR ''.'' # rev ?t)) ?b @ CHR ''.'' # rev ?t = ?b" by simp
    with pb True show ?thesis by (auto simp: splitext_def Let_def)
  qed
qed

lemma find_append_opt:
  "find P (xs @ ys) = (case find P xs of None \<Rightarrow> find P ys | Some x \<Rightarrow> Some x)"
  by (induction xs) auto

lemma find_pairs:
  "map_option snd (find (\<lambda>(c, r). P c) (map ((\<lambda>p. (p, p)) \<circ> f) xs)) = find P (map f xs)"
  by (induction xs) auto

text \<open>C25: with \<open>PATH\<close> set, \<open>find_ncmdump\<close> returns the first candidate in the documented order that exists: the two bundled locations, the working directory (returned as an absolute path), the \<open>app\<close> and \<open>.conda/Scripts\<close> folders beside the sources, then each \<open>PATH\<close> entry in order; \<open>None\<close> when none exists.\<close>

theorem find_ncmdump_first_candidate:
  assumes "env_path env = Some ps"
  shows "find_ncmdump env w =
    Inr (map_option snd (find (\<lambda>(c, r). files w c \<noteq> None) (ncmdump_candidates env ps)))"
  using assms
  by (cases "meipass env")
     (simp_all add: find_ncmdump_def ncmdump_candidates_def Let_def find_append_opt find_pairs)

lemma run_tool_simps:
  "fst (run_tool argv w) = tool w (runs w)"
  "runs (snd (run_tool argv w)) = Suc (runs w)"
  "trace (snd (run_tool argv w)) = trace w @ [Ran argv]"
  "calls (snd (run_tool argv w)) = calls w"
  by (simp_all add: run_tool_def Let_def split: tool_run.splits)

lemma run_tool_exited:
  "tool w (runs w) = Exited code err outs \<Longrightarrow>
   run_tool argv w = (Exited code err outs,
     w\<lparr>runs := Suc (runs w), trace := trace w @ [Ran argv], files := fold (\<lambda>(p, c) f. f(p \<mapsto> c)) outs (files w)\<rparr>)"
  by (simp add: run_tool_def)

text \<open>\<open>convert_single_file\<close> reports success only after running the tool once with exit code 0, and the path it returns exists afterwards.\<close>

theorem convert_single_file_success:
  assumes "fst (fst (convert_single_file tp ncm od w))"
  shows "files (snd (convert_single_file tp ncm od w)) (snd (fst (convert_single_file tp ncm od w))) \<noteq> None
    \<and> (\<exists>err outs. tool w (runs w) = Exited 0 err outs)
    \<and> runs (snd (convert_single_file tp ncm od w)) = Suc (runs w)"
  using assms
  by (auto simp: convert_single_file_def run_tool_def Let_def split: tool_run.splits if_splits)

text \<open>C27: the output check looks beside the source first. A tool that exits with 0 and writes nothing is reported as a success whenever an \<open>.mp3\<close> of the same stem already lies beside the source, and that stale file is returned as the result.\<close>

theorem convert_single_file_stale_output:
  assumes "tool w (runs w) = Exited 0 err []" and "od \<noteq> []"
    and "files w (fst (splitext ncm) @ ''.mp3'') \<noteq> None"
  shows "convert_single_file tp ncm (Some od) w =
    ((True, fst (splitext ncm) @ ''.mp3''), w\<lparr>runs := Suc (runs w), trace := trace w @ [Ran [tp, ncm, ''-o'', od]]\<rparr>)"
  using assms by (simp add: convert_single_file_def run_tool_exited)

text \<open>A non-zero exit code is a failure whose detail is the tool's standard error, whatever files the tool wrote.\<close>

theorem convert_single_file_exit_code:
  assumes "tool w (runs w) = Exited code err outs" and "code \<noteq> 0" and "od \<noteq> []"
  shows "fst (convert_single_file tp ncm (Some od) w) = (False, ''Conversion failed: '' @ err)"
  using assms by (simp add: convert_single_file_def run_tool_exited)

lemma convert_each_files: "map conv_file (fst (convert_each tp od fs w)) = map Some fs"
  by (induction fs arbitrary: w) (auto split: prod.splits, metis fst_conv)

text \<open>With at least one source file, \<open>batch_convert\<close> returns one result per file found, in the order of the directory listing.\<close>

theorem batch_convert_results:
  "glob_ncm input w \<noteq> [] \<Longrightarrow> map conv_file (fst (batch_convert tp input od w)) = map Some (glob_ncm input w)"
  by (simp add: batch_convert_def convert_each_files)

theorem find_ncmdump_first_candidate_witness:
  "find_ncmdump (bare_env\<lparr>env_path := Some ''/usr/bin:/opt/bin''\<rparr>)
     (flaky_world\<lparr>files := [''/opt/bin/ncmdump.exe'' \<mapsto> []]\<rparr>) = Inr (Some ''/opt/bin/ncmdump.exe'')"
  using find_ncmdump_first_candidate [of "bare_env\<lparr>env_path := Some ''/usr/bin:/opt/bin''\<rparr>"
      "''/usr/bin:/opt/bin''" "flaky_world\<lparr>files := [''/opt/bin/ncmdump.exe'' \<mapsto> []]\<rparr>"]
  by (simp add: ncmdump_candidates_def bare_env_def ncmdump_exe_def path_join_def starts_with_def py_split_def)

theorem convert_single_file_success_witness:
  "files (snd (convert_single_file ''ncmdump'' ''/in/A - B.ncm'' (Some ''/out'') conv_base)) ''/out/A - B.mp3'' \<noteq> None"
proof -
  have h: "fst (fst (convert_single_file ''ncmdump'' ''/in/A - B.ncm'' (Some ''/out'') conv_base))"
    and r: "snd (fst (convert_single_file ''ncmdump'' ''/in/A - B.ncm'' (Some ''/out'') conv_base)) = ''/out/A - B.mp3''"
    by (simp_all add: conv_eval_core conv_base_def)
  from convert_single_file_success [OF h] r show ?thesis by simp
qed

theorem convert_single_file_stale_output_witness:
  "fst (convert_single_file ''ncmdump'' ''/in/a.ncm'' (Some ''/out'') stale_world) = (True, ''/in/a.mp3'')"
  using convert_single_file_stale_output [of stale_world "[]" "''/out''" "''/in/a.ncm''" "''ncmdump''"]
  by (simp add: stale_world_def flaky_world_def splitext_def basename_def)

theorem convert_single_file_exit_code_witness:
  "fst (convert_single_file ''ncmdump'' ''/in/a.ncm'' (Some ''/out'') (flaky_world\<lparr>tool := (\<lambda>_. Exited 1 ''bad header'' [])\<rparr>))
    = (False, ''Conversion failed: bad header'')"
  using convert_single_file_exit_code [of "flaky_world\<lparr>tool := (\<lambda>_. Exited 1 ''bad header'' [])\<rparr>"
      1 "''bad header''" "[]" "''/out''" "''ncmdump''" "''/in/a.ncm''"]
  by (simp add: flaky_world_def)

theorem batch_convert_results_witness:
  "map conv_file (fst (batch_convert ''ncmdump'' ''/in'' None conv_base)) = [Some ''/in/A - B.ncm'']"
proof -
  have "glob_ncm ''/in'' conv_base = [''/in/A - B.ncm'']" by (simp add: conv_eval_core conv_base_def)
  with batch_convert_results [of "''/in''" conv_base "''ncmdump''" None] show ?thesis by simp
qed

end
