(* ===== verification/Orchestrator.thy ===== *)
theory Orchestrator
  imports Downloader Converter
begin

text \<open>
  The orchestrator, \<open>MainWindow\<close> in \<open>src/utils/ui.py\<close>: the state the worker threads
  and the main thread share, the two worker functions \<open>download_playlist\<close> and
  \<open>convert_ncm_files\<close>, and the main-thread handlers that start and stop them and
  save the request interval. Signals are events appended to a list in emission
  order. A log line is recorded only for an item's outcome, as an \<open>ItemLog\<close> with
  its classification. The stop flags are written by the main thread while a worker
  runs: the worker's reads are the oracle \<open>stopped\<close>, where \<open>stopped i\<close> is the
  value the check before item \<open>i\<close> reads. A progress signal inside a loop is
  recorded with the item number and the total it is computed from (the percentage
  \<open>int((i+1)/total*100)\<close> is evaluated in floating point and not modelled), and
  with the label's \<open>artist - name\<close> or file part.
\<close>

datatype outcome = Done | Skipped | Failed | Renamed | Rename_failed

datatype ui_event =
    Progress nat nat string
  | Progress_done
  | ItemLog nat outcome string
  | Download_complete nat nat
  | Download_error string
  | Button_state bool bool
  | Ncm_progress nat nat string
  | Ncm_progress_done
  | Ncm_complete nat nat
  | Ncm_error string
  | Ncm_button_state bool bool
  | Api_test string string int
  | Version string

record tally =
  n_success :: nat
  n_fail :: nat
  n_skip :: nat

definition tally0 :: tally where
  "tally0 = \<lparr>n_success = 0, n_fail = 0, n_skip = 0\<rparr>"

record app =
  app_config :: config
  app_dl :: downloader
  app_converter :: "path option"
  stop_download :: bool
  stop_convert :: bool

subsection \<open>The download worker\<close>

text \<open>\<open>"...skipped..." in message\<close> (the marker of \<open>skip_message\<close>): a successful result is counted as skipped when its
  message contains the skip marker.\<close>

definition classify_download :: "bool \<times> string \<Rightarrow> outcome" where
  "classify_download r = (if fst r then (if py_in skip_marker (snd r) then Skipped else Done) else Failed)"

definition count :: "outcome \<Rightarrow> tally \<Rightarrow> tally" where
  "count k t =
     (case k of
        Skipped \<Rightarrow> t\<lparr>n_skip := Suc (n_skip t)\<rparr>
      | Failed \<Rightarrow> t\<lparr>n_fail := Suc (n_fail t)\<rparr>
      | _ \<Rightarrow> t\<lparr>n_success := Suc (n_success t)\<rparr>)"

fun download_items ::
  "config \<Rightarrow> path \<Rightarrow> string \<Rightarrow> int \<Rightarrow> bool \<Rightarrow> int \<Rightarrow> (nat \<Rightarrow> bool) \<Rightarrow> nat \<Rightarrow> nat \<Rightarrow> song list
   \<Rightarrow> tally \<Rightarrow> downloader \<Rightarrow> world \<Rightarrow> ui_event list \<Rightarrow> tally \<times> downloader \<times> world \<times> ui_event list" where
  "download_items c save q sl skip fmt stopped n i [] t d w evs = (t, d, w, evs)"
| "download_items c save q sl skip fmt stopped n i (s # ss) t d w evs =
     (if stopped i then (t, d, w, evs)
      else
        (case download_song c s save (Some q) sl skip fmt d w of
           (r, d', w') \<Rightarrow>
             download_items c save q sl skip fmt stopped n (Suc i) ss (count (classify_download r) t) d' w'
               (evs @ [Progress (Suc i) n (py_str (song_artist s) @ '' - '' @ py_str (song_name s)),
                       ItemLog (Suc i) (classify_download r) (snd r)])))"

text \<open>The error messages of the three \<open>except\<close> clauses (UTF-8 bytes of
  "API response structure error: ", "network request error: ", "unknown error: ").\<close>

definition key_error_prefix :: string where
  "key_error_prefix = ''API'' @ [CHR 0xE5, CHR 0x93, CHR 0x8D, CHR 0xE5, CHR 0xBA, CHR 0x94, CHR 0xE7, CHR 0xBB,
     CHR 0x93, CHR 0xE6, CHR 0x9E, CHR 0x84, CHR 0xE5, CHR 0xBC, CHR 0x82, CHR 0xE5, CHR 0xB8, CHR 0xB8] @ '': ''"

definition network_error_prefix :: string where
  "network_error_prefix = [CHR 0xE7, CHR 0xBD, CHR 0x91, CHR 0xE7, CHR 0xBB, CHR 0x9C, CHR 0xE8, CHR 0xAF, CHR 0xB7,
     CHR 0xE6, CHR 0xB1, CHR 0x82, CHR 0xE5, CHR 0xBC, CHR 0x82, CHR 0xE5, CHR 0xB8, CHR 0xB8] @ '': ''"

definition unknown_error_prefix :: string where
  "unknown_error_prefix = [CHR 0xE6, CHR 0x9C, CHR 0xAA, CHR 0xE7, CHR 0x9F, CHR 0xA5, CHR 0xE9, CHR 0x94, CHR 0x99,
     CHR 0xE8, CHR 0xAF, CHR 0xAF] @ '': ''"

definition download_error_message :: "exn \<Rightarrow> string" where
  "download_error_message e =
     (case e of
        KeyError _ \<Rightarrow> key_error_prefix @ exn_str e
      | _ \<Rightarrow> if is_request_exception e then network_error_prefix @ exn_str e
             else unknown_error_prefix @ exn_str e)"

text \<open>\<open>MainWindow.download_playlist(list_id, save_path, quality, speed_limit,
  skip_existing, filename_format)\<close>, run in its worker thread; the \<open>finally\<close> clause
  re-enables the download button.\<close>

definition download_worker ::
  "app \<Rightarrow> string \<Rightarrow> path \<Rightarrow> string \<Rightarrow> int \<Rightarrow> bool \<Rightarrow> int \<Rightarrow> (nat \<Rightarrow> bool) \<Rightarrow> world
   \<Rightarrow> app \<times> world \<times> ui_event list" where
  "download_worker a list_id save q sl skip fmt stopped w =
     (case get_playlist_songs (app_config a) list_id w of
        (Inl e, w1) \<Rightarrow> (a, w1, [Download_error (download_error_message e), Button_state True False])
      | (Inr songs, w1) \<Rightarrow>
          (case download_items (app_config a) save q sl skip fmt stopped (length songs) 0 songs tally0 (app_dl a) w1 [] of
             (t, d, w2, evs) \<Rightarrow>
               (a\<lparr>app_dl := d\<rparr>, w2,
                evs @ [Progress_done, Download_complete (n_success t) (n_fail t), Button_state True False])))"


subsection \<open>The conversion worker\<close>

text \<open>The canonical target name of \<open>convert_ncm_files\<close>: the source's stem with
  \<open>.mp3\<close>, and with \<open>flip_filename\<close> a stem \<open>A - B...\<close> split on \<open> - \<close> becomes
  \<open>B... - A\<close>.\<close>

definition target_filename :: "bool \<Rightarrow> path \<Rightarrow> string" where
  "target_filename flip ncm =
     (let stem = fst (splitext (basename ncm)) in
      if flip \<and> py_in '' - '' stem then
        (let parts = py_split '' - '' stem in
         if 2 \<le> length parts then py_join '' - '' (tl parts) @ '' - '' @ hd parts @ ''.mp3''
         else stem @ ''.mp3'')
      else stem @ ''.mp3'')"

text \<open>\<open>os.rename(src, dst)\<close> with the semantics of Windows, the platform the
  program is built for: an existing target is not replaced.\<close>

definition rename_file :: "path \<Rightarrow> path \<Rightarrow> (world, unit) io" where
  "rename_file src dst w =
     (case files w src of
        None \<Rightarrow> (Inl (FileNotFoundError (''[WinError 2] '' @ src)), w)
      | Some c \<Rightarrow>
          if dst \<noteq> src \<and> files w dst \<noteq> None then (Inl (OSError (''[WinError 183] '' @ dst)), w)
          else (Inr (), w\<lparr>files := (files w)(src := None, dst \<mapsto> c)\<rparr>))"

text \<open>One item of the conversion loop after the stop check: the skip check on
  the canonical name, the conversion, and the rename of the tool's output to the
  canonical name, a failed rename being only logged.\<close>

definition convert_item ::
  "path \<Rightarrow> path \<Rightarrow> bool \<Rightarrow> bool \<Rightarrow> path \<Rightarrow> world \<Rightarrow> (outcome \<times> string) \<times> world" where
  "convert_item tp od skip flip ncm w =
     (let target = target_filename flip ncm; target_path = path_join od target in
      if skip \<and> files w target_path \<noteq> None then ((Skipped, target), w)
      else
        (case convert_single_file tp ncm (Some od) w of
           ((False, msg), w1) \<Rightarrow> ((Failed, msg), w1)
         | ((True, msg), w1) \<Rightarrow>
             (let cb = basename msg; cp = path_join od cb in
              if cb \<noteq> target \<and> files w1 cp \<noteq> None then
                (case rename_file cp target_path w1 of
                   (Inl e, w2) \<Rightarrow> ((Rename_failed, exn_str e), w2)
                 | (Inr _, w2) \<Rightarrow> ((Renamed, target), w2))
              else ((Done, target), w1))))"

fun convert_items ::
  "path \<Rightarrow> path \<Rightarrow> bool \<Rightarrow> bool \<Rightarrow> (nat \<Rightarrow> bool) \<Rightarrow> nat \<Rightarrow> nat \<Rightarrow> path list \<Rightarrow> tally \<Rightarrow> world
   \<Rightarrow> ui_event list \<Rightarrow> tally \<times> world \<times> ui_event list" where
  "convert_items tp od skip flip stopped n i [] t w evs = (t, w, evs)"
| "convert_items tp od skip flip stopped n i (f # fs) t w evs =
     (if stopped i then (t, w, evs)
      else
        (case convert_item tp od skip flip f w of
           ((k, msg), w') \<Rightarrow>
             convert_items tp od skip flip stopped n (Suc i) fs (count k t) w'
               (evs @ [Ncm_progress (Suc i) n (basename f), ItemLog (Suc i) k msg])))"

text \<open>\<open>MainWindow.convert_ncm_files(input_dir, output_dir, skip_existing,
  flip_filename)\<close>, run in its worker thread with the converter the window built.\<close>

definition convert_worker ::
  "path \<Rightarrow> path \<Rightarrow> path \<Rightarrow> bool \<Rightarrow> bool \<Rightarrow> (nat \<Rightarrow> bool) \<Rightarrow> world \<Rightarrow> world \<times> ui_event list" where
  "convert_worker tp input od skip flip stopped w =
     (let fs = glob_ncm input w in
      if fs = [] then (w, [Ncm_complete 0 0, Ncm_button_state True False])
      else
        (case convert_items tp od skip flip stopped (length fs) 0 fs tally0 w [] of
           (t, w', evs) \<Rightarrow>
             (w', evs @ [Ncm_progress_done, Ncm_complete (n_success t) (n_fail t),
                        Ncm_button_state True False])))"

subsection \<open>Main-thread handlers\<close>

text \<open>\<open>MainWindow.__init__\<close>, the part that builds the core objects: the
  configuration, the downloader, and the converter. A \<open>FileNotFoundError\<close> from the
  converter disables conversion; any other exception propagates.\<close>

definition app_init :: "config \<Rightarrow> locator_env \<Rightarrow> world \<Rightarrow> exn + app" where
  "app_init c env w =
     (let conv = ncm_converter_init env None w in
      case conv of
        Inl (FileNotFoundError _) \<Rightarrow>
          Inr \<lparr>app_config = c, app_dl = new_downloader c, app_converter = None,
               stop_download = False, stop_convert = False\<rparr>
      | Inl e \<Rightarrow> Inl e
      | Inr tp \<Rightarrow>
          Inr \<lparr>app_config = c, app_dl = new_downloader c, app_converter = Some tp,
               stop_download = False, stop_convert = False\<rparr>)"

definition stop_download_task :: "app \<Rightarrow> app" where
  "stop_download_task a = a\<lparr>stop_download := True\<rparr>"

definition stop_convert_task :: "app \<Rightarrow> app" where
  "stop_convert_task a = a\<lparr>stop_convert := True\<rparr>"

text \<open>The handlers receive what they read from the widgets already converted: an
  integer field as \<open>int option\<close> (\<open>None\<close>: \<open>int()\<close> raises \<open>ValueError\<close>), and
  \<open>os.path.exists(input_dir)\<close> as a Boolean.\<close>

text \<open>\<open>start_download\<close>: the speed field must parse as an integer (\<open>None\<close>: it
  does not), the stripped playlist id must be non-empty; then the stop flag is
  reset and the worker is started with these arguments.\<close>

datatype ui_error = Speed_not_integer | Missing_list_id | Converter_unavailable | Input_missing
  | Bad_interval string

definition start_download :: "app \<Rightarrow> string \<Rightarrow> int option \<Rightarrow> ui_error + app \<times> string \<times> int" where
  "start_download a list_text speed =
     (case speed of
        None \<Rightarrow> Inl Speed_not_integer
      | Some sl \<Rightarrow>
          (let list_id = py_strip list_text in
           if list_id = [] then Inl Missing_list_id
           else Inr (a\<lparr>stop_download := False\<rparr>, list_id, sl)))"

definition start_ncm_convert :: "app \<Rightarrow> bool \<Rightarrow> ui_error + app" where
  "start_ncm_convert a input_exists =
     (if app_converter a = None then Inl Converter_unavailable
      else if \<not> input_exists then Inl Input_missing
      else Inr (a\<lparr>stop_convert := False\<rparr>))"

text \<open>\<open>save_request_interval\<close>: the field parsed as an integer, refused when
  negative, then stored through \<open>APIHandler.set_request_interval\<close>.\<close>

definition save_request_interval :: "app \<Rightarrow> int option \<Rightarrow> ui_error + app" where
  "save_request_interval a v =
     (case v of
        None \<Rightarrow> Inl (Bad_interval ''invalid literal for int()'')
      | Some i \<Rightarrow>
          if i < 0 then Inl (Bad_interval ''request interval must not be negative'')
          else Inr (a\<lparr>app_config := set_request_interval i (app_config a)\<rparr>))"

text \<open>The notification the completion slots choose from the two counts.\<close>

datatype notice = Notice_success | Notice_warning | Notice_error

definition complete_notice :: "nat \<Rightarrow> nat \<Rightarrow> notice" where
  "complete_notice s f = (if f = 0 then Notice_success else if 0 < s then Notice_warning else Notice_error)"


text \<open>The per-item outcomes a worker logged, in order.\<close>

fun item_logs :: "ui_event list \<Rightarrow> (nat \<times> outcome) list" where
  "item_logs [] = []"
| "item_logs (ItemLog i k m # es) = (i, k) # item_logs es"
| "item_logs (_ # es) = item_logs es"

subsection \<open>Examples\<close>

text \<open>A folder with two sources whose names are each other's flip; the
  resolver scenario and the provider-less configuration as application states; a
  song whose title contains the skip marker.\<close>



definition swap_world :: world where
  "swap_world = flaky_world\<lparr>listing := (\<lambda>d. if d = ''/in'' then [''A - B.ncm'', ''B - A.ncm''] else []),
     files := [''/in/A - B.ncm'' \<mapsto> ''ncm1'', ''/in/B - A.ncm'' \<mapsto> ''ncm2''],
     tool := (\<lambda>i. if i = 0 then Exited 0 [] [(''/out/A - B.mp3'', ''X'')]
                 else Exited 0 [] [(''/out/B - A.mp3'', ''Y'')])\<rparr>"



definition scenario_app :: app where
  "scenario_app = \<lparr>app_config = scenario_config, app_dl = new_downloader scenario_config,
     app_converter = None, stop_download = False, stop_convert = False\<rparr>"

definition marker_song :: song where
  "marker_song = \<lparr>song_name = JStr skip_marker, song_artist = JStr ''A'', song_id = ''1''\<rparr>"

definition example_app :: app where
  "example_app = \<lparr>app_config = example_config, app_dl = new_downloader example_config,
     app_converter = None, stop_download = False, stop_convert = False\<rparr>"

subsection \<open>Lemmas\<close>

text \<open>With \<open>flip_filename\<close>, the canonical name swaps the two sides of the first \<open> - \<close> of the source's stem; a stem without the separator keeps its name.\<close>

theorem target_filename_flip:
  "target_filename True ncm =
     (case cut '' - '' (fst (splitext (basename ncm))) of
        Some (a, b) \<Rightarrow> b @ '' - '' @ a @ ''.mp3''
      | None \<Rightarrow> fst (splitext (basename ncm)) @ ''.mp3'')"
proof (cases "cut '' - '' (fst (splitext (basename ncm)))")
  case None
  then have "\<not> py_in '' - '' (fst (splitext (basename ncm)))" using cut_None by simp
  with None show ?thesis by (simp add: target_filename_def Let_def)
next
  case (Some ab)
  then obtain a b where ab: "cut '' - '' (fst (splitext (basename ncm))) = Some (a, b)" by (cases ab) auto
  then have "py_in '' - '' (fst (splitext (basename ncm)))"
    using cut_None [of "'' - ''" "fst (splitext (basename ncm))"] by simp
  moreover have "py_split '' - '' (fst (splitext (basename ncm))) = a # py_split '' - '' b"
    using py_split_cut [OF _ ab] by simp
  moreover have "0 < length (py_split '' - '' b)" using py_split_not_Nil [of "'' - ''" b] by simp
  ultimately show ?thesis using ab py_join_split [of "'' - ''" b]
    by (simp add: target_filename_def Let_def Suc_le_eq)
qed

lemma item_logs_append [simp]: "item_logs (xs @ ys) = item_logs xs @ item_logs ys"
  by (induction xs rule: item_logs.induct) auto

lemma download_items_run:
  assumes "download_items c save q sl skip fmt stopped n i ss t d w evs = (t', d', w', evs')"
  shows "\<exists>m new. m \<le> length ss \<and> (\<forall>j<m. \<not> stopped (i + j)) \<and> (m < length ss \<longrightarrow> stopped (i + m))
    \<and> evs' = evs @ new \<and> map fst (item_logs new) = [Suc i..<Suc i + m]
    \<and> t' = fold count (map snd (item_logs new)) t"
  using assms
proof (induction c save q sl skip fmt stopped n i ss t d w evs rule: download_items.induct)
  case (1 c save q sl skip fmt stopped n i t d w evs)
  then show ?case by (intro exI [of _ 0] exI [of _ "[]"]) simp
next
  case (2 c save q sl skip fmt stopped n i s ss t d w evs)
  show ?case
  proof (cases "stopped i")
    case True
    with "2.prems" show ?thesis by (intro exI [of _ 0] exI [of _ "[]"]) simp
  next
    case False
    obtain r d1 w1 where r: "download_song c s save (Some q) sl skip fmt d w = (r, d1, w1)"
      by (cases "download_song c s save (Some q) sl skip fmt d w") auto
    let ?e = "[Progress (Suc i) n (py_str (song_artist s) @ '' - '' @ py_str (song_name s)),
               ItemLog (Suc i) (classify_download r) (snd r)]"
    from "2.prems" False r have run: "download_items c save q sl skip fmt stopped n (Suc i) ss
        (count (classify_download r) t) d1 w1 (evs @ ?e) = (t', d', w', evs')" by simp
    from "2.IH" [OF False r [symmetric] refl run] obtain m new where
      m: "m \<le> length ss" "\<forall>j<m. \<not> stopped (Suc i + j)" "m < length ss \<longrightarrow> stopped (Suc i + m)"
        "evs' = (evs @ ?e) @ new" "map fst (item_logs new) = [Suc (Suc i)..<Suc (Suc i) + m]"
        "t' = fold count (map snd (item_logs new)) (count (classify_download r) t)"
      by blast
    have "\<forall>j<Suc m. \<not> stopped (i + j)"
      using m(2) False by (auto simp: less_Suc_eq_0_disj)
    moreover have "[Suc i..<Suc i + Suc m] = Suc i # [Suc (Suc i)..<Suc (Suc i) + m]"
      by (simp add: upt_rec)
    ultimately show ?thesis using m
      by (intro exI [of _ "Suc m"] exI [of _ "?e @ new"]) simp
  qed
qed

lemmas conv_eval = conv_eval_core convert_worker_def convert_item_def target_filename_def rename_file_def
  tally0_def count_def

lemma download_items_nonpos:
  "sl \<le> 0 \<Longrightarrow> download_items c save q sl skip fmt stopped n i ss t d w evs
     = download_items c save q 0 skip fmt stopped n i ss t d w evs"
  by (induction ss arbitrary: i t d w evs) (simp_all add: download_song_nonpos [of sl] split: prod.splits)

lemma download_worker_nonpos:
  "sl \<le> 0 \<Longrightarrow> download_worker a lid save q sl skip fmt stopped w = download_worker a lid save q 0 skip fmt stopped w"
  unfolding download_worker_def by (simp only: download_items_nonpos [of sl])

lemma py_in_infix: "py_in p s \<Longrightarrow> py_in p (x @ s @ y)"
  by (auto simp: py_in_iff) (metis append.assoc)

lemma py_in_path_join: "py_in p b \<Longrightarrow> py_in p (path_join a b)"
  using py_in_infix [of p b a "[]"] py_in_infix [of p b "a @ [CHR ''/'']" "[]"]
  by (auto simp: path_join_def)

lemma sanitize_keeps: "set m \<inter> set illegal_chars = {} \<Longrightarrow> py_in m s \<Longrightarrow> py_in m (sanitize_filename s)"
proof -
  assume m: "set m \<inter> set illegal_chars = {}" and "py_in m s"
  then obtain x y where "s = x @ m @ y" by (auto simp: py_in_iff)
  moreover have "map (\<lambda>c. if c \<in> set illegal_chars then CHR ''_'' else c) m = m"
    using m by (induction m) auto
  ultimately show ?thesis by (auto simp: sanitize_filename_map intro: py_in_infix py_in_iff [THEN iffD2])
qed


text \<open>C31: the worker counts a result as skipped by searching its message for the skip marker. A successful download of a song whose title contains the marker is therefore counted as skipped, not as downloaded.\<close>

theorem skip_marker_in_title_counts_as_skip:
  assumes "py_in skip_marker (py_str (song_name s))"
    and "fst (fst (download_song c s save q sl skip fmt d w))"
  shows "classify_download (fst (download_song c s save q sl skip fmt d w)) = Skipped"
proof -
  have m: "set skip_marker \<inter> set illegal_chars = {}" by (simp add: skip_marker_def illegal_chars_def)
  let ?n = "py_str (song_name s)" and ?a = "py_str (song_artist s)"
  have "py_in skip_marker (?n @ '' - '' @ ?a @ ''.mp3'')"
    using py_in_infix [OF assms(1), of "[]" "'' - '' @ ?a @ ''.mp3''"] by simp
  moreover have "py_in skip_marker (?a @ '' - '' @ ?n @ ''.mp3'')"
    using py_in_infix [OF assms(1), of "?a @ '' - ''" "''.mp3''"] by simp
  ultimately have "py_in skip_marker (song_filename s fmt)"
    using sanitize_keeps [OF m] by (simp add: song_filename_def)
  moreover have "py_in skip_marker (skip_message fn)" for fn
    unfolding skip_message_def py_in_iff by (rule exI [of _ "[]"]) auto
  ultimately show ?thesis
    using assms(2) download_loop_outcome [of 0 c s "path_join save (song_filename s fmt)" q sl d w]
    by (auto simp: download_song_def Let_def classify_download_def py_in_path_join split: if_splits)
qed

text \<open>C32: when resolution fails, the worker always reports the unknown-error message with the resolver's aggregate text: the \<open>KeyError\<close> and \<open>RequestException\<close> handlers are unreachable.\<close>

theorem download_worker_unresolved:
  assumes "get_playlist_songs (app_config a) lid w = (Inl e, w1)"
  shows "download_worker a lid save q sl skip fmt stopped w
    = (a, w1, [Download_error (unknown_error_prefix @ all_failed_msg), Button_state True False])"
  using assms resolve_loop_Inl [of "app_config a" "playlists (app_config a)" lid w e w1]
  by (simp add: download_worker_def get_playlist_songs_def download_error_message_def)

text \<open>With \<open>skip_existing\<close>, a source whose canonical target exists is skipped before the tool runs. The check uses the derived name, and the world is unchanged.\<close>

theorem convert_item_skip:
  "skip \<Longrightarrow> files w (path_join od (target_filename flip ncm)) \<noteq> None \<Longrightarrow>
   convert_item tp od skip flip ncm w = ((Skipped, target_filename flip ncm), w)"
  by (simp add: convert_item_def)



text \<open>C37: saving a request interval updates the configuration that the transport reads, but not the interval the \<open>SongDownloader\<close> copied at start-up. The location-fetch throttle keeps the old value until restart.\<close>

theorem save_request_interval_not_seen_by_downloader:
  assumes "save_request_interval a v = Inr a'"
  shows "\<exists>i. v = Some i \<and> 0 \<le> i \<and> interval_secs (app_config a') = of_int i / 1000
    \<and> app_dl a' = app_dl a"
  using assms
  by (auto simp: save_request_interval_def interval_secs_def split: option.splits if_splits)

text \<open>C38: with no bundled or local \<open>ncmdump\<close> and \<open>PATH\<close> unset, the converter lookup raises \<open>KeyError\<close>, which the window's \<open>FileNotFoundError\<close> handler does not catch: start-up fails instead of disabling conversion.\<close>

theorem app_init_path_unset:
  assumes "meipass env = None" and "env_path env = None"
    and "files w ncmdump_exe = None"
    and "files w (path_join (path_join (path_join (module_dir env) ''..'') ''app'') ncmdump_exe) = None"
    and "files w (path_join (path_join (path_join (path_join (module_dir env) ''..'') ''.conda'') ''Scripts'') ncmdump_exe) = None"
  shows "app_init c env w = Inl (KeyError (py_repr_str ''PATH''))"
  using assms by (simp add: app_init_def ncm_converter_init_def find_ncmdump_def)


theorem skip_marker_in_title_counts_as_skip_witness:
  "classify_download (fst (download_song example_config marker_song ''/music'' None 0 True 0
     (new_downloader example_config) stored_world)) = Skipped"
  by (rule skip_marker_in_title_counts_as_skip)
     (simp_all add: marker_song_def skip_marker_def starts_with_def download_song_def stored_world_def)

theorem download_worker_unresolved_witness:
  "download_worker example_app ''1'' ''/music'' ''standard'' 0 False 0 (\<lambda>_. False) flaky_world
    = (example_app, flaky_world, [Download_error (unknown_error_prefix @ all_failed_msg), Button_state True False])"
  by (rule download_worker_unresolved) (simp add: get_playlist_songs_def example_app_def example_config_def)

theorem convert_item_skip_witness:
  "convert_item ''ncmdump'' ''/out'' True True ''/in/A - B.ncm'' conv_base = ((Skipped, ''B - A.mp3''), conv_base)"
  using convert_item_skip [of True conv_base "''/out''" True "''/in/A - B.ncm''" "''ncmdump''"]
  by (simp add: conv_eval conv_base_def)

theorem save_request_interval_not_seen_by_downloader_witness:
  "interval_secs (set_request_interval 500 scenario_config) = 1 / 2
   \<and> app_dl (scenario_app\<lparr>app_config := set_request_interval 500 scenario_config\<rparr>) = app_dl scenario_app"
proof -
  have h: "save_request_interval scenario_app (Some 500) =
      Inr (scenario_app\<lparr>app_config := set_request_interval 500 scenario_config\<rparr>)"
    by (simp add: save_request_interval_def scenario_app_def)
  from save_request_interval_not_seen_by_downloader [OF h] show ?thesis by simp
qed

theorem app_init_path_unset_witness:
  "app_init example_config bare_env flaky_world = Inl (KeyError (py_repr_str ''PATH''))"
  by (rule app_init_path_unset) (simp_all add: bare_env_def flaky_world_def)

end
