(* ===== verification/Extract.thy ===== *)
theory Extract
  imports Json "HOL-Library.While_Combinator"
begin

text \<open>
  \<open>APIHandler.extract_data(data, path)\<close> (\<open>src/utils/api.py\<close>): dotted field paths
  with list indices such as \<open>artists[0].name\<close>. No code of the program calls it.
  The path is split on \<open>.\<close>. Each key is parsed into a field or an indexed field
  (\<open>split('[')\<close> and \<open>int()\<close>), then applied to the current value. A
  \<open>KeyError\<close>, \<open>IndexError\<close> or \<open>TypeError\<close> is re-raised as a \<open>KeyError\<close> with
  a diagnostic message; any other exception escapes unchanged. The \<open>for\<close> loop over
  the enumerated keys is a \<open>while_option\<close> over the index and the current result.
  Python's \<open>int()\<close> (base 10) and integer subscription are written out from the
  language reference. Strings are byte lists, so indexing a string is faithful for
  ASCII text.
\<close>

subsection \<open>Python builtins\<close>

definition digit_val :: "char \<Rightarrow> nat" where
  "digit_val c = length (takeWhile (\<lambda>d. d \<noteq> c) ''0123456789'')"

text \<open>The digits of an \<open>int()\<close> literal: digits, with single underscores between
  them.\<close>

fun int_digits_ok :: "string \<Rightarrow> bool" where
  "int_digits_ok [] = False"
| "int_digits_ok [c] = is_digit c"
| "int_digits_ok (c # d # cs) =
     (is_digit c \<and> (if d = CHR ''_'' then cs \<noteq> [] \<and> is_digit (hd cs) \<and> int_digits_ok cs
                     else int_digits_ok (d # cs)))"

definition digits_value :: "string \<Rightarrow> nat" where
  "digits_value s = foldl (\<lambda>n c. 10 * n + digit_val c) 0 (filter (\<lambda>c. c \<noteq> CHR ''_'') s)"

text \<open>\<open>int(s)\<close>: surrounding whitespace, an optional sign, then the digits.\<close>

definition py_int :: "string \<Rightarrow> exn + int" where
  "py_int s =
     (let t = py_strip s;
          (neg, body) = (case t of
                           c # r \<Rightarrow> if c = CHR ''-'' then (True, r)
                                   else if c = CHR ''+'' then (False, r) else (False, t)
                         | [] \<Rightarrow> (False, []))
      in if int_digits_ok body
         then Inr ((if neg then -1 else 1) * int (digits_value body))
         else Inl (ValueError (''invalid literal for int() with base 10: '' @ py_repr_str s)))"

text \<open>\<open>x[i]\<close> for an integer \<open>i\<close>: negative indices count from the end.\<close>

fun py_getitem_int :: "json \<Rightarrow> int \<Rightarrow> exn + json" where
  "py_getitem_int (JArr xs) i =
     (let n = int (length xs) in
      if - n \<le> i \<and> i < n then Inr (xs ! nat (if i < 0 then i + n else i))
      else Inl (IndexError ''list index out of range''))"
| "py_getitem_int (JStr s) i =
     (let n = int (length s) in
      if - n \<le> i \<and> i < n then Inr (JStr [s ! nat (if i < 0 then i + n else i)])
      else Inl (IndexError ''string index out of range''))"
| "py_getitem_int (JObj kvs) i = Inl (KeyError (int_str i))"
| "py_getitem_int x i = Inl (TypeError (quoted (type_name x) @ '' object is not subscriptable''))"

fun exn_name :: "exn \<Rightarrow> string" where
  "exn_name (RequestException _) = ''RequestException''"
| "exn_name (HTTPError _) = ''HTTPError''"
| "exn_name (KeyError _) = ''KeyError''"
| "exn_name (TypeError _) = ''TypeError''"
| "exn_name (ValueError _) = ''ValueError''"
| "exn_name (IndexError _) = ''IndexError''"
| "exn_name (AttributeError _) = ''AttributeError''"
| "exn_name (JSONDecodeError _) = ''JSONDecodeError''"
| "exn_name (OSError _) = ''OSError''"
| "exn_name (FileNotFoundError _) = ''FileNotFoundError''"
| "exn_name (Exception _) = ''Exception''"

subsection \<open>Keys and steps\<close>

datatype step = Field string | Item string int

text \<open>One key: \<open>if '[' in key and ']' in key\<close>, then \<open>list_key, index =
  key.split('[')\<close> (a \<open>ValueError\<close> unless there are exactly two parts) and
  \<open>int(index[:-1])\<close>.\<close>

definition parse_key :: "string \<Rightarrow> exn + step" where
  "parse_key k =
     (if py_in ''['' k \<and> py_in '']'' k then
        (case py_split ''['' k of
           [lk, ix] \<Rightarrow> (case py_int (butlast ix) of Inl e \<Rightarrow> Inl e | Inr i \<Rightarrow> Inr (Item lk i))
         | _ \<Rightarrow> Inl (ValueError ''too many values to unpack (expected 2)''))
      else Inr (Field k))"

text \<open>\<open>result[list_key][index]\<close> or \<open>result[key]\<close>.\<close>

fun access_step :: "json \<Rightarrow> step \<Rightarrow> exn + json" where
  "access_step r (Field k) = py_getitem r k"
| "access_step r (Item k i) = (case py_getitem r k of Inl e \<Rightarrow> Inl e | Inr v \<Rightarrow> py_getitem_int v i)"

fun is_lookup_error :: "exn \<Rightarrow> bool" where
  "is_lookup_error (KeyError _) = True"
| "is_lookup_error (IndexError _) = True"
| "is_lookup_error (TypeError _) = True"
| "is_lookup_error _ = False"

text \<open>The message of the re-raised \<open>KeyError\<close> (UTF-8 bytes of its fixed parts:
  "cannot extract data from path", "current data structure", "full path",
  "error type", "error message"). \<open>str()\<close> of a \<open>KeyError\<close> is the \<open>repr\<close> of
  its argument.\<close>

definition extract_error_msg :: "string \<Rightarrow> json \<Rightarrow> string \<Rightarrow> exn \<Rightarrow> string" where
  "extract_error_msg error_path r path e =
     [CHR 0xE6, CHR 0x97, CHR 0xA0, CHR 0xE6, CHR 0xB3, CHR 0x95, CHR 0xE4, CHR 0xBB, CHR 0x8E,
      CHR 0xE8, CHR 0xB7, CHR 0xAF, CHR 0xE5, CHR 0xBE, CHR 0x84, CHR 0x20, CHR 0x27] @ error_path @
     [CHR 0x27, CHR 0x20, CHR 0xE6, CHR 0x8F, CHR 0x90, CHR 0xE5, CHR 0x8F, CHR 0x96, CHR 0xE6,
      CHR 0x95, CHR 0xB0, CHR 0xE6, CHR 0x8D, CHR 0xAE, CHR 0xE3, CHR 0x80, CHR 0x82, CHR 0x0A,
      CHR 0xE5, CHR 0xBD, CHR 0x93, CHR 0xE5, CHR 0x89, CHR 0x8D, CHR 0xE6, CHR 0x95, CHR 0xB0,
      CHR 0xE6, CHR 0x8D, CHR 0xAE, CHR 0xE7, CHR 0xBB, CHR 0x93, CHR 0xE6, CHR 0x9E, CHR 0x84,
      CHR 0x3A, CHR 0x20] @ py_str r @
     [CHR 0x0A, CHR 0xE5, CHR 0xAE, CHR 0x8C, CHR 0xE6, CHR 0x95, CHR 0xB4, CHR 0xE8, CHR 0xB7,
      CHR 0xAF, CHR 0xE5, CHR 0xBE, CHR 0x84, CHR 0x3A, CHR 0x20] @ path @
     [CHR 0x0A, CHR 0xE9, CHR 0x94, CHR 0x99, CHR 0xE8, CHR 0xAF, CHR 0xAF, CHR 0xE7, CHR 0xB1,
      CHR 0xBB, CHR 0xE5, CHR 0x9E, CHR 0x8B, CHR 0x3A, CHR 0x20] @ exn_name e @
     [CHR 0x0A, CHR 0xE9, CHR 0x94, CHR 0x99, CHR 0xE8, CHR 0xAF, CHR 0xAF, CHR 0xE4, CHR 0xBF,
      CHR 0xA1, CHR 0xE6, CHR 0x81, CHR 0xAF, CHR 0x3A, CHR 0x20] @ exn_str e"

text \<open>The body of the \<open>try\<close> for key number \<open>i\<close> (parsing the key, then the
  subscription), with its \<open>except\<close> clause, which covers both.\<close>

definition extract_key :: "string \<Rightarrow> string list \<Rightarrow> nat \<Rightarrow> json \<Rightarrow> exn + json" where
  "extract_key path keys i r =
     (case (case parse_key (keys ! i) of Inl e \<Rightarrow> Inl e | Inr st \<Rightarrow> access_step r st) of
        Inr v \<Rightarrow> Inr v
      | Inl e \<Rightarrow>
          if is_lookup_error e
          then Inl (KeyError (py_repr_str (extract_error_msg (py_join ''.'' (take (Suc i) keys)) r path e)))
          else Inl e)"

text \<open>\<open>for i, key in enumerate(keys)\<close>: the state is the index and the result so
  far; an exception leaves the loop.\<close>

definition extract_data :: "json \<Rightarrow> string \<Rightarrow> (exn + json) option" where
  "extract_data d path =
     (let keys = py_split ''.'' path in
      map_option snd
        (while_option (\<lambda>(i, r). i < length keys \<and> \<not> isl r)
           (\<lambda>(i, r). (Suc i, case r of Inl e \<Rightarrow> Inl e | Inr v \<Rightarrow> extract_key path keys i v))
           (0, Inr d)))"

subsection \<open>Reference: field paths\<close>

text \<open>What a field path denotes: a field of an object, or an element of the list
  (a character of the string) stored under a field, at a non-negative index.\<close>

fun seq_items :: "json \<Rightarrow> json list option" where
  "seq_items (JArr xs) = Some xs"
| "seq_items (JStr s) = Some (map (\<lambda>c. JStr [c]) s)"
| "seq_items _ = None"

fun get_path :: "json \<Rightarrow> step list \<Rightarrow> json option" where
  "get_path v [] = Some v"
| "get_path v (Field k # ss) =
     (case v of JObj kvs \<Rightarrow> (case obj_lookup kvs k of Some u \<Rightarrow> get_path u ss | None \<Rightarrow> None) | _ \<Rightarrow> None)"
| "get_path v (Item k i # ss) =
     (case v of
        JObj kvs \<Rightarrow>
          (case obj_lookup kvs k of
             Some u \<Rightarrow>
               (case seq_items u of
                  Some xs \<Rightarrow> if 0 \<le> i \<and> i < int (length xs) then get_path (xs ! nat i) ss else None
                | None \<Rightarrow> None)
           | None \<Rightarrow> None)
      | _ \<Rightarrow> None)"

fun render_step :: "step \<Rightarrow> string" where
  "render_step (Field k) = k"
| "render_step (Item k i) = k @ ''['' @ int_str i @ '']''"

definition render_path :: "step list \<Rightarrow> string" where
  "render_path ss = py_join ''.'' (map render_step ss)"

definition plain_key :: "string \<Rightarrow> bool" where
  "plain_key k \<longleftrightarrow> CHR ''.'' \<notin> set k \<and> CHR ''['' \<notin> set k \<and> CHR '']'' \<notin> set k"

fun wf_step :: "step \<Rightarrow> bool" where
  "wf_step (Field k) = plain_key k"
| "wf_step (Item k i) = (plain_key k \<and> 0 \<le> i)"

subsection \<open>Lemmas\<close>

lemma split_acc_char_none: "c \<notin> set x \<Longrightarrow> split_acc [c] acc x = [rev acc @ x]"
  by (induction x arbitrary: acc) (auto simp: starts_with_def)

lemma split_acc_char_sep:
  "c \<notin> set x \<Longrightarrow> split_acc [c] acc (x @ c # r) = (rev acc @ x) # split_acc [c] [] r"
  by (induction x arbitrary: acc) (auto simp: starts_with_def)

lemma py_split_join_char:
  "xs \<noteq> [] \<Longrightarrow> list_all (\<lambda>x. c \<notin> set x) xs \<Longrightarrow> py_split [c] (py_join [c] xs) = xs"
proof (induction xs)
  case Nil
  then show ?case by simp
next
  case (Cons x xs)
  show ?case
  proof (cases "xs = []")
    case True
    with Cons.prems show ?thesis by (simp add: py_split_def split_acc_char_none)
  next
    case False
    with Cons have "py_split [c] (py_join [c] xs) = xs" by simp
    with False Cons.prems show ?thesis
      by (simp add: py_join_Cons py_split_def split_acc_char_sep)
  qed
qed

lemma py_in_char: "py_in [c] s \<longleftrightarrow> c \<in> set s"
  by (induction s) (auto simp: starts_with_def)

lemma is_digit_digit_char: "d < 10 \<Longrightarrow> is_digit (digit_char d)"
  unfolding is_digit_def digit_char_def by (rule nth_mem) simp

lemma nat_str_digits: "nat_str n \<noteq> [] \<and> list_all is_digit (nat_str n)"
proof (induction n rule: nat_str.induct)
  case (1 n)
  then show ?case by (simp add: nat_str.simps [of n] is_digit_digit_char)
qed

lemma digit_val_char: "d < 10 \<Longrightarrow> digit_val (digit_char d) = d"
proof -
  assume "d < 10"
  then have "d \<in> {0, 1, 2, 3, 4, 5, 6, 7, 8, 9}" by auto
  then show ?thesis by (auto simp: digit_val_def digit_char_def)
qed

lemma digits_value_nat_str: "digits_value (nat_str n) = n"
proof (induction n rule: nat_str.induct)
  case (1 n)
  have nu: "CHR ''_'' \<notin> set (nat_str m)" for m
    using nat_str_digits [of m] by (auto simp: list_all_iff is_digit_def)
  have fl: "filter (\<lambda>c. c \<noteq> CHR ''_'') (nat_str m) = nat_str m" for m
    using nu [of m] by (auto simp: filter_id_conv)
  have dv: "digits_value (nat_str m) = foldl (\<lambda>n c. 10 * n + digit_val c) 0 (nat_str m)" for m
    using fl [of m] by (simp add: digits_value_def)
  show ?case
  proof (cases "n < 10")
    case True
    have "foldl (\<lambda>n c. 10 * n + digit_val c) 0 (nat_str n) = n"
      using True by (simp add: nat_str.simps [of n] digit_val_char)
    then show ?thesis by (simp only: dv)
  next
    case False
    with 1 have "foldl (\<lambda>n c. 10 * n + digit_val c) 0 (nat_str (n div 10)) = n div 10"
      by (simp add: dv)
    with False have "foldl (\<lambda>n c. 10 * n + digit_val c) 0 (nat_str n) = n"
      by (simp add: nat_str.simps [of n] digit_val_char)
    then show ?thesis by (simp only: dv)
  qed
qed

lemma int_digits_ok_digits: "s \<noteq> [] \<Longrightarrow> list_all is_digit s \<Longrightarrow> int_digits_ok s"
  by (induction s rule: int_digits_ok.induct) (auto simp: is_digit_def)

lemma py_strip_id:
  assumes "s \<noteq> []" and "\<not> py_whitespace (hd s)" and "\<not> py_whitespace (last s)"
  shows "py_strip s = s"
proof -
  have "dropWhile py_whitespace s = s" using assms(1,2) by (cases s) auto
  moreover have "dropWhile py_whitespace (rev s) = rev s"
    using assms(1,3) by (cases "rev s") (auto simp: hd_rev [symmetric])
  ultimately show ?thesis by (simp add: py_strip_def)
qed

lemma int_str_shape: "int_str i \<noteq> [] \<and> \<not> py_whitespace (hd (int_str i)) \<and> \<not> py_whitespace (last (int_str i))
  \<and> list_all (\<lambda>c. c \<noteq> CHR ''.'' \<and> c \<noteq> CHR ''['' \<and> c \<noteq> CHR '']'') (int_str i)"
proof -
  have d: "nat_str n \<noteq> []" "list_all is_digit (nat_str n)" for n using nat_str_digits by auto
  have nw: "is_digit c \<Longrightarrow> \<not> py_whitespace c" for c by (auto simp: is_digit_def py_whitespace_def)
  have nb: "is_digit c \<Longrightarrow> c \<noteq> CHR ''.'' \<and> c \<noteq> CHR ''['' \<and> c \<noteq> CHR '']''" for c by (auto simp: is_digit_def)
  have "is_digit (hd (nat_str n))" "is_digit (last (nat_str n))" for n
    using d [of n] by (auto simp: list_all_iff)
  with d nw nb show ?thesis
    by (auto simp: int_str_def list_all_iff py_whitespace_def)
qed

lemma py_int_int_str: "py_int (int_str i) = Inr i"
proof -
  have strip: "py_strip (int_str i) = int_str i" using int_str_shape [of i] by (simp add: py_strip_id)
  have d: "nat_str n \<noteq> []" "list_all is_digit (nat_str n)" for n using nat_str_digits by auto
  have ok: "int_digits_ok (nat_str n)" for n using d by (rule int_digits_ok_digits)
  have h: "hd (nat_str n) \<noteq> CHR ''-'' \<and> hd (nat_str n) \<noteq> CHR ''+''" for n
    using d [of n] by (cases "nat_str n") (auto simp: is_digit_def)
  show ?thesis
  proof (cases "i < 0")
    case True
    then show ?thesis using strip ok digits_value_nat_str [of "nat (- i)"]
      by (simp add: py_int_def int_str_def)
  next
    case False
    obtain c r where cr: "nat_str (nat i) = c # r" using d [of "nat i"] by (cases "nat_str (nat i)") auto
    with h [of "nat i"] have "c \<noteq> CHR ''-''" "c \<noteq> CHR ''+''" by auto
    with False strip ok [of "nat i"] digits_value_nat_str [of "nat i"] cr show ?thesis
      by (simp add: py_int_def int_str_def)
  qed
qed

lemma parse_render: "wf_step s \<Longrightarrow> parse_key (render_step s) = Inr s"
proof (cases s)
  case (Field k)
  moreover assume "wf_step s"
  ultimately show ?thesis by (simp add: parse_key_def py_in_char plain_key_def)
next
  case (Item k i)
  assume "wf_step s"
  with Item have k: "CHR ''['' \<notin> set k" "CHR '']'' \<notin> set k" by (auto simp: plain_key_def)
  have ib: "CHR ''['' \<notin> set (int_str i)" using int_str_shape [of i] by (auto simp: list_all_iff)
  have "py_split ''['' (k @ ''['' @ int_str i @ '']'') = [k, int_str i @ '']'']"
    using k ib by (simp add: py_split_def split_acc_char_sep split_acc_char_none)
  with Item show ?thesis by (simp add: parse_key_def py_in_char py_int_int_str)
qed

lemma render_no_dot: "wf_step s \<Longrightarrow> CHR ''.'' \<notin> set (render_step s)"
  using int_str_shape by (cases s) (auto simp: plain_key_def list_all_iff)

lemma split_render: "ss \<noteq> [] \<Longrightarrow> list_all wf_step ss \<Longrightarrow> py_split ''.'' (render_path ss) = map render_step ss"
  unfolding render_path_def
  by (rule py_split_join_char) (auto simp: list_all_iff render_no_dot)

text \<open>The key parser of \<open>extract_data\<close> inverts the path syntax: a non-empty path of plain keys, each a field or an indexed field, printed with \<open>.\<close> and \<open>k[i]\<close> and split again on \<open>.\<close>, parses back key by key to the same steps.\<close>

theorem path_roundtrip:
  "ss \<noteq> [] \<Longrightarrow> list_all wf_step ss \<Longrightarrow> map parse_key (py_split ''.'' (render_path ss)) = map Inr ss"
  by (simp add: split_render list_all_iff parse_render)


lemma access_step_spec:
  "wf_step s \<Longrightarrow>
   (case access_step v s of
      Inr u \<Rightarrow> get_path v (s # rest) = get_path u rest
    | Inl e \<Rightarrow> is_lookup_error e \<and> get_path v (s # rest) = None)"
proof (cases s)
  case (Field k)
  then show ?thesis by (cases v) (auto split: option.splits)
next
  case (Item k i)
  assume "wf_step s"
  with Item have i: "0 \<le> i" by simp
  show ?thesis
  proof (cases v)
    case (JObj kvs)
    show ?thesis
    proof (cases "obj_lookup kvs k")
      case None
      with JObj Item show ?thesis by simp
    next
      case (Some u)
      with JObj Item i show ?thesis
        by (cases u) (auto simp: Let_def nat_less_iff)
    qed
  qed (use Item in auto)
qed

lemma extract_run:
  assumes wf: "list_all wf_step ss" and keys: "keys = map render_step ss"
  shows "j \<le> length ss \<Longrightarrow>
    (case get_path v (drop j ss) of
       Some u \<Rightarrow> while_option (\<lambda>(i, r). i < length keys \<and> \<not> isl r)
                   (\<lambda>(i, r). (Suc i, case r of Inl e \<Rightarrow> Inl e | Inr v \<Rightarrow> extract_key path keys i v)) (j, Inr v)
                 = Some (length ss, Inr u)
     | None \<Rightarrow> \<exists>k m. while_option (\<lambda>(i, r). i < length keys \<and> \<not> isl r)
                   (\<lambda>(i, r). (Suc i, case r of Inl e \<Rightarrow> Inl e | Inr v \<Rightarrow> extract_key path keys i v)) (j, Inr v)
                 = Some (k, Inl (KeyError m)))"
proof (induction "length ss - j" arbitrary: j v)
  case 0
  then have "j = length ss" by simp
  with keys show ?case by (subst while_option_unfold) simp
next
  case (Suc n)
  let ?b = "\<lambda>(i, r). i < length keys \<and> \<not> isl r"
  let ?c = "\<lambda>(i, r). (Suc i, case r of Inl e \<Rightarrow> Inl e | Inr v \<Rightarrow> extract_key path keys i v)"
  from Suc.hyps(2) have j: "j < length ss" by simp
  then have dr: "drop j ss = ss ! j # drop (Suc j) ss" by (simp add: Cons_nth_drop_Suc)
  from wf j have ws: "wf_step (ss ! j)" by (simp add: list_all_length)
  have pk: "parse_key (keys ! j) = Inr (ss ! j)" using keys j parse_render [OF ws] by simp
  have unf: "while_option ?b ?c (j, Inr v) = while_option ?b ?c (Suc j, extract_key path keys j v)"
    using keys j by (simp add: while_option_unfold [of _ _ "(j, Inr v)"])
  show ?case
  proof (cases "access_step v (ss ! j)")
    case (Inr u)
    with access_step_spec [OF ws, of v "drop (Suc j) ss"]
    have gp: "get_path v (drop j ss) = get_path u (drop (Suc j) ss)" by (simp add: dr)
    have ek: "extract_key path keys j v = Inr u" using pk Inr by (simp add: extract_key_def)
    have "n = length ss - Suc j" using Suc.hyps(2) by simp
    note IH = Suc.hyps(1) [OF this, of u]
    from IH j show ?thesis by (simp only: gp unf ek)
  next
    case (Inl e)
    with access_step_spec [OF ws, of v "drop (Suc j) ss"]
    have le: "is_lookup_error e" and gp: "get_path v (drop j ss) = None" by (simp_all add: dr)
    have ek: "\<exists>m. extract_key path keys j v = Inl (KeyError m)" using pk Inl le by (simp add: extract_key_def)
    then obtain m where "extract_key path keys j v = Inl (KeyError m)" by blast
    then show ?thesis by (simp add: gp unf while_option_unfold [of _ _ "(Suc j, Inl (KeyError m))"])
  qed
qed

text \<open>C7: \<open>extract_data\<close> implements field paths. For a non-empty path of plain keys with non-negative indices, it returns the value the reference semantics \<open>get_path\<close> gives, and when that is undefined it raises a \<open>KeyError\<close>, whichever lookup failed.\<close>

theorem extract_data_refines:
  assumes "ss \<noteq> []" and "list_all wf_step ss"
  shows "(case get_path d ss of
            Some v \<Rightarrow> extract_data d (render_path ss) = Some (Inr v)
          | None \<Rightarrow> \<exists>m. extract_data d (render_path ss) = Some (Inl (KeyError m)))"
  using extract_run [OF assms(2) refl, where j = 0 and v = d and path = "render_path ss"] split_render [OF assms]
  by (auto simp: extract_data_def split: option.splits)

text \<open>C39: a key with a malformed index (\<open>a[x]\<close>, \<open>a[1][2]\<close>) raises \<open>ValueError\<close>, which the \<open>except (KeyError, IndexError, TypeError)\<close> clause does not catch. The error handling the method promises does not apply to it.\<close>

theorem extract_data_bad_index:
  assumes "CHR ''.'' \<notin> set k" and "parse_key k = Inl e"
  shows "extract_data d k = Some (Inl e) \<and> (\<exists>m. e = ValueError m)"
proof -
  have "py_split ''.'' k = [k]" using assms(1) by (simp add: py_split_def split_acc_char_none)
  moreover obtain m where m: "e = ValueError m" using assms(2)
    by (auto simp: parse_key_def py_int_def Let_def split: if_splits list.splits sum.splits prod.splits)
  ultimately show ?thesis using assms(2) m
    by (simp add: extract_data_def extract_key_def while_option_unfold [of _ _ "(0, Inr d)"]
        while_option_unfold [of _ _ "(Suc 0, Inl (ValueError m))"])
qed

text \<open>A negative index counts from the end of the list, which the path syntax does
  not document.\<close>

lemma extract_data_negative_index:
  "extract_data (JObj [(''a'', JArr [JInt 1, JInt 2])]) ''a[-1]'' = Some (Inr (JInt 2))"
  by (simp add: extract_data_def extract_key_def parse_key_def py_split_def starts_with_def py_int_def
      py_strip_def py_whitespace_def digits_value_def digit_val_def is_digit_def obj_lookup_def
      while_option_unfold [of _ _ "(0, Inr _)"] while_option_unfold [of _ _ "(Suc 0, Inr _)"])

subsection \<open>Witnesses\<close>

theorem path_roundtrip_witness:
  "map parse_key (py_split ''.'' (render_path [Item ''artists'' 0, Field ''name'']))
     = [Inr (Item ''artists'' 0), Inr (Field ''name'')]"
  using path_roundtrip [of "[Item ''artists'' 0, Field ''name'']"] by (simp add: plain_key_def)

theorem extract_data_refines_witness:
  "extract_data (JObj [(''artists'', JArr [JObj [(''name'', JStr ''A'')]])])
     (render_path [Item ''artists'' 0, Field ''name'']) = Some (Inr (JStr ''A''))"
  using extract_data_refines [of "[Item ''artists'' 0, Field ''name'']"
      "JObj [(''artists'', JArr [JObj [(''name'', JStr ''A'')]])]"]
  by (simp add: plain_key_def obj_lookup_def)

theorem extract_data_bad_index_witness:
  "extract_data (JObj []) ''a[x]''
     = Some (Inl (ValueError (''invalid literal for int() with base 10: '' @ py_repr_str ''x'')))"
proof -
  have "parse_key ''a[x]'' = Inl (ValueError (''invalid literal for int() with base 10: '' @ py_repr_str ''x''))"
    by (simp add: parse_key_def py_split_def starts_with_def py_int_def py_strip_def py_whitespace_def
        is_digit_def)
  with extract_data_bad_index [of "''a[x]''"] show ?thesis by simp
qed

end
