(* ===== verification/Background.thy ===== *)
theory Background
  imports Orchestrator
begin

text \<open>
  The two background threads of \<open>MainWindow\<close> that are not workers of a task
  (\<open>src/utils/ui.py\<close>): \<open>test_api\<close>, started by \<open>test_api_feasibility\<close>, which
  resolves a fixed public playlist and reports through \<open>api_test_signal\<close>, and
  \<open>fetch_version\<close>, started by \<open>get_latest_version\<close>, which reads the latest
  version string and reports through \<open>version_signal\<close>; and the choice of
  notification in \<open>api_test_result_slot\<close>. Log lines are not recorded.
\<close>

text \<open>The texts of the three outcomes (UTF-8 bytes of "API test succeeded", "API
  service normal, downloading can be used", "API test warning", "API service may be
  abnormal, the song list is empty. You can test again", "API test failed", "API
  service abnormal, downloading cannot be used: ", ". You can test again").\<close>

definition api_ok_title :: string where
  "api_ok_title = ''API'' @ [CHR 0xE6, CHR 0xB5, CHR 0x8B, CHR 0xE8, CHR 0xAF, CHR 0x95, CHR 0xE6, CHR 0x88,
     CHR 0x90, CHR 0xE5, CHR 0x8A, CHR 0x9F]"

definition api_ok_content :: string where
  "api_ok_content = ''API'' @ [CHR 0xE6, CHR 0x9C, CHR 0x8D, CHR 0xE5, CHR 0x8A, CHR 0xA1, CHR 0xE6, CHR 0xAD,
     CHR 0xA3, CHR 0xE5, CHR 0xB8, CHR 0xB8, CHR 0xEF, CHR 0xBC, CHR 0x8C, CHR 0xE5, CHR 0x8F, CHR 0xAF, CHR 0xE4,
     CHR 0xBB, CHR 0xA5, CHR 0xE4, CHR 0xBD, CHR 0xBF, CHR 0xE7, CHR 0x94, CHR 0xA8, CHR 0xE4, CHR 0xB8, CHR 0x8B,
     CHR 0xE8, CHR 0xBD, CHR 0xBD, CHR 0xE5, CHR 0x8A, CHR 0x9F, CHR 0xE8, CHR 0x83, CHR 0xBD]"

definition api_warn_title :: string where
  "api_warn_title = ''API'' @ [CHR 0xE6, CHR 0xB5, CHR 0x8B, CHR 0xE8, CHR 0xAF, CHR 0x95, CHR 0xE8, CHR 0xAD,
     CHR 0xA6, CHR 0xE5, CHR 0x91, CHR 0x8A]"

definition retry_hint :: string where
  "retry_hint = [CHR 0xE3, CHR 0x80, CHR 0x82, CHR 0xE5, CHR 0x8F, CHR 0xAF, CHR 0xE6, CHR 0x89, CHR 0x8B, CHR 0xE5,
     CHR 0x8A, CHR 0xA8, CHR 0xE5, CHR 0x86, CHR 0x8D, CHR 0xE6, CHR 0xAC, CHR 0xA1, CHR 0xE6, CHR 0xA3, CHR 0x80,
     CHR 0xE6, CHR 0xB5, CHR 0x8B]"

definition api_warn_content :: string where
  "api_warn_content = ''API'' @ [CHR 0xE6, CHR 0x9C, CHR 0x8D, CHR 0xE5, CHR 0x8A, CHR 0xA1, CHR 0xE5, CHR 0x8F,
     CHR 0xAF, CHR 0xE8, CHR 0x83, CHR 0xBD, CHR 0xE5, CHR 0xBC, CHR 0x82, CHR 0xE5, CHR 0xB8, CHR 0xB8, CHR 0xEF,
     CHR 0xBC, CHR 0x8C, CHR 0xE8, CHR 0x8E, CHR 0xB7, CHR 0xE5, CHR 0x8F, CHR 0x96, CHR 0xE6, CHR 0xAD, CHR 0x8C,
     CHR 0xE6, CHR 0x9B, CHR 0xB2, CHR 0xE5, CHR 0x88, CHR 0x97, CHR 0xE8, CHR 0xA1, CHR 0xA8, CHR 0xE4, CHR 0xB8,
     CHR 0xBA, CHR 0xE7, CHR 0xA9, CHR 0xBA] @ retry_hint"

definition api_fail_title :: string where
  "api_fail_title = ''API'' @ [CHR 0xE6, CHR 0xB5, CHR 0x8B, CHR 0xE8, CHR 0xAF, CHR 0x95, CHR 0xE5, CHR 0xA4,
     CHR 0xB1, CHR 0xE8, CHR 0xB4, CHR 0xA5]"

definition api_fail_content :: "exn \<Rightarrow> string" where
  "api_fail_content e = ''API'' @ [CHR 0xE6, CHR 0x9C, CHR 0x8D, CHR 0xE5, CHR 0x8A, CHR 0xA1, CHR 0xE5, CHR 0xBC,
     CHR 0x82, CHR 0xE5, CHR 0xB8, CHR 0xB8, CHR 0xEF, CHR 0xBC, CHR 0x8C, CHR 0xE6, CHR 0x97, CHR 0xA0, CHR 0xE6,
     CHR 0xB3, CHR 0x95, CHR 0xE4, CHR 0xBD, CHR 0xBF, CHR 0xE7, CHR 0x94, CHR 0xA8, CHR 0xE4, CHR 0xB8, CHR 0x8B,
     CHR 0xE8, CHR 0xBD, CHR 0xBD, CHR 0xE5, CHR 0x8A, CHR 0x9F, CHR 0xE8, CHR 0x83, CHR 0xBD] @ '': '' @
     exn_str e @ retry_hint"

definition test_playlist_id :: string where
  "test_playlist_id = ''3778678''"

text \<open>\<open>test_api\<close>: resolve the test playlist through the shared \<open>APIHandler\<close>; a
  non-empty list is a success (type 0), an empty one a warning (type 1), an
  exception an error (type 2) carrying \<open>str(e)\<close>.\<close>

definition api_test_worker :: "app \<Rightarrow> world \<Rightarrow> world \<times> ui_event list" where
  "api_test_worker a w =
     (case get_playlist_songs (app_config a) test_playlist_id w of
        (Inr songs, w') \<Rightarrow>
          if songs \<noteq> [] then (w', [Api_test api_ok_title api_ok_content 0])
          else (w', [Api_test api_warn_title api_warn_content 1])
      | (Inl e, w') \<Rightarrow> (w', [Api_test api_fail_title (api_fail_content e) 2]))"

text \<open>\<open>api_test_result_slot(title, content, type)\<close>: the kind of \<open>InfoBar\<close>.\<close>

definition api_test_notice :: "int \<Rightarrow> notice" where
  "api_test_notice k = (if k = 0 then Notice_success else if k = 1 then Notice_warning else Notice_error)"

text \<open>\<open>fetch_version\<close>: \<open>requests.get\<close> of the version URL, \<open>raise_for_status\<close>,
  and the stripped body; any exception gives the text "fetch failed" (UTF-8
  bytes).\<close>

definition version_url :: string where
  "version_url = ''https://ncm.dgtsr.top/version/''"

definition version_failed :: string where
  "version_failed = [CHR 0xE8, CHR 0x8E, CHR 0xB7, CHR 0xE5, CHR 0x8F, CHR 0x96, CHR 0xE5, CHR 0xA4, CHR 0xB1,
     CHR 0xE8, CHR 0xB4, CHR 0xA5]"

definition fetch_version :: "world \<Rightarrow> world \<times> ui_event list" where
  "fetch_version w =
     (case checked_get version_url w of
        (Inr r, w') \<Rightarrow> (w', [Version (py_strip (body_text r))])
      | (Inl e, w') \<Rightarrow> (w', [Version version_failed]))"

subsection \<open>Lemmas\<close>

text \<open>C29: the warning branch of \<open>test_api\<close> is dead. \<open>get_playlist_songs\<close> never
  returns an empty list, so the test reports either success or an error whose text
  is the aggregate all-providers-failed message.\<close>

theorem api_test_never_warns:
  "snd (api_test_worker a w) = [Api_test api_ok_title api_ok_content 0]
   \<or> snd (api_test_worker a w) = [Api_test api_fail_title (api_fail_content (Exception all_failed_msg)) 2]"
proof (cases "get_playlist_songs (app_config a) test_playlist_id w")
  case (Pair r w')
  then show ?thesis
  proof (cases r)
    case (Inl e)
    with Pair have "e = Exception all_failed_msg" by (simp add: get_playlist_songs_error)
    with Pair Inl show ?thesis by (simp add: api_test_worker_def)
  next
    case (Inr songs)
    with Pair have "songs \<noteq> []" by (blast dest: get_playlist_songs_nonempty)
    with Pair Inr show ?thesis by (simp add: api_test_worker_def)
  qed
qed

lemma api_test_worker_events:
  "api_test_worker a w = (w', evs) \<Longrightarrow> \<exists>t c k. evs = [Api_test t c k]"
  by (auto simp: api_test_worker_def split: prod.splits sum.splits if_splits)

lemma fetch_version_events:
  "fetch_version w = (w', evs) \<Longrightarrow> \<exists>v. evs = [Version v]"
  by (auto simp: fetch_version_def split: prod.splits sum.splits)

end
