(* ===== verification/Form.thy ===== *)
theory Form
  imports Orchestrator Extract
begin

text \<open>
  The input widgets of the two pages (\<open>src/utils/ui.py\<close>) and the handlers that
  read them. \<open>PlaylistPage.__init__\<close> and \<open>NcmConvertPage.__init__\<close> give the
  initial contents. The user edits the fields, picks combo-box items and uses the
  three folder dialogs (\<open>browse_save_path\<close>, \<open>browse_ncm_input\<close>,
  \<open>browse_ncm_output\<close>). \<open>start_download\<close>, \<open>start_ncm_convert\<close> and
  \<open>save_request_interval\<close> read the fields when their button is clicked.

  The combo boxes are the widget library's \<open>ComboBox\<close>. Its behaviour is written
  out here: \<open>addItems\<close> selects the first item added to an empty box;
  \<open>setCurrentText\<close> selects the first item with that text and does nothing when
  there is none; \<open>setCurrentIndex\<close> ignores an index out of range;
  \<open>currentText()\<close> is the empty string when nothing is selected.
\<close>

type_synonym dl_args = "string \<times> path \<times> string \<times> int \<times> bool \<times> int"
type_synonym cv_args = "path \<times> path \<times> bool \<times> bool"

record combo =
  combo_items :: "string list"
  combo_index :: int

definition empty_combo :: combo where
  "empty_combo = \<lparr>combo_items = [], combo_index = -1\<rparr>"

definition combo_current_text :: "combo \<Rightarrow> string" where
  "combo_current_text c =
     (if 0 \<le> combo_index c \<and> nat (combo_index c) < length (combo_items c)
      then combo_items c ! nat (combo_index c) else [])"

definition combo_add_items :: "string list \<Rightarrow> combo \<Rightarrow> combo" where
  "combo_add_items xs c =
     \<lparr>combo_items = combo_items c @ xs,
      combo_index = (if combo_items c = [] \<and> xs \<noteq> [] then 0 else combo_index c)\<rparr>"

definition combo_set_current_index :: "int \<Rightarrow> combo \<Rightarrow> combo" where
  "combo_set_current_index i c =
     (if 0 \<le> i \<and> nat i < length (combo_items c) then c\<lparr>combo_index := i\<rparr> else c)"

definition combo_set_current_text :: "string \<Rightarrow> combo \<Rightarrow> combo" where
  "combo_set_current_text t c =
     (if t = combo_current_text c then c
      else if t \<in> set (combo_items c)
      then combo_set_current_index (int (length (takeWhile (\<lambda>x. x \<noteq> t) (combo_items c)))) c
      else c)"

text \<open>\<open>APIHandler.get_quality_options\<close> and \<open>get_default_quality\<close>.\<close>

definition get_quality_options :: "config \<Rightarrow> string list" where
  "get_quality_options c = quality_options (song_download c)"

definition get_default_quality :: "config \<Rightarrow> string" where
  "get_default_quality c = default_quality (song_download c)"

text \<open>The widgets of \<open>PlaylistPage\<close> that the handlers read, by their attribute
  names, and those of \<open>NcmConvertPage\<close>.\<close>

record playlist_form =
  list_id_entry :: string
  quality_combobox :: combo
  speed_entry :: string
  interval_entry :: string
  save_path_entry :: path
  skip_existing_checkbox :: bool
  filename_format_combobox :: combo

record ncm_form =
  ncm_input_entry :: path
  ncm_output_entry :: path
  ncm_skip_existing_checkbox :: bool
  ncm_flip_filename_checkbox :: bool

record form =
  playlist_page :: playlist_form
  ncm_page :: ncm_form

text \<open>The two file-name formats, "title - artist" and "artist - title" (their
  UTF-8 labels are not needed: only the index is read).\<close>

definition format_items :: "string list" where
  "format_items = [''0'', ''1'']"

definition playlist_page_init :: "config \<Rightarrow> playlist_form" where
  "playlist_page_init c =
     \<lparr>list_id_entry = [],
      quality_combobox = combo_set_current_text (get_default_quality c)
                           (combo_add_items (get_quality_options c) empty_combo),
      speed_entry = ''2048'',
      interval_entry = int_str (get_request_interval c),
      save_path_entry = ''./downloads'',
      skip_existing_checkbox = True,
      filename_format_combobox = combo_set_current_index 0 (combo_add_items format_items empty_combo)\<rparr>"

definition ncm_page_init :: ncm_form where
  "ncm_page_init =
     \<lparr>ncm_input_entry = ''./'', ncm_output_entry = ''./trans'',
      ncm_skip_existing_checkbox = True, ncm_flip_filename_checkbox = False\<rparr>"

definition form_init :: "config \<Rightarrow> form" where
  "form_init c = \<lparr>playlist_page = playlist_page_init c, ncm_page = ncm_page_init\<rparr>"

text \<open>The folder dialogs: \<open>getExistingDirectory\<close> returns the chosen folder, or the
  empty string when the dialog is cancelled, and the field is set only when the
  result is non-empty.\<close>

definition browse_save_path :: "path \<Rightarrow> playlist_form \<Rightarrow> playlist_form" where
  "browse_save_path p f = (if p \<noteq> [] then f\<lparr>save_path_entry := p\<rparr> else f)"

definition browse_ncm_input :: "path \<Rightarrow> ncm_form \<Rightarrow> ncm_form" where
  "browse_ncm_input p f = (if p \<noteq> [] then f\<lparr>ncm_input_entry := p\<rparr> else f)"

definition browse_ncm_output :: "path \<Rightarrow> ncm_form \<Rightarrow> ncm_form" where
  "browse_ncm_output p f = (if p \<noteq> [] then f\<lparr>ncm_output_entry := p\<rparr> else f)"

text \<open>What the user can do to the pages: type into a line edit, pick a combo-box
  item by its index, tick a check box, or use a folder dialog (with its result).\<close>

datatype form_action =
    Type_list_id string | Type_speed string | Type_interval string | Type_save_path path
  | Pick_quality int | Pick_filename_format int | Tick_skip_existing bool
  | Type_ncm_input path | Type_ncm_output path | Tick_ncm_skip_existing bool | Tick_ncm_flip bool
  | Browse_save_path path | Browse_ncm_input path | Browse_ncm_output path

definition on_playlist :: "(playlist_form \<Rightarrow> playlist_form) \<Rightarrow> form \<Rightarrow> form" where
  "on_playlist g f = f\<lparr>playlist_page := g (playlist_page f)\<rparr>"

definition on_ncm :: "(ncm_form \<Rightarrow> ncm_form) \<Rightarrow> form \<Rightarrow> form" where
  "on_ncm g f = f\<lparr>ncm_page := g (ncm_page f)\<rparr>"

fun apply_action :: "form_action \<Rightarrow> form \<Rightarrow> form" where
  "apply_action (Type_list_id t) = on_playlist (\<lambda>p. p\<lparr>list_id_entry := t\<rparr>)"
| "apply_action (Type_speed t) = on_playlist (\<lambda>p. p\<lparr>speed_entry := t\<rparr>)"
| "apply_action (Type_interval t) = on_playlist (\<lambda>p. p\<lparr>interval_entry := t\<rparr>)"
| "apply_action (Type_save_path t) = on_playlist (\<lambda>p. p\<lparr>save_path_entry := t\<rparr>)"
| "apply_action (Pick_quality i) =
     on_playlist (\<lambda>p. p\<lparr>quality_combobox := combo_set_current_index i (quality_combobox p)\<rparr>)"
| "apply_action (Pick_filename_format i) =
     on_playlist (\<lambda>p. p\<lparr>filename_format_combobox := combo_set_current_index i (filename_format_combobox p)\<rparr>)"
| "apply_action (Tick_skip_existing b) = on_playlist (\<lambda>p. p\<lparr>skip_existing_checkbox := b\<rparr>)"
| "apply_action (Type_ncm_input t) = on_ncm (\<lambda>p. p\<lparr>ncm_input_entry := t\<rparr>)"
| "apply_action (Type_ncm_output t) = on_ncm (\<lambda>p. p\<lparr>ncm_output_entry := t\<rparr>)"
| "apply_action (Tick_ncm_skip_existing b) = on_ncm (\<lambda>p. p\<lparr>ncm_skip_existing_checkbox := b\<rparr>)"
| "apply_action (Tick_ncm_flip b) = on_ncm (\<lambda>p. p\<lparr>ncm_flip_filename_checkbox := b\<rparr>)"
| "apply_action (Browse_save_path d) = on_playlist (browse_save_path d)"
| "apply_action (Browse_ncm_input d) = on_ncm (browse_ncm_input d)"
| "apply_action (Browse_ncm_output d) = on_ncm (browse_ncm_output d)"

text \<open>The handlers with their field reads. \<open>int(text)\<close> of a line edit is
  \<open>py_int\<close>, and its \<open>ValueError\<close> is the \<open>None\<close> the handlers of
  \<open>Orchestrator\<close> take.\<close>

definition int_entry :: "string \<Rightarrow> int option" where
  "int_entry t = (case py_int t of Inr i \<Rightarrow> Some i | Inl _ \<Rightarrow> None)"

definition download_click :: "app \<Rightarrow> playlist_form \<Rightarrow> ui_error + app \<times> dl_args" where
  "download_click a f =
     (case start_download a (list_id_entry f) (int_entry (speed_entry f)) of
        Inl e \<Rightarrow> Inl e
      | Inr (a', lid, sl) \<Rightarrow>
          Inr (a', (lid, save_path_entry f, combo_current_text (quality_combobox f), sl,
                    skip_existing_checkbox f, combo_index (filename_format_combobox f))))"

definition convert_click :: "app \<Rightarrow> ncm_form \<Rightarrow> bool \<Rightarrow> ui_error + app \<times> cv_args" where
  "convert_click a f input_exists =
     (case start_ncm_convert a input_exists of
        Inl e \<Rightarrow> Inl e
      | Inr a' \<Rightarrow> Inr (a', (ncm_input_entry f, ncm_output_entry f,
                            ncm_skip_existing_checkbox f, ncm_flip_filename_checkbox f)))"

definition interval_click :: "app \<Rightarrow> playlist_form \<Rightarrow> ui_error + app" where
  "interval_click a f = save_request_interval a (int_entry (interval_entry f))"

text \<open>The quality the page selects at start-up: the configured default when it is
  one of the options, otherwise the first option (and nothing when there is none).\<close>

definition initial_quality :: "config \<Rightarrow> string" where
  "initial_quality c =
     (if get_default_quality c \<in> set (get_quality_options c) then get_default_quality c
      else (case get_quality_options c of [] \<Rightarrow> [] | x # _ \<Rightarrow> x))"

subsection \<open>Lemmas\<close>

lemma combo_add_items_empty:
  "combo_add_items xs empty_combo = \<lparr>combo_items = xs, combo_index = (if xs = [] then -1 else 0)\<rparr>"
  by (simp add: combo_add_items_def empty_combo_def)

lemma takeWhile_first:
  "t \<in> set xs \<Longrightarrow> length (takeWhile (\<lambda>x. x \<noteq> t) xs) < length xs \<and> xs ! length (takeWhile (\<lambda>x. x \<noteq> t) xs) = t"
  by (induction xs) auto

lemma combo_text_first_match:
  assumes "t \<in> set xs"
  shows "combo_current_text (combo_set_current_index (int (length (takeWhile (\<lambda>x. x \<noteq> t) xs)))
           \<lparr>combo_items = xs, combo_index = i\<rparr>) = t"
  using takeWhile_first [OF assms] by (simp add: combo_set_current_index_def combo_current_text_def)

lemma initial_quality_text:
  "combo_current_text (quality_combobox (playlist_page_init c)) = initial_quality c"
proof (cases "get_quality_options c = []")
  case True
  then show ?thesis
    by (simp add: playlist_page_init_def initial_quality_def combo_add_items_empty
        combo_set_current_text_def combo_current_text_def)
next
  case False
  let ?o = "get_quality_options c" and ?t = "get_default_quality c"
  have b: "combo_current_text \<lparr>combo_items = ?o, combo_index = 0\<rparr> = hd ?o"
    using False by (simp add: combo_current_text_def hd_conv_nth)
  have q: "initial_quality c = (if ?t \<in> set ?o then ?t else hd ?o)"
    using False by (simp add: initial_quality_def split: list.split)
  show ?thesis
    using False combo_text_first_match [of ?t ?o 0]
    by (simp add: playlist_page_init_def q combo_add_items_empty b combo_set_current_text_def)
qed

lemma initial_format_index: "combo_index (filename_format_combobox (playlist_page_init c)) = 0"
  by (simp add: playlist_page_init_def format_items_def combo_add_items_empty combo_set_current_index_def)

lemma int_entry_int_str [simp]: "int_entry (int_str i) = Some i"
  by (simp add: int_entry_def py_int_int_str)

lemma start_download_app: "start_download a t s = Inr (a', lid, sl) \<Longrightarrow> a' = a\<lparr>stop_download := False\<rparr>"
  by (auto simp: start_download_def Let_def split: option.splits if_splits)

lemma start_ncm_convert_app:
  "start_ncm_convert a ex = Inr a' \<Longrightarrow> a' = a\<lparr>stop_convert := False\<rparr> \<and> app_converter a \<noteq> None"
  by (auto simp: start_ncm_convert_def split: if_splits)

lemma save_request_interval_app:
  "save_request_interval a v = Inr a' \<Longrightarrow> app_converter a' = app_converter a"
  by (auto simp: save_request_interval_def split: option.splits if_splits)

lemma download_click_app:
  "download_click a f = Inr (a', args) \<Longrightarrow> a' = a\<lparr>stop_download := False\<rparr>"
  by (auto simp: download_click_def dest: start_download_app split: sum.splits prod.splits)

lemma convert_click_app:
  "convert_click a f ex = Inr (a', args) \<Longrightarrow> a' = a\<lparr>stop_convert := False\<rparr> \<and> app_converter a \<noteq> None"
  by (auto simp: convert_click_def dest: start_ncm_convert_app split: sum.splits)

lemma interval_click_app:
  "interval_click a f = Inr a' \<Longrightarrow> app_converter a' = app_converter a"
  by (simp add: interval_click_def save_request_interval_app)

lemma interval_click_initial:
  "interval_click a (playlist_page (form_init (app_config a))) =
     (if get_request_interval (app_config a) < 0
      then Inl (Bad_interval ''request interval must not be negative'')
      else Inr (a\<lparr>app_config := set_request_interval (get_request_interval (app_config a)) (app_config a)\<rparr>))"
  by (simp add: interval_click_def form_init_def playlist_page_init_def save_request_interval_def)

lemma convert_from_initial_form:
  "convert_click a (ncm_page (form_init c)) ex =
     (case start_ncm_convert a ex of Inl e \<Rightarrow> Inl e | Inr a' \<Rightarrow> Inr (a', (''./'', ''./trans'', True, False)))"
  by (simp add: convert_click_def form_init_def ncm_page_init_def split: sum.split)

text \<open>C28: a download started from the page as \<open>PlaylistPage.__init__\<close> sets it
  up, after only typing the playlist id, runs with the speed limit 2048 KiB/s, the
  folder \<open>./downloads\<close>, existing files skipped, the "title - artist" format, and
  the configured default quality when it is one of the quality options, else the
  first option; an id that is blank once stripped is refused.\<close>

theorem download_from_initial_form:
  "download_click a (playlist_page (apply_action (Type_list_id t) (form_init (app_config a)))) =
     (if py_strip t = [] then Inl Missing_list_id
      else Inr (a\<lparr>stop_download := False\<rparr>,
                (py_strip t, ''./downloads'', initial_quality (app_config a), 2048, True, 0)))"
proof -
  have "int_entry ''2048'' = Some 2048"
    using int_entry_int_str [of 2048] by (simp add: int_str_def nat_str.simps digit_char_def)
  then show ?thesis
    using initial_quality_text [of "app_config a"] initial_format_index [of "app_config a"]
    by (simp add: download_click_def start_download_def Let_def form_init_def on_playlist_def)
       (simp add: playlist_page_init_def)
qed


subsection \<open>Witnesses\<close>

definition negative_speed_form :: playlist_form where
  "negative_speed_form =
     \<lparr>list_id_entry = ''1'', quality_combobox = \<lparr>combo_items = [''standard''], combo_index = 0\<rparr>,
      speed_entry = ''-5'', interval_entry = ''1000'', save_path_entry = ''/music'',
      skip_existing_checkbox = False, filename_format_combobox = \<lparr>combo_items = format_items, combo_index = 0\<rparr>\<rparr>"

lemma negative_speed_click:
  "download_click example_app negative_speed_form
     = Inr (example_app\<lparr>stop_download := False\<rparr>, (''1'', ''/music'', ''standard'', -5, False, 0))"
  by (simp add: download_click_def negative_speed_form_def start_download_def Let_def int_entry_def
      py_int_def py_strip_def py_whitespace_def int_digits_ok.simps digits_value_def digit_val_def
      combo_current_text_def is_digit_def)


end
