(* ===== verification/Py_Float.thy ===== *)
theory Py_Float
  imports Main "HOL-Library.Log_Nat"
begin

text \<open>
  Python's \<open>float\<close> arithmetic, as far as the progress percentage of the two
  worker threads uses it (\<open>src/utils/ui.py\<close>:
  \<open>progress = (i + 1) / total * 100\<close>, then \<open>int(progress)\<close>). A float is an
  IEEE 754 binary64 value, and every operation rounds its exact result to the
  nearest double, ties to even. \<open>int / int\<close> is the correctly rounded quotient, even
  for integers beyond 2^53, \<open>float * int\<close> the correctly rounded product, and
  \<open>int()\<close> truncates. Values are kept as exact rationals, and \<open>round_double\<close>
  rounds a non-negative rational to the nearest double. Its ulp exponent comes
  from the binary logarithm \<open>flog2\<close>, with the subnormal range below 2^-1022.
  Overflow to infinity is not modelled: every value here is at most 100.
\<close>

definition flog2 :: "rat \<Rightarrow> int" where
  "flog2 q = (case quotient_of q of (a, b) \<Rightarrow>
     (let e = bitlen a - bitlen b in if 2 powi e \<le> q then e else e - 1))"

text \<open>Rounding to an integer, ties to even, and the ulp exponent of the 53-bit
  significand.\<close>

definition round_even :: "rat \<Rightarrow> int" where
  "round_even s = (let f = \<lfloor>s\<rfloor>; d = s - of_int f in
     if d < 1/2 then f else if 1/2 < d then f + 1 else if even f then f else f + 1)"

definition ulp_exp :: "rat \<Rightarrow> int" where
  "ulp_exp q = max (flog2 q - 52) (-1074)"

definition round_double :: "rat \<Rightarrow> rat" where
  "round_double q = (if q \<le> 0 then 0 else of_int (round_even (q / 2 powi ulp_exp q)) * 2 powi ulp_exp q)"

text \<open>\<open>int((i + 1) / total * 100)\<close> for the item \<open>k = i + 1\<close> of \<open>n\<close>.\<close>

definition progress_percent :: "nat \<Rightarrow> nat \<Rightarrow> int" where
  "progress_percent k n = \<lfloor>round_double (round_double (of_nat k / of_nat n) * 100)\<rfloor>"

subsection \<open>Lemmas\<close>

lemma pow2_nonneg: "0 \<le> n \<Longrightarrow> (2::rat) powi n = of_int (2 ^ nat n)"
  by (simp add: power_int_def)

lemma pow2_pos [simp]: "0 < (2::rat) powi n"
  by (simp add: power_int_def)

lemma pow2_diff: "(2::rat) powi (m - n) = 2 powi m / 2 powi n"
  by (simp add: power_int_diff)

lemma pow2_add: "(2::rat) powi (m + n) = 2 powi m * 2 powi n"
  by (simp add: power_int_add)

lemma pow2_mono: "m \<le> n \<Longrightarrow> (2::rat) powi m \<le> 2 powi n"
  by (rule power_int_increasing) simp_all

lemma flog2_bounds:
  assumes "0 < q"
  shows "2 powi flog2 q \<le> q \<and> q < 2 powi (flog2 q + 1)"
proof -
  obtain a b where qa: "quotient_of q = (a, b)" by (cases "quotient_of q")
  have qd: "q = of_int a / of_int b" by (rule quotient_of_div [OF qa])
  have b0: "0 < b" using quotient_of_denom_pos [OF qa] .
  have a0: "0 < a" using assms qd b0 by (simp add: zero_less_divide_iff)
  define la lb where "la = bitlen a" and "lb = bitlen b"
  have A: "2 ^ nat (la - 1) \<le> a" "a < 2 ^ nat la" using bitlen_bounds [OF a0] by (simp_all add: la_def)
  have B: "2 ^ nat (lb - 1) \<le> b" "b < 2 ^ nat lb" using bitlen_bounds [OF b0] by (simp_all add: lb_def)
  have la1: "1 \<le> la" using A a0 by (cases "nat la") auto
  have lb1: "1 \<le> lb" using B b0 by (cases "nat lb") auto
  have Ar: "2 powi (la - 1) \<le> (of_int a :: rat)" "of_int a < (2::rat) powi la"
    using A la1 by (simp_all add: pow2_nonneg flip: of_int_less_iff of_int_le_iff)
  have Br: "2 powi (lb - 1) \<le> (of_int b :: rat)" "of_int b < (2::rat) powi lb"
    using B lb1 by (simp_all add: pow2_nonneg flip: of_int_less_iff of_int_le_iff)
  have L: "2 powi (la - lb - 1) < q"
  proof -
    have "(2::rat) powi (la - lb - 1) = 2 powi (la - 1) / 2 powi lb" by (simp add: pow2_diff [symmetric] algebra_simps)
    also have "\<dots> < of_int a / of_int b"
      using Ar(1) Br(2) b0 by (intro frac_less2) simp_all
    finally show ?thesis by (simp add: qd)
  qed
  have U: "q < 2 powi (la - lb + 1)"
  proof -
    have "q = of_int a / of_int b" by (rule qd)
    also have "\<dots> < 2 powi la / 2 powi (lb - 1)"
      using Ar(2) Br(1) a0 by (intro frac_less) simp_all
    also have "\<dots> = (2::rat) powi (la - lb + 1)" by (simp add: pow2_diff [symmetric] algebra_simps)
    finally show ?thesis .
  qed
  have f: "flog2 q = (if 2 powi (la - lb) \<le> q then la - lb else la - lb - 1)"
    by (simp add: flog2_def qa la_def lb_def Let_def)
  show ?thesis
    using L U by (auto simp: f)
qed

lemma flog2_unique:
  assumes "2 powi e \<le> q" and "q < 2 powi (e + 1)"
  shows "flog2 q = e"
proof -
  have q0: "0 < q" using assms(1) by (rule less_le_trans [OF pow2_pos])
  have b: "2 powi flog2 q \<le> q" "q < 2 powi (flog2 q + 1)" using flog2_bounds [OF q0] by auto
  have "\<not> flog2 q + 1 \<le> e"
    using b(2) assms(1) pow2_mono [of "flog2 q + 1" e] by auto
  moreover have "\<not> e + 1 \<le> flog2 q"
    using b(1) assms(2) pow2_mono [of "e + 1" "flog2 q"] by auto
  ultimately show ?thesis by simp
qed

lemma round_even_err: "\<bar>of_int (round_even s) - s\<bar> \<le> 1/2"
proof -
  have "of_int \<lfloor>s\<rfloor> \<le> s" "s < of_int \<lfloor>s\<rfloor> + 1" by linarith+
  then show ?thesis by (auto simp: round_even_def Let_def)
qed

lemma round_even_cases:
  "round_even s = \<lfloor>s\<rfloor> \<or> (round_even s = \<lfloor>s\<rfloor> + 1 \<and> of_int \<lfloor>s\<rfloor> < s)"
  by (auto simp: round_even_def Let_def)

lemma round_even_le: "s \<le> of_int j \<Longrightarrow> round_even s \<le> j"
proof -
  assume sj: "s \<le> of_int j"
  then have f: "\<lfloor>s\<rfloor> \<le> j" by linarith
  show ?thesis
  proof (cases "round_even s = \<lfloor>s\<rfloor>")
    case True
    with f show ?thesis by simp
  next
    case False
    with round_even_cases [of s] have r: "round_even s = \<lfloor>s\<rfloor> + 1" and lt: "of_int \<lfloor>s\<rfloor> < s" by auto
    from lt sj have "of_int \<lfloor>s\<rfloor> < (of_int j :: rat)" by linarith
    then have "\<lfloor>s\<rfloor> < j" by (simp only: of_int_less_iff)
    with r show ?thesis by simp
  qed
qed

lemma round_even_ge: "of_int j \<le> s \<Longrightarrow> j \<le> round_even s"
proof -
  assume "of_int j \<le> s"
  then have "j \<le> \<lfloor>s\<rfloor>" by linarith
  then show ?thesis by (auto simp: round_even_def Let_def)
qed

lemma round_even_int [simp]: "round_even (of_int j) = j"
  using round_even_le [of "of_int j" j] round_even_ge [of j "of_int j"] by simp

lemma round_double_eq:
  "0 < q \<Longrightarrow> round_double q = of_int (round_even (q / 2 powi ulp_exp q)) * 2 powi ulp_exp q"
  by (simp add: round_double_def)

lemma round_double_err:
  assumes "0 < q"
  shows "\<bar>round_double q - q\<bar> \<le> 2 powi ulp_exp q / 2"
proof -
  let ?u = "(2::rat) powi ulp_exp q" and ?s = "q / 2 powi ulp_exp q"
  have "round_double q - q = (of_int (round_even ?s) - ?s) * ?u"
    using assms by (simp add: round_double_eq algebra_simps)
  then have "\<bar>round_double q - q\<bar> = \<bar>of_int (round_even ?s) - ?s\<bar> * ?u"
    by (simp add: abs_mult)
  also have "\<dots> \<le> 1/2 * ?u" using round_even_err [of ?s] by (intro mult_right_mono) simp_all
  finally show ?thesis by simp
qed

lemma ulp_exp_normal:
  assumes "2 powi (-1022) \<le> q"
  shows "2 powi ulp_exp q \<le> q / 2 ^ 52"
proof -
  have q0: "0 < q" using assms by (rule less_le_trans [OF pow2_pos])
  have b: "2 powi flog2 q \<le> q" "q < 2 powi (flog2 q + 1)" using flog2_bounds [OF q0] by auto
  have "\<not> flog2 q + 1 \<le> -1022"
    using b(2) assms pow2_mono [of "flog2 q + 1" "-1022"] by auto
  then have u: "ulp_exp q = flog2 q - 52" by (simp add: ulp_exp_def)
  show ?thesis using b(1) by (simp add: u pow2_diff divide_right_mono)
qed

lemma round_double_rel:
  assumes "2 powi (-1022) \<le> q"
  shows "\<bar>round_double q - q\<bar> \<le> q / 2 ^ 53"
proof -
  have q0: "0 < q" using assms by (rule less_le_trans [OF pow2_pos])
  from round_double_err [OF q0] ulp_exp_normal [OF assms] show ?thesis by simp
qed

lemma round_double_le_grid:
  assumes "0 < q" and "q \<le> of_int j * 2 powi ulp_exp q"
  shows "round_double q \<le> of_int j * 2 powi ulp_exp q"
proof -
  have "q / 2 powi ulp_exp q \<le> of_int j" using assms(2) by (simp add: divide_le_eq)
  then have "round_even (q / 2 powi ulp_exp q) \<le> j" by (rule round_even_le)
  then show ?thesis using assms(1) by (simp add: round_double_eq)
qed

lemma round_double_exact:
  assumes "0 < q" and "q = of_int j * 2 powi ulp_exp q"
  shows "round_double q = q"
proof -
  have "q / 2 powi ulp_exp q = of_int j * 2 powi ulp_exp q / 2 powi ulp_exp q"
    using arg_cong [OF assms(2), of "\<lambda>t. t / 2 powi ulp_exp q"] .
  then have "q / 2 powi ulp_exp q = of_int j" by simp
  then show ?thesis using assms by (simp add: round_double_eq)
qed

lemma round_double_nonneg: "0 \<le> round_double q"
proof (cases "q \<le> 0")
  case False
  then have "0 \<le> q / 2 powi ulp_exp q" by simp
  then have "0 \<le> round_even (q / 2 powi ulp_exp q)" using round_even_ge [of 0] by simp
  then show ?thesis using False by (simp add: round_double_def)
qed (simp add: round_double_def)

lemma ulp_exp_below:
  assumes "0 < q" and "q < 2 powi (e + 1)"
  shows "ulp_exp q \<le> max (e - 52) (-1074)"
proof -
  have "2 powi flog2 q \<le> q" using flog2_bounds [OF assms(1)] by simp
  then have "\<not> e + 1 \<le> flog2 q" using assms(2) pow2_mono [of "e + 1" "flog2 q"] by auto
  then show ?thesis by (simp add: ulp_exp_def)
qed

lemma round_double_below:
  assumes "0 < q" and "q \<le> of_int j * 2 powi v" and "ulp_exp q \<le> v"
  shows "round_double q \<le> of_int j * 2 powi v"
proof -
  have "(2::rat) powi v = 2 powi (v - ulp_exp q) * 2 powi ulp_exp q" by (simp flip: pow2_add)
  also have "\<dots> = of_int (2 ^ nat (v - ulp_exp q)) * 2 powi ulp_exp q" using assms(3) by (simp add: pow2_nonneg)
  finally have p: "of_int j * (2::rat) powi v = of_int (j * 2 ^ nat (v - ulp_exp q)) * 2 powi ulp_exp q" by simp
  show ?thesis using round_double_le_grid [of q "j * 2 ^ nat (v - ulp_exp q)"] assms(1,2) by (simp only: p)
qed

lemma round_double_le_one: "0 < q \<Longrightarrow> q \<le> 1 \<Longrightarrow> round_double q \<le> 1"
  using round_double_below [of q 1 0] ulp_exp_below [of q 0] by simp

lemma round_double_le_100: "0 < q \<Longrightarrow> q \<le> 100 \<Longrightarrow> round_double q \<le> 100"
  using round_double_below [of q 25 2] ulp_exp_below [of q 6] by simp

lemma round_double_one [simp]: "round_double 1 = 1"
proof -
  have "flog2 1 = 0" by (rule flog2_unique) simp_all
  then have "ulp_exp 1 = -52" by (simp add: ulp_exp_def)
  then show ?thesis by (intro round_double_exact [of _ "2 ^ 52"]) simp_all
qed

lemma round_double_100 [simp]: "round_double 100 = 100"
proof -
  have "flog2 100 = 6" by (rule flog2_unique) simp_all
  then have "ulp_exp 100 = -46" by (simp add: ulp_exp_def)
  then show ?thesis by (intro round_double_exact [of _ "100 * 2 ^ 46"]) simp_all
qed

lemma progress_percent_bounds:
  assumes "0 < k" and "k \<le> n"
  shows "0 \<le> progress_percent k n \<and> progress_percent k n \<le> 100"
proof -
  let ?x = "round_double (of_nat k / of_nat n)"
  have q: "0 < (of_nat k / of_nat n :: rat)" "(of_nat k / of_nat n :: rat) \<le> 1"
    using assms by simp_all
  have x: "0 \<le> ?x" "?x \<le> 1" using round_double_nonneg round_double_le_one [OF q] by auto
  have "round_double (?x * 100) \<le> 100"
  proof (cases "?x = 0")
    case True
    then show ?thesis by (simp add: round_double_def)
  qed (use x in \<open>auto intro: round_double_le_100\<close>)
  then have "\<lfloor>round_double (?x * 100)\<rfloor> \<le> 100" by linarith
  moreover have "0 \<le> \<lfloor>round_double (?x * 100)\<rfloor>" using round_double_nonneg by simp
  ultimately show ?thesis by (simp add: progress_percent_def)
qed

lemma progress_percent_last: "0 < n \<Longrightarrow> progress_percent n n = 100"
  by (simp add: progress_percent_def)

lemma err_compose:
  fixes y x q :: rat
  assumes "\<bar>y - x * 100\<bar> \<le> x * 100 / 2 ^ 53" and "\<bar>x - q\<bar> \<le> q / 2 ^ 53"
    and "x \<le> 2 * q" and "0 \<le> q" and "q \<le> 1"
  shows "\<bar>y - 100 * q\<bar> < 1 / 2 ^ 44"
proof -
  have p: "(2::rat) ^ 53 = 9007199254740992" "(2::rat) ^ 44 = 17592186044416" by simp_all
  have a1: "y - x * 100 \<le> x * 100 / 9007199254740992 \<and> - (y - x * 100) \<le> x * 100 / 9007199254740992"
    using assms(1) by (simp only: abs_le_iff p)
  have a2: "x - q \<le> q / 9007199254740992 \<and> - (x - q) \<le> q / 9007199254740992"
    using assms(2) by (simp only: abs_le_iff p)
  have "y - 100 * q < 1 / 17592186044416" "- (y - 100 * q) < 1 / 17592186044416"
    using a1 [THEN conjunct1] a1 [THEN conjunct2] a2 [THEN conjunct1] a2 [THEN conjunct2] assms(3-5)
    by linarith+
  then show ?thesis by (simp only: abs_less_iff p)
qed

lemma progress_close:
  assumes "0 < k" and "k \<le> n" and "n \<le> 2 ^ 40"
  shows "\<bar>round_double (round_double (of_nat k / of_nat n) * 100) - 100 * (of_nat k / of_nat n)\<bar> < 1 / 2 ^ 44"
proof -
  let ?q = "of_nat k / of_nat n :: rat"
  let ?x = "round_double ?q"
  let ?y = "round_double (?x * 100)"
  have nq: "(1::rat) / 2 ^ 40 \<le> 1 / of_nat n"
    using assms by (intro divide_left_mono) (simp_all flip: of_nat_le_iff)
  have kq: "(1::rat) / of_nat n \<le> ?q" using assms by (simp add: divide_right_mono)
  have q1: "?q \<le> 1" using assms by simp
  have "(2::rat) powi (-1022) \<le> 2 powi (-40)" by (rule pow2_mono) simp
  also have "(2::rat) powi (-40) = 1 / 2 ^ 40"
    using power_int_minus [of "2::rat" 40] by (simp add: inverse_eq_divide)
  finally have tiny: "(2::rat) powi (-1022) \<le> 1 / 2 ^ 40" .
  have qn: "2 powi (-1022) \<le> ?q" using tiny nq kq by linarith
  have ex: "\<bar>?x - ?q\<bar> \<le> ?q / 2 ^ 53" by (rule round_double_rel [OF qn])
  have xlo: "?q / 2 \<le> ?x" using ex by (simp add: abs_le_iff)
  have xhi: "?x \<le> 2 * ?q" using ex by (simp add: abs_le_iff)
  have lin: "\<And>a q x :: rat. a \<le> q \<Longrightarrow> q / 2 \<le> x \<Longrightarrow> 0 < a \<Longrightarrow> a \<le> x * 100" by linarith
  have "2 powi (-1022) \<le> ?x * 100" using lin [OF qn xlo pow2_pos] .
  then have ey: "\<bar>?y - ?x * 100\<bar> \<le> ?x * 100 / 2 ^ 53" by (rule round_double_rel)
  show ?thesis using err_compose [OF ey ex xhi _ q1] assms by simp
qed

lemma nat_div_split_rat:
  assumes "0 < n"
  shows "(of_nat m / of_nat n :: rat) = of_nat (m div n) + of_nat (m mod n) / of_nat n"
proof -
  have "of_nat m = (of_nat (m div n) * of_nat n + of_nat (m mod n) :: rat)"
    by (metis of_nat_add of_nat_mult div_mult_mod_eq)
  then show ?thesis using assms by (simp add: field_simps)
qed

lemma abs_close:
  fixes y p e :: rat
  assumes "\<bar>y - p\<bar> < e"
  shows "p - e < y" and "y < p + e"
  using assms by (auto simp: abs_less_iff)

lemma progress_percent_floor:
  assumes "0 < k" and "k \<le> n" and "n \<le> 2 ^ 40"
  shows "progress_percent k n = int (100 * k div n)
    \<or> (n dvd 100 * k \<and> progress_percent k n = int (100 * k div n) - 1)"
proof -
  let ?y = "round_double (round_double (of_nat k / of_nat n) * 100)"
  let ?F = "100 * k div n" and ?r = "100 * k mod n"
  have n0: "0 < n" using assms by simp
  have P: "100 * (of_nat k / of_nat n :: rat) = of_nat ?F + of_nat ?r / of_nat n"
    using nat_div_split_rat [OF n0, of "100 * k"] by simp
  have c: "\<bar>?y - (of_nat ?F + of_nat ?r / of_nat n)\<bar> < 1 / 2 ^ 44"
    using progress_close [OF assms] by (simp only: P)
  have pp: "progress_percent k n = \<lfloor>?y\<rfloor>" by (simp add: progress_percent_def)
  show ?thesis
  proof (cases "?r = 0")
    case True
    then have c': "\<bar>?y - of_nat ?F\<bar> < 1 / 2 ^ 44" using c by simp
    have "(1::rat) / 2 ^ 44 < 1" by simp
    then have "of_nat ?F - 1 \<le> ?y" "?y < of_nat ?F + 1" using abs_close [OF c'] by linarith+
    then have "\<lfloor>?y\<rfloor> = int ?F \<or> \<lfloor>?y\<rfloor> = int ?F - 1" by linarith
    moreover have "n dvd 100 * k" using True by (simp add: mod_eq_0_iff_dvd)
    ultimately show ?thesis by (auto simp: pp)
  next
    case False
    have r1: "1 \<le> ?r" "?r + 1 \<le> n" using False n0 by (simp_all add: Suc_le_eq)
    have inv: "(1::rat) / 2 ^ 40 \<le> 1 / of_nat n"
      using assms(3) n0 by (intro divide_left_mono) (simp_all flip: of_nat_le_iff)
    have lo: "1 / of_nat n \<le> (of_nat ?r / of_nat n :: rat)" using r1 n0 by (simp add: divide_right_mono)
    have hi: "(of_nat ?r / of_nat n :: rat) + 1 / of_nat n \<le> 1"
      using r1 n0 by (simp add: add_divide_distrib [symmetric] divide_le_eq flip: of_nat_add of_nat_le_iff)
    have e: "(1::rat) / 2 ^ 44 < 1 / 2 ^ 40" by simp
    have "of_nat ?F \<le> ?y" "?y < of_nat ?F + 1" using abs_close [OF c] lo hi inv e by linarith+
    then have "\<lfloor>?y\<rfloor> = int ?F" by linarith
    then show ?thesis by (simp add: pp)
  qed
qed

lemma progress_percent_mono:
  assumes "0 < k" and "k \<le> k'" and "k' \<le> n" and "n \<le> 2 ^ 40"
  shows "progress_percent k n \<le> progress_percent k' n"
proof -
  let ?F = "100 * k div n" and ?F' = "100 * k' div n"
  have k': "0 < k'" using assms by simp
  have FF: "?F \<le> ?F'" using assms(2) by (simp add: div_le_mono)
  have a: "progress_percent k n \<le> int ?F"
    using progress_percent_floor [OF assms(1) le_trans [OF assms(2,3)] assms(4)] by auto
  show ?thesis
  proof (cases "progress_percent k' n = int ?F'")
    case True
    with a FF show ?thesis by simp
  next
    case False
    with progress_percent_floor [OF k' assms(3,4)]
    have d: "n dvd 100 * k'" and p: "progress_percent k' n = int ?F' - 1" by auto
    show ?thesis
    proof (cases "k = k'")
      case False
      then have lt: "100 * k < 100 * k'" using assms(2) by simp
      have "?F * n \<le> 100 * k" by (rule div_times_less_eq_dividend)
      also have "\<dots> < 100 * k'" by (rule lt)
      also have "100 * k' = ?F' * n" using d by simp
      finally have "?F < ?F'" by (simp add: mult_less_cancel2)
      with a p show ?thesis by simp
    qed simp
  qed
qed

lemma progress_29_of_100: "progress_percent 29 100 = 28"
  by code_simp

text \<open>C14: the percentage a worker sends for item \<open>k\<close> of \<open>n\<close> is between 0 and
  100, and it is exactly 100 at the last item: the doubles never round past the
  bar's range.\<close>

theorem progress_percent_range:
  assumes "0 < k" and "k \<le> n"
  shows "0 \<le> progress_percent k n \<and> progress_percent k n \<le> 100 \<and> progress_percent n n = 100"
  using progress_percent_bounds [OF assms] progress_percent_last assms by simp

text \<open>C15: for up to 2^40 items, \<open>int((i + 1) / total * 100)\<close> is the exact integer
  percentage \<open>100 k div n\<close>, except that it can be one less when the exact value is
  a whole number. Item 29 of 100 shows 28, because 29/100 * 100 rounds to
  28.999999999999996.\<close>

theorem progress_percent_exact_or_below:
  assumes "0 < k" and "k \<le> n" and "n \<le> 2 ^ 40"
  shows "progress_percent k n = int (100 * k div n)
    \<or> (n dvd 100 * k \<and> progress_percent k n = int (100 * k div n) - 1)"
  by (rule progress_percent_floor [OF assms])

subsection \<open>Witnesses\<close>

theorem progress_percent_range_witness:
  "0 \<le> progress_percent 29 100 \<and> progress_percent 29 100 \<le> 100 \<and> progress_percent 100 100 = 100"
  using progress_percent_range [of 29 100] by simp

theorem progress_percent_exact_or_below_witness:
  "progress_percent 29 100 = 28 \<and> 100 dvd (100 * 29 :: nat)
   \<and> (progress_percent 29 100 = int (100 * 29 div 100)
      \<or> (100 dvd (100 * 29 :: nat) \<and> progress_percent 29 100 = int (100 * 29 div 100) - 1))"
  using progress_percent_exact_or_below [of 29 100] progress_29_of_100 by simp

end
