(* ===== verification/Window.thy ===== *)
theory Window
  imports Background Form Py_Float
begin

text \<open>
  The main window as a state machine (\<open>src/utils/ui.py\<close>): the core state, the
  world, the enabled state of the four start/stop buttons, the worker thread of
  each kind that is running (with its arguments), and the queue of signals
  emitted but not yet delivered to their slots. The Qt connections are queued, so
  a slot runs later on the main thread. A step is a user's edit of the page
  widgets (\<open>Form\<close>), a click handled by the main thread, which reads those widgets,
  a worker's whole run, or the delivery of the oldest queued signal. A
  worker's run is one step: while it runs, the main thread only changes the
  buttons and the flags, and the worker reads the stop flag through its oracle.
\<close>

record window =
  win_app :: app
  win_world :: world
  win_form :: form
  dl_button :: bool
  dl_stop_button :: bool
  cv_button :: bool
  cv_stop_button :: bool
  dl_job :: "dl_args option"
  cv_job :: "cv_args option"
  api_jobs :: nat
  version_pending :: bool
  latest_version :: string
  dl_bar :: int
  cv_bar :: int
  shown :: "notice list"
  queue :: "ui_event list"

text \<open>The state after \<open>MainWindow.__init__\<close>: the buttons as the pages create
  them (both start buttons enabled, both stop buttons disabled, both progress bars
  at 0), the input widgets
  as the pages fill them from the configuration, no worker, the
  version label empty, the version fetch of \<open>get_latest_version\<close> started, and one
  API test running: \<open>__init__\<close> ends by calling \<open>test_api_feasibility\<close>.\<close>

definition init_window :: "app \<Rightarrow> world \<Rightarrow> window" where
  "init_window a w =
     \<lparr>win_app = a, win_world = w, win_form = form_init (app_config a), dl_button = True, dl_stop_button = False,
      cv_button = True, cv_stop_button = False, dl_job = None, cv_job = None,
      api_jobs = 1, version_pending = True, latest_version = [], dl_bar = 0, cv_bar = 0, shown = [],
      queue = []\<rparr>"

text \<open>The slots: \<open>button_state_slot\<close> and \<open>ncm_button_state_slot\<close> set the
  buttons, \<open>update_latest_version\<close> the version label; \<open>download_complete_slot\<close>,
  \<open>ncm_complete_slot\<close>, the two error slots and \<open>api_test_result_slot\<close> show an
  \<open>InfoBar\<close>, of which the kind is recorded; \<open>progress_slot\<close> and
  \<open>ncm_progress_slot\<close> set their bar to the percentage the worker computed (their
  label text is not recorded), and the log slot only shows text.\<close>

fun deliver :: "ui_event \<Rightarrow> window \<Rightarrow> window" where
  "deliver (Button_state a b) w = w\<lparr>dl_button := a, dl_stop_button := b\<rparr>"
| "deliver (Ncm_button_state a b) w = w\<lparr>cv_button := a, cv_stop_button := b\<rparr>"
| "deliver (Version v) w = w\<lparr>latest_version := v\<rparr>"
| "deliver (Progress k n t) w = w\<lparr>dl_bar := progress_percent k n\<rparr>"
| "deliver Progress_done w = w\<lparr>dl_bar := 100\<rparr>"
| "deliver (Ncm_progress k n t) w = w\<lparr>cv_bar := progress_percent k n\<rparr>"
| "deliver Ncm_progress_done w = w\<lparr>cv_bar := 100\<rparr>"
| "deliver (Download_complete s f) w = w\<lparr>shown := shown w @ [complete_notice s f]\<rparr>"
| "deliver (Download_error m) w = w\<lparr>shown := shown w @ [Notice_error]\<rparr>"
| "deliver (Ncm_complete s f) w = w\<lparr>shown := shown w @ [complete_notice s f]\<rparr>"
| "deliver (Ncm_error m) w = w\<lparr>shown := shown w @ [Notice_error]\<rparr>"
| "deliver (Api_test t c k) w = w\<lparr>shown := shown w @ [api_test_notice k]\<rparr>"
| "deliver _ w = w"

inductive win_step :: "window \<Rightarrow> window \<Rightarrow> bool" where
  edit_form:
    "win_step w (w\<lparr>win_form := apply_action act (win_form w)\<rparr>)"
| click_download:
    "dl_button w \<Longrightarrow> download_click (win_app w) (playlist_page (win_form w)) = Inr (a', args) \<Longrightarrow>
     win_step w (w\<lparr>win_app := a', dl_button := False, dl_stop_button := True,
                   dl_job := Some args\<rparr>)"
| click_stop_download:
    "dl_stop_button w \<Longrightarrow> win_step w (w\<lparr>win_app := stop_download_task (win_app w)\<rparr>)"
| download_done:
    "dl_job w = Some (lid, save, q, sl, skip, fmt) \<Longrightarrow>
     download_worker (win_app w) lid save q sl skip fmt stopped (win_world w) = (a', wd', evs) \<Longrightarrow>
     win_step w (w\<lparr>win_app := a', win_world := wd', dl_job := None, queue := queue w @ evs\<rparr>)"
| click_convert:
    "cv_button w \<Longrightarrow> convert_click (win_app w) (ncm_page (win_form w)) ex = Inr (a', args) \<Longrightarrow>
     win_step w (w\<lparr>win_app := a', cv_button := False, cv_stop_button := True,
                   cv_job := Some args\<rparr>)"
| click_stop_convert:
    "cv_stop_button w \<Longrightarrow> win_step w (w\<lparr>win_app := stop_convert_task (win_app w)\<rparr>)"
| convert_done:
    "cv_job w = Some (inp, od, skip, flip) \<Longrightarrow> app_converter (win_app w) = Some tp \<Longrightarrow>
     convert_worker tp inp od skip flip stopped (win_world w) = (wd', evs) \<Longrightarrow>
     win_step w (w\<lparr>win_world := wd', cv_job := None, queue := queue w @ evs\<rparr>)"
| click_save_interval:
    "interval_click (win_app w) (playlist_page (win_form w)) = Inr a' \<Longrightarrow> win_step w (w\<lparr>win_app := a'\<rparr>)"
| click_check_api:
    "win_step w (w\<lparr>api_jobs := Suc (api_jobs w)\<rparr>)"
| api_test_done:
    "0 < api_jobs w \<Longrightarrow> api_test_worker (win_app w) (win_world w) = (wd', evs) \<Longrightarrow>
     win_step w (w\<lparr>win_world := wd', api_jobs := api_jobs w - 1, queue := queue w @ evs\<rparr>)"
| version_done:
    "version_pending w \<Longrightarrow> fetch_version (win_world w) = (wd', evs) \<Longrightarrow>
     win_step w (w\<lparr>win_world := wd', version_pending := False, queue := queue w @ evs\<rparr>)"
| deliver_signal:
    "queue w = e # es \<Longrightarrow> win_step w (deliver e (w\<lparr>queue := es\<rparr>))"

fun is_dl_button :: "ui_event \<Rightarrow> bool" where
  "is_dl_button (Button_state _ _) = True"
| "is_dl_button _ = False"

fun is_cv_button :: "ui_event \<Rightarrow> bool" where
  "is_cv_button (Ncm_button_state _ _) = True"
| "is_cv_button _ = False"

text \<open>How the buttons, the running worker and the queued button signals agree, for
  each kind of work.\<close>

definition dl_ok :: "window \<Rightarrow> bool" where
  "dl_ok w \<longleftrightarrow> dl_stop_button w = (\<not> dl_button w) \<and>
     (case dl_job w of
        Some _ \<Rightarrow> \<not> dl_button w \<and> filter is_dl_button (queue w) = []
      | None \<Rightarrow> filter is_dl_button (queue w) = (if dl_button w then [] else [Button_state True False]))"

definition cv_ok :: "window \<Rightarrow> bool" where
  "cv_ok w \<longleftrightarrow> cv_stop_button w = (\<not> cv_button w) \<and>
     (cv_job w \<noteq> None \<longrightarrow> app_converter (win_app w) \<noteq> None) \<and>
     (case cv_job w of
        Some _ \<Rightarrow> \<not> cv_button w \<and> filter is_cv_button (queue w) = []
      | None \<Rightarrow> filter is_cv_button (queue w) = (if cv_button w then [] else [Ncm_button_state True False]))"

subsection \<open>Examples\<close>

text \<open>A download running on the resolver scenario, with nothing queued.\<close>

definition stopped_window :: window where
  "stopped_window = (init_window scenario_app scenario_world)\<lparr>dl_button := False, dl_stop_button := True,
     dl_job := Some (''3778678'', ''/music'', ''standard'', 0, False, 0)\<rparr>"

text \<open>The window after typing the playlist id \<open>1\<close> at start-up.\<close>

definition typed_window :: window where
  "typed_window = (init_window example_app flaky_world)\<lparr>win_form :=
     apply_action (Type_list_id ''1'') (win_form (init_window example_app flaky_world))\<rparr>"

text \<open>The window after clicking the download button on it: the page's defaults.\<close>

definition clicked_window :: window where
  "clicked_window = typed_window\<lparr>win_app := example_app\<lparr>stop_download := False\<rparr>,
     dl_button := False, dl_stop_button := True,
     dl_job := Some (''1'', ''./downloads'', ''standard'', 2048, True, 0)\<rparr>"

subsection \<open>Lemmas\<close>


lemma download_items_buttons:
  "filter is_dl_button (snd (snd (snd (download_items c save q sl skip fmt stopped n i ss t d w evs))))
     = filter is_dl_button evs
   \<and> filter is_cv_button (snd (snd (snd (download_items c save q sl skip fmt stopped n i ss t d w evs))))
     = filter is_cv_button evs"
  by (induction c save q sl skip fmt stopped n i ss t d w evs rule: download_items.induct)
     (auto split: prod.splits)

lemma convert_items_buttons:
  "filter is_dl_button (snd (snd (convert_items tp od skip flip stopped n i fs t w evs))) = filter is_dl_button evs
   \<and> filter is_cv_button (snd (snd (convert_items tp od skip flip stopped n i fs t w evs))) = filter is_cv_button evs"
  by (induction tp od skip flip stopped n i fs t w evs rule: convert_items.induct)
     (auto split: prod.splits)

lemma download_worker_buttons:
  assumes "download_worker a lid save q sl skip fmt stopped wd = (a', wd', evs)"
  shows "filter is_dl_button evs = [Button_state True False] \<and> filter is_cv_button evs = []
    \<and> app_converter a' = app_converter a"
proof (cases "get_playlist_songs (app_config a) lid wd")
  case (Pair r w1)
  show ?thesis
  proof (cases r)
    case (Inl e)
    with Pair assms show ?thesis by (auto simp: download_worker_def)
  next
    case (Inr songs)
    obtain t d w2 evs1 where run: "download_items (app_config a) save q sl skip fmt stopped (length songs) 0 songs
        tally0 (app_dl a) w1 [] = (t, d, w2, evs1)"
      by (cases "download_items (app_config a) save q sl skip fmt stopped (length songs) 0 songs tally0 (app_dl a) w1 []")
    with Pair Inr assms have "a' = a\<lparr>app_dl := d\<rparr>"
      and "evs = evs1 @ [Progress_done, Download_complete (n_success t) (n_fail t), Button_state True False]"
      by (simp_all add: download_worker_def)
    moreover have "filter is_dl_button evs1 = [] \<and> filter is_cv_button evs1 = []"
      using download_items_buttons [of "app_config a" save q sl skip fmt stopped "length songs" 0 songs
          tally0 "app_dl a" w1 "[]"] run by simp
    ultimately show ?thesis by simp
  qed
qed

lemma convert_worker_buttons:
  assumes "convert_worker tp inp od skip flip stopped wd = (wd', evs)"
  shows "filter is_cv_button evs = [Ncm_button_state True False] \<and> filter is_dl_button evs = []"
proof (cases "glob_ncm inp wd = []")
  case True
  with assms show ?thesis by (auto simp: convert_worker_def)
next
  case False
  let ?fs = "glob_ncm inp wd"
  obtain t w2 evs1 where run: "convert_items tp od skip flip stopped (length ?fs) 0 ?fs tally0 wd [] = (t, w2, evs1)"
    by (cases "convert_items tp od skip flip stopped (length ?fs) 0 ?fs tally0 wd []")
  with False assms have "evs = evs1 @ [Ncm_progress_done, Ncm_complete (n_success t) (n_fail t),
      Ncm_button_state True False]"
    by (simp add: convert_worker_def)
  moreover have "filter is_dl_button evs1 = [] \<and> filter is_cv_button evs1 = []"
    using convert_items_buttons [of tp od skip flip stopped "length ?fs" 0 ?fs tally0 wd "[]"] run by simp
  ultimately show ?thesis by simp
qed

lemma deliver_jobs [simp]:
  "dl_job (deliver e w) = dl_job w" "cv_job (deliver e w) = cv_job w"
  "queue (deliver e w) = queue w" "win_app (deliver e w) = win_app w"
  "api_jobs (deliver e w) = api_jobs w" "version_pending (deliver e w) = version_pending w"
  by (cases e; simp)+

lemma dl_ok_app [simp]: "dl_ok (w\<lparr>win_app := a\<rparr>) = dl_ok w"
  by (simp add: dl_ok_def split: option.splits)

lemma cv_ok_app [simp]:
  "app_converter a = app_converter (win_app w) \<Longrightarrow> cv_ok (w\<lparr>win_app := a\<rparr>) = cv_ok w"
  by (simp add: cv_ok_def split: option.splits)

lemma ok_background [simp]:
  "dl_ok (w\<lparr>api_jobs := n\<rparr>) = dl_ok w" "cv_ok (w\<lparr>api_jobs := n\<rparr>) = cv_ok w"
  "dl_ok (w\<lparr>version_pending := b\<rparr>) = dl_ok w" "cv_ok (w\<lparr>version_pending := b\<rparr>) = cv_ok w"
  "dl_ok (w\<lparr>win_form := f\<rparr>) = dl_ok w" "cv_ok (w\<lparr>win_form := f\<rparr>) = cv_ok w"
  by (simp_all add: dl_ok_def cv_ok_def split: option.splits)

lemma deliver_ok:
  assumes "queue w = e # es" and "dl_ok w" and "cv_ok w"
  shows "dl_ok (deliver e (w\<lparr>queue := es\<rparr>)) \<and> cv_ok (deliver e (w\<lparr>queue := es\<rparr>))"
proof (cases e)
  case (Button_state a b)
  with assms show ?thesis
    by (auto simp: dl_ok_def cv_ok_def split: option.splits if_splits)
next
  case (Ncm_button_state a b)
  with assms show ?thesis
    by (auto simp: dl_ok_def cv_ok_def split: option.splits if_splits)
qed (use assms in \<open>auto simp: dl_ok_def cv_ok_def split: option.splits\<close>)

lemma win_step_ok: "win_step w w' \<Longrightarrow> dl_ok w \<Longrightarrow> cv_ok w \<Longrightarrow> dl_ok w' \<and> cv_ok w'"
proof (induction rule: win_step.induct)
  case (edit_form w)
  then show ?case by simp
next
  case (click_download w)
  then show ?case
    by (auto simp: dl_ok_def cv_ok_def stop_download_task_def dest!: download_click_app split: option.splits)
next
  case (click_stop_download w)
  then show ?case by (simp add: stop_download_task_def)
next
  case (download_done w)
  from download_worker_buttons [OF download_done.hyps(2)] download_done.hyps(1) download_done.prems
  show ?case by (auto simp: dl_ok_def cv_ok_def split: option.splits)
next
  case (click_convert w)
  then show ?case
    by (auto simp: dl_ok_def cv_ok_def dest!: convert_click_app split: option.splits)
next
  case (click_stop_convert w)
  then show ?case by (simp add: stop_convert_task_def)
next
  case (convert_done w)
  from convert_worker_buttons [OF convert_done.hyps(3)] convert_done.hyps(1) convert_done.prems
  show ?case by (auto simp: dl_ok_def cv_ok_def split: option.splits)
next
  case (click_save_interval w)
  then show ?case by (simp add: interval_click_app)
next
  case (click_check_api w)
  then show ?case by simp
next
  case (api_test_done w wd evs)
  from api_test_worker_events [OF api_test_done.hyps(2)] obtain t c k where "evs = [Api_test t c k]" by blast
  with api_test_done.prems show ?case by (simp add: dl_ok_def cv_ok_def split: option.splits)
next
  case (version_done w wd evs)
  from fetch_version_events [OF version_done.hyps(2)] obtain v where "evs = [Version v]" by blast
  with version_done.prems show ?case by (simp add: dl_ok_def cv_ok_def split: option.splits)
next
  case (deliver_signal w e es)
  then show ?case by (rule deliver_ok)
qed

lemma init_window_ok: "dl_ok (init_window a wd) \<and> cv_ok (init_window a wd)"
  by (simp add: init_window_def dl_ok_def cv_ok_def)

lemma steps_ok: "win_step\<^sup>*\<^sup>* w w' \<Longrightarrow> dl_ok w \<Longrightarrow> cv_ok w \<Longrightarrow> dl_ok w' \<and> cv_ok w'"
  by (induction rule: rtranclp_induct) (auto dest: win_step_ok)

lemma reachable_ok: "win_step\<^sup>*\<^sup>* (init_window a wd) w \<Longrightarrow> dl_ok w \<and> cv_ok w"
  using init_window_ok by (blast dest: steps_ok)

lemma deliver_all:
  "queue w = qs \<Longrightarrow> win_step\<^sup>*\<^sup>* w (fold deliver qs (w\<lparr>queue := []\<rparr>))"
proof (induction qs arbitrary: w)
  case Nil
  then have "w\<lparr>queue := []\<rparr> = w" by (cases w) simp
  then show ?case by simp
next
  case (Cons e es)
  let ?w1 = "deliver e (w\<lparr>queue := es\<rparr>)"
  have s: "win_step w ?w1" using Cons.prems by (rule win_step.deliver_signal)
  have "win_step\<^sup>*\<^sup>* ?w1 (fold deliver es (?w1\<lparr>queue := []\<rparr>))" by (rule Cons.IH) simp
  moreover have "?w1\<lparr>queue := []\<rparr> = deliver e (w\<lparr>queue := []\<rparr>)" by (cases e) simp_all
  ultimately show ?case using s by (simp add: converse_rtranclp_into_rtranclp)
qed

lemma fold_deliver_jobs [simp]:
  "dl_job (fold deliver es w) = dl_job w" "cv_job (fold deliver es w) = cv_job w"
  "queue (fold deliver es w) = queue w" "api_jobs (fold deliver es w) = api_jobs w"
  "version_pending (fold deliver es w) = version_pending w"
  by (induction es arbitrary: w) simp_all

lemma drain:
  "\<exists>w'. win_step\<^sup>*\<^sup>* w w' \<and> queue w' = [] \<and> dl_job w' = dl_job w \<and> cv_job w' = cv_job w
     \<and> api_jobs w' = api_jobs w \<and> version_pending w' = version_pending w"
  using deliver_all [OF refl, of w] by (intro exI [where x = "fold deliver (queue w) (w\<lparr>queue := []\<rparr>)"]) simp

lemma download_worker_stopped_first:
  assumes "stopped 0" and "get_playlist_songs (app_config a) lid w = (Inr songs, w1)"
  shows "download_worker a lid save q sl skip fmt stopped w
    = (a, w1, [Progress_done, Download_complete 0 0, Button_state True False])"
  using assms by (cases songs) (simp_all add: download_worker_def tally0_def)

lemma finish_download:
  "\<exists>w'. win_step\<^sup>*\<^sup>* w w' \<and> dl_job w' = None \<and> cv_job w' = cv_job w"
proof (cases "dl_job w")
  case None
  then show ?thesis by blast
next
  case (Some args)
  obtain lid save q sl skip fmt where a: "dl_job w = Some (lid, save, q, sl, skip, fmt)"
    using Some by (cases args) auto
  obtain a' wd' evs where r: "download_worker (win_app w) lid save q sl skip fmt (\<lambda>_. False) (win_world w) = (a', wd', evs)"
    by (cases "download_worker (win_app w) lid save q sl skip fmt (\<lambda>_. False) (win_world w)") auto
  have "win_step w (w\<lparr>win_app := a', win_world := wd', dl_job := None, queue := queue w @ evs\<rparr>)"
    using a r by (rule win_step.download_done)
  then show ?thesis by (intro exI [where x = "w\<lparr>win_app := a', win_world := wd', dl_job := None, queue := queue w @ evs\<rparr>"]) auto
qed

lemma finish_convert:
  assumes "cv_ok w"
  shows "\<exists>w'. win_step\<^sup>*\<^sup>* w w' \<and> cv_job w' = None \<and> dl_job w' = dl_job w"
proof (cases "cv_job w")
  case None
  then show ?thesis by blast
next
  case (Some args)
  obtain inp od skip flip where a: "cv_job w = Some (inp, od, skip, flip)"
    using Some by (cases args) auto
  from assms a obtain tp where tp: "app_converter (win_app w) = Some tp" by (auto simp: cv_ok_def)
  obtain wd' evs where r: "convert_worker tp inp od skip flip (\<lambda>_. False) (win_world w) = (wd', evs)"
    by (cases "convert_worker tp inp od skip flip (\<lambda>_. False) (win_world w)") auto
  have "win_step w (w\<lparr>win_world := wd', cv_job := None, queue := queue w @ evs\<rparr>)"
    using a tp r by (rule win_step.convert_done)
  then show ?thesis by (intro exI [where x = "w\<lparr>win_world := wd', cv_job := None, queue := queue w @ evs\<rparr>"]) auto
qed

lemma finish_api_tests:
  "api_jobs w = n \<Longrightarrow> \<exists>w'. win_step\<^sup>*\<^sup>* w w' \<and> api_jobs w' = 0 \<and> dl_job w' = dl_job w \<and> cv_job w' = cv_job w"
proof (induction n arbitrary: w)
  case 0
  then show ?case by blast
next
  case (Suc n)
  obtain wd' evs where r: "api_test_worker (win_app w) (win_world w) = (wd', evs)"
    by (cases "api_test_worker (win_app w) (win_world w)") auto
  let ?w1 = "w\<lparr>win_world := wd', api_jobs := api_jobs w - 1, queue := queue w @ evs\<rparr>"
  have s: "win_step w ?w1" using Suc.prems r by (intro win_step.api_test_done) simp_all
  from Suc.IH [of ?w1] Suc.prems obtain w' where "win_step\<^sup>*\<^sup>* ?w1 w'" "api_jobs w' = 0"
    "dl_job w' = dl_job w" "cv_job w' = cv_job w" by auto
  with s show ?case by (meson converse_rtranclp_into_rtranclp)
qed

lemma finish_version:
  "\<exists>w'. win_step\<^sup>*\<^sup>* w w' \<and> \<not> version_pending w' \<and> dl_job w' = dl_job w \<and> cv_job w' = cv_job w
     \<and> api_jobs w' = api_jobs w"
proof (cases "version_pending w")
  case True
  obtain wd' evs where r: "fetch_version (win_world w) = (wd', evs)"
    by (cases "fetch_version (win_world w)") auto
  have "win_step w (w\<lparr>win_world := wd', version_pending := False, queue := queue w @ evs\<rparr>)"
    using True r by (rule win_step.version_done)
  then show ?thesis
    by (intro exI [where x = "w\<lparr>win_world := wd', version_pending := False, queue := queue w @ evs\<rparr>"]) auto
qed blast

text \<open>From a state where the invariant holds, letting every thread finish and then
  delivering every signal reaches a state with no thread running and nothing queued.\<close>

lemma reach_quiet:
  assumes "cv_ok w"
  shows "\<exists>w'. win_step\<^sup>*\<^sup>* w w' \<and> dl_job w' = None \<and> cv_job w' = None \<and> api_jobs w' = 0
    \<and> \<not> version_pending w' \<and> queue w' = []"
proof -
  obtain w1 where w1: "win_step\<^sup>*\<^sup>* w w1" "cv_job w1 = None"
    using finish_convert [OF assms] by blast
  obtain w2 where w2: "win_step\<^sup>*\<^sup>* w1 w2" "dl_job w2 = None" "cv_job w2 = None"
    using finish_download [of w1] w1(2) by auto
  obtain w3 where w3: "win_step\<^sup>*\<^sup>* w2 w3" "api_jobs w3 = 0" "dl_job w3 = None" "cv_job w3 = None"
    using finish_api_tests [of w2 "api_jobs w2"] w2(2,3) by auto
  obtain w4 where w4: "win_step\<^sup>*\<^sup>* w3 w4" "\<not> version_pending w4" "api_jobs w4 = 0"
      "dl_job w4 = None" "cv_job w4 = None"
    using finish_version [of w3] w3(2-4) by auto
  obtain w5 where w5: "win_step\<^sup>*\<^sup>* w4 w5" "queue w5 = []" "\<not> version_pending w5" "api_jobs w5 = 0"
      "dl_job w5 = None" "cv_job w5 = None"
    using drain [of w4] w4(2-5) by auto
  from w1(1) w2(1) w3(1) w4(1) w5 show ?thesis by (meson rtranclp_trans)
qed

lemma quiet_buttons:
  "dl_ok w \<Longrightarrow> cv_ok w \<Longrightarrow> dl_job w = None \<Longrightarrow> cv_job w = None \<Longrightarrow> queue w = [] \<Longrightarrow> dl_button w \<and> cv_button w"
  by (auto simp: dl_ok_def cv_ok_def split: if_splits)

text \<open>C34: in every window state reachable from start-up, an enabled start button means
  no worker of that kind is running, and each stop button is enabled exactly when its
  start button is disabled: at most one download and one conversion run at a time.\<close>

theorem window_buttons_invariant:
  assumes "win_step\<^sup>*\<^sup>* (init_window a wd) w"
  shows "(dl_button w \<longrightarrow> dl_job w = None) \<and> (cv_button w \<longrightarrow> cv_job w = None)
    \<and> dl_stop_button w = (\<not> dl_button w) \<and> cv_stop_button w = (\<not> cv_button w)"
  using reachable_ok [OF assms] by (auto simp: dl_ok_def cv_ok_def split: option.splits)

text \<open>C20: from every reachable window state, the running threads (the workers, the
  API tests and the version fetch) can finish and the queued signals be delivered,
  reaching a state where both start buttons are enabled again, no thread runs and the
  queue is empty: the window never stays busy.\<close>

theorem window_returns_idle:
  assumes "win_step\<^sup>*\<^sup>* (init_window a wd) w"
  shows "\<exists>w'. win_step\<^sup>*\<^sup>* w w' \<and> dl_button w' \<and> cv_button w' \<and> dl_job w' = None \<and> cv_job w' = None
    \<and> api_jobs w' = 0 \<and> \<not> version_pending w' \<and> queue w' = []"
proof -
  have ok: "dl_ok w" "cv_ok w" using reachable_ok [OF assms] by auto
  obtain w' where w': "win_step\<^sup>*\<^sup>* w w'" "dl_job w' = None" "cv_job w' = None" "api_jobs w' = 0"
    "\<not> version_pending w'" "queue w' = []"
    using reach_quiet [OF ok(2)] by blast
  have "dl_ok w' \<and> cv_ok w'" using steps_ok [OF w'(1) ok] .
  with w' show ?thesis using quiet_buttons by blast
qed

text \<open>C12: a download stopped before its first item is reported as a complete
  success. The worker sends the counts 0 and 0, and once its signals are delivered
  the window shows the success notification and re-enables the download button, as
  for a run that finished every song.\<close>

theorem stopped_download_reported_as_success:
  assumes "dl_job w = Some (lid, save, q, sl, skip, fmt)" and "queue w = []" and "stopped 0"
    and "fst (get_playlist_songs (app_config (win_app w)) lid (win_world w)) = Inr songs"
  shows "\<exists>w'. win_step\<^sup>*\<^sup>* w w' \<and> dl_job w' = None \<and> queue w' = [] \<and> dl_button w' \<and> \<not> dl_stop_button w'
    \<and> shown w' = shown w @ [Notice_success]"
proof -
  obtain w1 where g: "get_playlist_songs (app_config (win_app w)) lid (win_world w) = (Inr songs, w1)"
    using assms(4) by (cases "get_playlist_songs (app_config (win_app w)) lid (win_world w)") auto
  let ?evs = "[Progress_done, Download_complete 0 0, Button_state True False]"
  let ?w1 = "w\<lparr>win_app := win_app w, win_world := w1, dl_job := None, queue := queue w @ ?evs\<rparr>"
  have "win_step w ?w1"
    using assms(1) download_worker_stopped_first [OF assms(3) g] by (rule win_step.download_done)
  moreover have "win_step\<^sup>*\<^sup>* ?w1 (fold deliver ?evs (?w1\<lparr>queue := []\<rparr>))"
    by (rule deliver_all) (simp add: assms(2))
  ultimately have "win_step\<^sup>*\<^sup>* w (fold deliver ?evs (?w1\<lparr>queue := []\<rparr>))"
    by (rule converse_rtranclp_into_rtranclp)
  then show ?thesis
    by (intro exI [where x = "fold deliver ?evs (?w1\<lparr>queue := []\<rparr>)"]) (simp add: complete_notice_def)
qed

subsection \<open>Witnesses\<close>

lemma window_type_example: "win_step (init_window example_app flaky_world) typed_window"
  unfolding typed_window_def by (rule win_step.edit_form)

lemma window_click_example: "win_step typed_window clicked_window"
  unfolding clicked_window_def
proof (rule win_step.click_download)
  show "dl_button typed_window" by (simp add: typed_window_def init_window_def)
  show "download_click (win_app typed_window) (playlist_page (win_form typed_window))
      = Inr (example_app\<lparr>stop_download := False\<rparr>, ''1'', ''./downloads'', ''standard'', 2048, True, 0)"
    by (simp add: typed_window_def init_window_def form_init_def on_playlist_def playlist_page_init_def
        download_click_def start_download_def Let_def int_entry_def py_int_def py_strip_def py_whitespace_def
        int_digits_ok.simps digits_value_def digit_val_def is_digit_def combo_current_text_def
        combo_set_current_text_def combo_set_current_index_def combo_add_items_def empty_combo_def
        get_quality_options_def get_default_quality_def example_app_def example_config_def format_items_def)
qed

lemma window_click_reach: "win_step\<^sup>*\<^sup>* (init_window example_app flaky_world) clicked_window"
  using window_type_example window_click_example by (meson r_into_rtranclp rtranclp.rtrancl_into_rtrancl)

theorem window_buttons_invariant_witness:
  "win_step\<^sup>*\<^sup>* (init_window example_app flaky_world) clicked_window \<and> \<not> dl_button clicked_window"
  using window_buttons_invariant [OF window_click_reach] window_click_reach
  by (simp add: clicked_window_def)

theorem window_returns_idle_witness:
  "win_step\<^sup>*\<^sup>* (init_window example_app flaky_world) clicked_window
   \<and> (\<exists>w'. win_step\<^sup>*\<^sup>* clicked_window w'
        \<and> dl_button w' \<and> cv_button w' \<and> dl_job w' = None \<and> cv_job w' = None
        \<and> api_jobs w' = 0 \<and> \<not> version_pending w' \<and> queue w' = [])"
  using window_returns_idle [OF window_click_reach] window_click_reach
  by auto

theorem stopped_download_reported_as_success_witness:
  "\<exists>w'. win_step\<^sup>*\<^sup>* stopped_window w' \<and> dl_job w' = None \<and> queue w' = [] \<and> dl_button w'
     \<and> \<not> dl_stop_button w' \<and> shown w' = [Notice_success]"
proof -
  have g: "fst (get_playlist_songs (app_config (win_app stopped_window)) ''3778678'' (win_world stopped_window))
      = Inr [scenario_song]"
    using scenario_run by (simp add: stopped_window_def init_window_def scenario_app_def)
  show ?thesis
    using stopped_download_reported_as_success [of stopped_window "''3778678''" "''/music''" "''standard''" 0 False 0
        "\<lambda>_. True", OF _ _ _ g]
    by (simp add: stopped_window_def init_window_def)
qed

end
