(* ===== verification/Json_Text.thy ===== *)
theory Json_Text
  imports Extract
begin

text \<open>
  JSON text as Python's \<open>json\<close> module reads and writes it, written from the module's
  documentation and its pure-Python implementation (\<open>json/encoder.py\<close>,
  \<open>json/decoder.py\<close>, \<open>json/scanner.py\<close>). A string is a list of bytes (UTF-8), as
  everywhere in the development. \<open>json_dump\<close> is \<open>json.dump(obj, f,
  ensure_ascii=False, indent=2)\<close>; \<open>json_load\<close> is \<open>json.load\<close> on the decoded
  text: a dict is built from the members, so a repeated key keeps its first position
  and its last value. Numbers with a fraction or an exponent, \<open>NaN\<close> and
  \<open>Infinity\<close> are floats, which the development does not model: the parser
  rejects them. The message of a \<open>JSONDecodeError\<close> (line and column) is not
  modelled.
\<close>

subsection \<open>Writing: \<open>json.dump(..., ensure_ascii=False, indent=2)\<close>\<close>

definition hex_digit :: "nat \<Rightarrow> char" where
  "hex_digit d = ''0123456789abcdef'' ! d"

text \<open>\<open>py_encode_basestring\<close>: the quote, the backslash and the control characters
  are escaped, \<open>\b \f \n \r \t\<close> by name and the others as \<open>\u00XX\<close>.\<close>

definition esc_char :: "char \<Rightarrow> string" where
  "esc_char c =
     (if c = CHR 0x22 then [CHR 0x5C, CHR 0x22]
      else if c = CHR 0x5C then [CHR 0x5C, CHR 0x5C]
      else if c = CHR 0x08 then [CHR 0x5C, CHR ''b'']
      else if c = CHR 0x0C then [CHR 0x5C, CHR ''f'']
      else if c = CHR 0x0A then [CHR 0x5C, CHR ''n'']
      else if c = CHR 0x0D then [CHR 0x5C, CHR ''r'']
      else if c = CHR 0x09 then [CHR 0x5C, CHR ''t'']
      else if of_char c < (32::nat)
      then [CHR 0x5C, CHR ''u'', CHR ''0'', CHR ''0'', hex_digit (of_char c div 16), hex_digit (of_char c mod 16)]
      else [c])"

definition dump_str :: "string \<Rightarrow> string" where
  "dump_str s = CHR 0x22 # concat (map esc_char s) @ [CHR 0x22]"

text \<open>\<open>'\n' + ' ' * (indent * level)\<close>.\<close>

definition newline_indent :: "nat \<Rightarrow> string" where
  "newline_indent l = CHR 0x0A # replicate (2 * l) CHR '' ''"

fun dump_value :: "nat \<Rightarrow> json \<Rightarrow> string"
  and dump_elems :: "nat \<Rightarrow> json list \<Rightarrow> string list"
  and dump_members :: "nat \<Rightarrow> (string \<times> json) list \<Rightarrow> string list" where
  "dump_value l JNull = ''null''"
| "dump_value l (JBool b) = (if b then ''true'' else ''false'')"
| "dump_value l (JInt i) = int_str i"
| "dump_value l (JStr s) = dump_str s"
| "dump_value l (JArr xs) =
     (if xs = [] then ''[]''
      else ''['' @ newline_indent (Suc l) @ py_join ('','' @ newline_indent (Suc l)) (dump_elems (Suc l) xs)
           @ newline_indent l @ '']'')"
| "dump_value l (JObj kvs) =
     (if kvs = [] then ''{}''
      else ''{'' @ newline_indent (Suc l) @ py_join ('','' @ newline_indent (Suc l)) (dump_members (Suc l) kvs)
           @ newline_indent l @ ''}'')"
| "dump_elems l [] = []"
| "dump_elems l (x # xs) = dump_value l x # dump_elems l xs"
| "dump_members l [] = []"
| "dump_members l ((k, v) # kvs) = (dump_str k @ '': '' @ dump_value l v) # dump_members l kvs"

definition json_dump :: "json \<Rightarrow> string" where
  "json_dump v = dump_value 0 v"

subsection \<open>Reading: \<open>json.load\<close>\<close>

text \<open>The JSON whitespace: space, tab, newline, carriage return.\<close>

definition json_ws :: "char \<Rightarrow> bool" where
  "json_ws c \<longleftrightarrow> c \<in> set [CHR '' '', CHR 0x09, CHR 0x0A, CHR 0x0D]"

definition skip_ws :: "string \<Rightarrow> string" where
  "skip_ws s = dropWhile json_ws s"

definition hex_val :: "char \<Rightarrow> nat option" where
  "hex_val c =
     (let n = of_char c :: nat in
      if 48 \<le> n \<and> n \<le> 57 then Some (n - 48)
      else if 97 \<le> n \<and> n \<le> 102 then Some (n - 87)
      else if 65 \<le> n \<and> n \<le> 70 then Some (n - 55)
      else None)"

text \<open>Four hex digits after \<open>\\u\<close>.\<close>

fun hex4 :: "string \<Rightarrow> nat option" where
  "hex4 (a # b # c # d # _) =
     (case (hex_val a, hex_val b, hex_val c, hex_val d) of
        (Some x, Some y, Some z, Some u) \<Rightarrow> Some (((x * 16 + y) * 16 + z) * 16 + u)
      | _ \<Rightarrow> None)"
| "hex4 _ = None"

text \<open>The UTF-8 bytes of a code point. A lone surrogate, which Python keeps in the
  string, gets the three-byte form.\<close>

definition utf8 :: "nat \<Rightarrow> string" where
  "utf8 n =
     (if n < 128 then [char_of n]
      else if n < 2048 then [char_of (192 + n div 64), char_of (128 + n mod 64)]
      else if n < 65536 then
        [char_of (224 + n div 4096), char_of (128 + n div 64 mod 64), char_of (128 + n mod 64)]
      else [char_of (240 + n div 262144), char_of (128 + n div 4096 mod 64),
            char_of (128 + n div 64 mod 64), char_of (128 + n mod 64)])"

text \<open>\<open>scanstring\<close> after the opening quote: the string and the rest after the
  closing quote. A raw control character is refused (\<open>strict=True\<close>); a high
  surrogate escape followed by a low one is one code point.\<close>

fun scan_string :: "string \<Rightarrow> (string \<times> string) option" where
  "scan_string [] = None"
| "scan_string (c # r) =
     (if c = CHR 0x22 then Some ([], r)
      else if c = CHR 0x5C then
        (case r of
           [] \<Rightarrow> None
         | e # r' \<Rightarrow>
             if e = CHR ''u'' then
               (case hex4 r' of
                  None \<Rightarrow> None
                | Some u \<Rightarrow>
                    if 55296 \<le> u \<and> u < 56320 \<and> take 2 (drop 4 r') = [CHR 0x5C, CHR ''u'']
                       \<and> (case hex4 (drop 6 r') of Some u2 \<Rightarrow> 56320 \<le> u2 \<and> u2 < 57344 | None \<Rightarrow> False)
                    then map_option (\<lambda>(t, q). (utf8 (65536 + (u - 55296) * 1024 + (the (hex4 (drop 6 r')) - 56320)) @ t, q))
                           (scan_string (drop 10 r'))
                    else map_option (\<lambda>(t, q). (utf8 u @ t, q)) (scan_string (drop 4 r')))
             else
               (case map_of [(CHR 0x22, CHR 0x22), (CHR 0x5C, CHR 0x5C), (CHR ''/'', CHR ''/''),
                             (CHR ''b'', CHR 0x08), (CHR ''f'', CHR 0x0C), (CHR ''n'', CHR 0x0A),
                             (CHR ''r'', CHR 0x0D), (CHR ''t'', CHR 0x09)] e of
                  None \<Rightarrow> None
                | Some d \<Rightarrow> map_option (\<lambda>(t, q). (d # t, q)) (scan_string r')))
      else if of_char c < (32::nat) then None
      else map_option (\<lambda>(t, q). (c # t, q)) (scan_string r))"

text \<open>\<open>NUMBER_RE = '(-?(?:0|[1-9]\\d*))(\\.\\d+)?([eE][-+]?\\d+)?'\<close>: the integer
  part, and whether a fraction or an exponent follows (a float).\<close>

definition float_follows :: "string \<Rightarrow> bool" where
  "float_follows r \<longleftrightarrow>
     (case r of
        c # d # _ \<Rightarrow>
          (c = CHR ''.'' \<and> is_digit d) \<or>
          (c \<in> {CHR ''e'', CHR ''E''} \<and>
             (is_digit d \<or> (d \<in> {CHR ''+'', CHR ''-''} \<and> drop 2 r \<noteq> [] \<and> is_digit (hd (drop 2 r)))))
      | _ \<Rightarrow> False)"

definition scan_number :: "string \<Rightarrow> (json \<times> string) option" where
  "scan_number s =
     (let neg = (take 1 s = ''-''); s1 = (if neg then drop 1 s else s);
          ds = (if take 1 s1 = ''0'' then ''0'' else takeWhile is_digit s1);
          r = drop (length ds) s1 in
      if ds = [] \<or> float_follows r then None
      else Some (JInt (if neg then - int (digits_value ds) else int (digits_value ds)), r))"

text \<open>The branches of \<open>scan_once\<close> for the literals and numbers.\<close>

definition scan_atom :: "string \<Rightarrow> (json \<times> string) option" where
  "scan_atom s =
     (if take 4 s = ''null'' then Some (JNull, drop 4 s)
      else if take 4 s = ''true'' then Some (JBool True, drop 4 s)
      else if take 5 s = ''false'' then Some (JBool False, drop 5 s)
      else if take 1 s = ''-'' \<or> (s \<noteq> [] \<and> is_digit (hd s)) then scan_number s
      else None)"

text \<open>\<open>scan_once\<close> for a value, \<open>JSONArray\<close> after the first element's start and
  \<open>JSONObject\<close> after the opening brace and white space. Each call spends one unit of
  fuel; \<open>json_load\<close> gives one more than the length of the text, which is enough
  (each call consumes a character).\<close>

fun scan_value :: "nat \<Rightarrow> string \<Rightarrow> (json \<times> string) option"
  and scan_elems :: "nat \<Rightarrow> string \<Rightarrow> (json list \<times> string) option"
  and scan_members :: "nat \<Rightarrow> string \<Rightarrow> ((string \<times> json) list \<times> string) option" where
  "scan_value 0 s = None"
| "scan_value (Suc n) s =
     (case s of
        [] \<Rightarrow> None
      | c # r \<Rightarrow>
          if c = CHR 0x22 then map_option (\<lambda>(t, q). (JStr t, q)) (scan_string r)
          else if c = CHR ''{'' then
            (let r' = skip_ws r in
             if take 1 r' = ''}'' then Some (JObj [], drop 1 r')
             else map_option (\<lambda>(kvs, q). (JObj (dict_items kvs), q)) (scan_members n r'))
          else if c = CHR ''['' then
            (let r' = skip_ws r in
             if take 1 r' = '']'' then Some (JArr [], drop 1 r')
             else map_option (\<lambda>(xs, q). (JArr xs, q)) (scan_elems n r'))
          else scan_atom s)"
| "scan_elems 0 s = None"
| "scan_elems (Suc n) s =
     (case scan_value n s of
        None \<Rightarrow> None
      | Some (v, r) \<Rightarrow>
          (let q = skip_ws r in
           if take 1 q = '']'' then Some ([v], drop 1 q)
           else if take 1 q = '','' then map_option (\<lambda>(vs, q'). (v # vs, q')) (scan_elems n (skip_ws (drop 1 q)))
           else None))"
| "scan_members 0 s = None"
| "scan_members (Suc n) s =
     (case s of
        c # r \<Rightarrow>
          if c \<noteq> CHR 0x22 then None
          else
            (case scan_string r of
               None \<Rightarrow> None
             | Some (k, r1) \<Rightarrow>
                 (let r2 = skip_ws r1 in
                  if take 1 r2 \<noteq> '':'' then None
                  else
                    (case scan_value n (skip_ws (drop 1 r2)) of
                       None \<Rightarrow> None
                     | Some (v, r3) \<Rightarrow>
                         (let q = skip_ws r3 in
                          if take 1 q = ''}'' then Some ([(k, v)], drop 1 q)
                          else if take 1 q = '','' then
                            map_option (\<lambda>(kvs, q'). ((k, v) # kvs, q')) (scan_members n (skip_ws (drop 1 q)))
                          else None))))
      | [] \<Rightarrow> None)"

definition bom :: string where
  "bom = [CHR 0xEF, CHR 0xBB, CHR 0xBF]"

text \<open>\<open>json.loads\<close>: a leading byte-order mark is refused; white space may surround the
  value; anything else after it is \<open>Extra data\<close>.\<close>

definition json_load :: "string \<Rightarrow> exn + json" where
  "json_load s =
     (if take 3 s = bom then Inl (JSONDecodeError ''Unexpected UTF-8 BOM (decode using utf-8-sig)'')
      else
        (case scan_value (Suc (length s)) (skip_ws s) of
           None \<Rightarrow> Inl (JSONDecodeError ''Expecting value'')
         | Some (v, r) \<Rightarrow> if skip_ws r = [] then Inr v else Inl (JSONDecodeError ''Extra data'')))"

subsection \<open>Well-formed values\<close>

text \<open>The values \<open>json.load\<close> can return: every object has distinct keys, as a
  Python dict has.\<close>

fun wf_json :: "json \<Rightarrow> bool"
  and wf_elems :: "json list \<Rightarrow> bool"
  and wf_members :: "(string \<times> json) list \<Rightarrow> bool" where
  "wf_json (JArr xs) = wf_elems xs"
| "wf_json (JObj kvs) = (distinct (map fst kvs) \<and> wf_members kvs)"
| "wf_json _ = True"
| "wf_elems [] = True"
| "wf_elems (x # xs) = (wf_json x \<and> wf_elems xs)"
| "wf_members [] = True"
| "wf_members ((k, v) # kvs) = (wf_json v \<and> wf_members kvs)"

text \<open>What may follow a value in dumped text: nothing, a separator, a closing
  bracket or white space.\<close>

definition stop_char :: "string \<Rightarrow> bool" where
  "stop_char r \<longleftrightarrow> r = [] \<or> hd r \<in> {CHR '','', CHR '']'', CHR ''}''} \<or> json_ws (hd r)"

abbreviation sep_of :: "nat \<Rightarrow> string" where
  "sep_of l \<equiv> CHR '','' # newline_indent l"

subsection \<open>Lemmas\<close>

lemma hex_val_hex_digit: "d < 16 \<Longrightarrow> hex_val (hex_digit d) = Some d"
  by (simp add: hex_digit_def hex_val_def numeral_eq_Suc less_Suc_eq) (elim disjE; simp)

lemma esc_scan: "scan_string (esc_char c @ r) = map_option (\<lambda>(t, q). (c # t, q)) (scan_string r)"
proof -
  consider "of_char c < (32::nat)" | "\<not> of_char c < (32::nat)" by blast
  then show ?thesis
  proof cases
    case 1
    define n where "n = (of_char c :: nat)"
    have n16: "n div 16 < 16" "n mod 16 < 16" using 1 by (simp_all add: n_def)
    have hx: "hex4 (CHR ''0'' # CHR ''0'' # hex_digit (n div 16) # hex_digit (n mod 16) # r) = Some n"
    proof -
      have "hex_val CHR ''0'' = Some 0" by (simp add: hex_val_def)
      then show ?thesis by (simp add: hex_val_hex_digit [OF n16(1)] hex_val_hex_digit [OF n16(2)])
    qed
    have u: "utf8 n = [c]" using 1 by (simp add: utf8_def n_def)
    show ?thesis using 1 hx u unfolding esc_char_def n_def [symmetric]
      by (auto simp: n_def)
  next
    case 2
    then show ?thesis by (auto simp: esc_char_def)
  qed
qed

lemma scan_dump_str: "scan_string (concat (map esc_char s) @ CHR 0x22 # r) = Some (s, r)"
  by (induction s) (simp_all add: esc_scan)

lemma skip_ws_stop: "t = [] \<or> \<not> json_ws (hd t) \<Longrightarrow> skip_ws t = t"
  by (cases t) (simp_all add: skip_ws_def)

lemma skip_ws_append: "list_all json_ws w \<Longrightarrow> skip_ws (w @ t) = skip_ws t"
  by (induction w) (simp_all add: skip_ws_def)

lemma newline_indent_ws: "list_all json_ws (newline_indent l)"
  by (simp add: newline_indent_def json_ws_def list_all_iff)

lemma nat_str_zero: "nat_str 0 = ''0''"
  by (simp add: nat_str.simps [of 0] digit_char_def)

lemma nat_str_lead: "take 1 (nat_str n) = ''0'' \<Longrightarrow> n = 0"
proof (induction n rule: nat_str.induct)
  case (1 n)
  show ?case
  proof (cases "n < 10")
    case True
    with 1(2) have "digit_char n = CHR ''0''" by (simp add: nat_str.simps [of n])
    then have "digit_val (digit_char n) = 0" by (simp add: digit_val_def)
    with True show ?thesis by (simp add: digit_val_char)
  next
    case False
    have "nat_str (n div 10) \<noteq> []" using nat_str_digits by blast
    then have l: "Suc 0 - length (nat_str (n div 10)) = 0" by (cases "nat_str (n div 10)") simp_all
    with 1(2) False have "take 1 (nat_str (n div 10)) = ''0''" by (simp add: nat_str.simps [of n])
    with 1(1) False have "n div 10 = 0" by blast
    with False show ?thesis by simp
  qed
qed

lemma scan_nat_str:
  assumes "stop_char r"
  shows "take 1 (nat_str n @ r) = ''0'' \<Longrightarrow> nat_str n = ''0''"
    and "takeWhile is_digit (nat_str n @ r) = nat_str n"
    and "\<not> float_follows r"
proof -
  have "takeWhile is_digit r = []"
    using assms by (cases r) (auto simp: stop_char_def is_digit_def json_ws_def)
  then show "takeWhile is_digit (nat_str n @ r) = nat_str n"
    using nat_str_digits [of n] by (simp add: takeWhile_append2 list_all_iff)
  show "\<not> float_follows r"
  proof (cases r)
    case (Cons c r')
    with assms have "c \<in> {CHR '','', CHR '']'', CHR ''}'', CHR '' '', CHR 0x09, CHR 0x0A, CHR 0x0D}"
      by (auto simp: stop_char_def json_ws_def)
    with Cons show ?thesis by (cases r') (auto simp: float_follows_def)
  qed (simp add: float_follows_def)
  assume "take 1 (nat_str n @ r) = ''0''"
  then have "take 1 (nat_str n) = ''0''" using nat_str_digits [of n] by (cases "nat_str n") auto
  then have "n = 0" by (rule nat_str_lead)
  then show "nat_str n = ''0''" by (simp add: nat_str_zero)
qed

lemma scan_int_str:
  assumes "stop_char r"
  shows "scan_number (int_str i @ r) = Some (JInt i, r)"
proof -
  have ne: "nat_str m \<noteq> []" for m using nat_str_digits by blast
  have hd: "take 1 (nat_str m @ r) \<noteq> ''-''" for m
    using nat_str_digits [of m] by (cases "nat_str m") (auto simp: is_digit_def)
  have num: "scan_number (nat_str m @ r) = Some (JInt (int m), r)" if "take 1 (nat_str m @ r) \<noteq> ''-''" for m
  proof (cases "take 1 (nat_str m @ r) = ''0''")
    case True
    with scan_nat_str(1) [OF assms] have "nat_str m = ''0''" by blast
    moreover from this have "m = 0" using digits_value_nat_str [of m] digits_value_nat_str [of 0]
      by (simp add: nat_str_zero)
    ultimately show ?thesis using that scan_nat_str(3) [OF assms] digits_value_nat_str [of 0]
      by (simp add: scan_number_def Let_def nat_str_zero)
  next
    case False
    with that show ?thesis using scan_nat_str(2,3) [OF assms] digits_value_nat_str [of m] ne [of m]
      by (simp add: scan_number_def Let_def)
  qed
  show ?thesis
  proof (cases "i < 0")
    case True
    have "take 1 (nat_str (nat (- i)) @ r) \<noteq> ''0''"
    proof
      assume "take 1 (nat_str (nat (- i)) @ r) = ''0''"
      with scan_nat_str(1) [OF assms] have "nat_str (nat (- i)) = ''0''" by blast
      then have "nat (- i) = 0" using digits_value_nat_str [of "nat (- i)"] digits_value_nat_str [of 0]
        by (simp add: nat_str_zero)
      with True show False by simp
    qed
    with True show ?thesis using scan_nat_str(2,3) [OF assms] digits_value_nat_str [of "nat (- i)"] ne
      by (simp add: scan_number_def int_str_def Let_def)
  next
    case False
    with num [OF hd] show ?thesis by (simp add: int_str_def)
  qed
qed

lemma dump_value_start:
  "\<exists>c t. dump_value l v = c # t \<and> \<not> json_ws c \<and> c \<noteq> CHR '']'' \<and> c \<noteq> CHR ''}'' \<and> c \<noteq> CHR 0xEF"
proof (cases v)
  case (JInt i)
  obtain d ds where "nat_str (nat (if i < 0 then - i else i)) = d # ds" and "is_digit d"
    using nat_str_digits [of "nat (if i < 0 then - i else i)"] by (cases "nat_str (nat (if i < 0 then - i else i))") auto
  with JInt show ?thesis by (auto simp: int_str_def json_ws_def is_digit_def)
qed (auto simp: json_ws_def dump_str_def)

lemma skip_ws_dump: "skip_ws (dump_value l v @ r) = dump_value l v @ r"
  using dump_value_start [of l v] by (auto intro: skip_ws_stop)

lemma dict_items_distinct: "distinct (map fst kvs) \<Longrightarrow> dict_items kvs = kvs"
proof -
  assume d: "distinct (map fst kvs)"
  then have dr: "distinct (map fst (rev kvs))" by (simp add: rev_map [symmetric])
  have m: "map_of (rev kvs) k = Some v \<longleftrightarrow> (k, v) \<in> set kvs" for k v
    using map_of_eq_Some_iff [OF dr] by simp
  have "map ((\<lambda>k. (k, the (map_of (rev kvs) k))) \<circ> fst) kvs = kvs"
  proof (rule map_idI)
    fix kv assume "kv \<in> set kvs"
    then have "map_of (rev kvs) (fst kv) = Some (snd kv)" by (simp add: m)
    then show "((\<lambda>k. (k, the (map_of (rev kvs) k))) \<circ> fst) kv = kv" by simp
  qed
  with d show ?thesis by (simp add: dict_items_def distinct_remdups_id)
qed

lemma json_ws_closers [simp]:
  "\<not> json_ws CHR '']''" "\<not> json_ws CHR ''}''" "\<not> json_ws CHR '':''" "\<not> json_ws CHR 0x22" "\<not> json_ws CHR '',''"
  by (simp_all add: json_ws_def)

lemma skip_ws_ws_char: "list_all json_ws w \<Longrightarrow> \<not> json_ws c \<Longrightarrow> skip_ws (w @ c # r) = c # r"
  by (simp add: skip_ws_append skip_ws_stop)

lemma stop_char_ws: "list_all json_ws w \<Longrightarrow> stop_char (w @ c # r) \<longleftrightarrow> stop_char (c # r) \<or> w \<noteq> []"
  by (cases w) (auto simp: stop_char_def)

lemma stop_char_close: "list_all json_ws w \<Longrightarrow> c \<in> {CHR '']'', CHR ''}''} \<Longrightarrow> stop_char (w @ c # r)"
  by (cases w) (auto simp: stop_char_def)

lemma stop_char_sep: "stop_char (sep_of l @ r)"
  by (simp add: stop_char_def)

lemma join_start:
  "xs \<noteq> [] \<Longrightarrow> \<exists>c t. py_join (sep_of l) (dump_elems l xs) = c # t \<and> \<not> json_ws c \<and> c \<noteq> CHR '']'' \<and> c \<noteq> CHR ''}''"
proof (cases xs)
  case (Cons x xs')
  obtain c t where "dump_value l x = c # t" "\<not> json_ws c" "c \<noteq> CHR '']''" "c \<noteq> CHR ''}''"
    using dump_value_start by blast
  with Cons show ?thesis by (cases xs') auto
qed simp

lemma members_start:
  "kvs \<noteq> [] \<Longrightarrow> \<exists>t. py_join (sep_of l) (dump_members l kvs) = CHR 0x22 # t"
  by (cases kvs; cases "tl kvs") (auto simp: dump_str_def)

lemma scan_dump:
  "wf_json v \<Longrightarrow> length (dump_value l v) \<le> n \<Longrightarrow> stop_char r \<Longrightarrow>
     scan_value n (dump_value l v @ r) = Some (v, r)"
  "wf_elems xs \<Longrightarrow> xs \<noteq> [] \<Longrightarrow> length (py_join (sep_of l) (dump_elems l xs)) < n \<Longrightarrow> list_all json_ws w \<Longrightarrow>
     scan_elems n (py_join (sep_of l) (dump_elems l xs) @ w @ CHR '']'' # r) = Some (xs, r)"
  "wf_members kvs \<Longrightarrow> kvs \<noteq> [] \<Longrightarrow> length (py_join (sep_of l) (dump_members l kvs)) < n \<Longrightarrow> list_all json_ws w \<Longrightarrow>
     scan_members n (py_join (sep_of l) (dump_members l kvs) @ w @ CHR ''}'' # r) = Some (kvs, r)"
proof (induction l v and l xs and l kvs arbitrary: n r and n w r and n w r
    rule: dump_value_dump_elems_dump_members.induct)
  case (1 l)
  then obtain m where "n = Suc m" by (cases n) auto
  then show ?case by (simp add: scan_atom_def)
next
  case (2 l b)
  then obtain m where "n = Suc m" by (cases n) (auto split: if_splits)
  then show ?case by (simp add: scan_atom_def)
next
  case (3 l i)
  then obtain m where n: "n = Suc m" using dump_value_start [of l "JInt i"] by (cases n) auto
  obtain c t where ct: "dump_value l (JInt i) = c # t" "\<not> json_ws c" "c \<noteq> CHR '']''" "c \<noteq> CHR ''}''"
    using dump_value_start by blast
  have c: "c = CHR ''-'' \<or> is_digit c"
    using ct(1) nat_str_digits [of "nat (- i)"] nat_str_digits [of "nat i"]
    by (cases "nat_str (nat (- i))"; cases "nat_str (nat i)") (auto simp: int_str_def split: if_splits)
  then have "c \<noteq> CHR 0x22 \<and> c \<noteq> CHR ''{'' \<and> c \<noteq> CHR ''['' \<and> c \<noteq> CHR ''n'' \<and> c \<noteq> CHR ''t'' \<and> c \<noteq> CHR ''f''"
    by (auto simp: is_digit_def)
  with c ct(1) n scan_int_str [OF 3(3), of i] show ?case by (auto simp: scan_atom_def)
next
  case (4 l s)
  then obtain m where "n = Suc m" using dump_value_start [of l "JStr s"] by (cases n) auto
  then show ?case by (simp add: dump_str_def scan_dump_str)
next
  case (5 l xs)
  then obtain m where n: "n = Suc m" using dump_value_start [of l "JArr xs"] by (cases n) auto
  show ?case
  proof (cases "xs = []")
    case True
    with n show ?thesis by (simp add: skip_ws_def json_ws_def)
  next
    case False
    let ?J = "py_join (sep_of (Suc l)) (dump_elems (Suc l) xs)"
    obtain c t where ct: "?J = c # t" "\<not> json_ws c" "c \<noteq> CHR '']''"
      using join_start [OF False] by blast
    have sk: "skip_ws (newline_indent (Suc l) @ ?J @ newline_indent l @ CHR '']'' # r) = ?J @ newline_indent l @ CHR '']'' # r"
      using ct by (simp add: skip_ws_append newline_indent_ws skip_ws_stop)
    have "length ?J < m" using 5(3) n False by (simp add: newline_indent_def)
    from 5(1) [OF False _ _ this newline_indent_ws] 5(2) have
      "scan_elems m (?J @ newline_indent l @ CHR '']'' # r) = Some (xs, r)" using False by simp
    with n False sk ct show ?thesis by simp
  qed
next
  case (6 l kvs)
  then obtain m where n: "n = Suc m" using dump_value_start [of l "JObj kvs"] by (cases n) auto
  show ?case
  proof (cases "kvs = []")
    case True
    with n show ?thesis by (simp add: skip_ws_def json_ws_def)
  next
    case False
    let ?J = "py_join (sep_of (Suc l)) (dump_members (Suc l) kvs)"
    obtain t where t: "?J = CHR 0x22 # t" using members_start [OF False] by blast
    have sk: "skip_ws (newline_indent (Suc l) @ ?J @ newline_indent l @ CHR ''}'' # r) = ?J @ newline_indent l @ CHR ''}'' # r"
      using t by (simp add: skip_ws_append newline_indent_ws skip_ws_stop json_ws_def)
    have "length ?J < m" using 6(3) n False by (simp add: newline_indent_def)
    from 6(1) [OF False _ False this newline_indent_ws] 6(2) have
      "scan_members m (?J @ newline_indent l @ CHR ''}'' # r) = Some (kvs, r)" using False by simp
    with n False sk t 6(2) show ?thesis by (simp add: dict_items_distinct)
  qed
next
  case (7 l)
  then show ?case by simp
next
  case (8 l x xs)
  then obtain m where n: "n = Suc m" by (cases n) auto
  show ?case
  proof (cases "xs = []")
    case True
    have "scan_value m (dump_value l x @ w @ CHR '']'' # r) = Some (x, w @ CHR '']'' # r)"
      using 8(1) [of m "w @ CHR '']'' # r"] 8(3,4,5,6) True n by (simp add: stop_char_close)
    moreover have "skip_ws (w @ CHR '']'' # r) = CHR '']'' # r"
      using 8(6) by (simp add: skip_ws_ws_char)
    ultimately show ?thesis using True n by simp
  next
    case False
    let ?J = "py_join (sep_of l) (dump_elems l xs)"
    have j: "py_join (sep_of l) (dump_elems l (x # xs)) = dump_value l x @ sep_of l @ ?J"
      using False by (cases xs) auto
    have "scan_value m (dump_value l x @ sep_of l @ ?J @ w @ CHR '']'' # r) = Some (x, sep_of l @ ?J @ w @ CHR '']'' # r)"
      using 8(1) [of m "sep_of l @ ?J @ w @ CHR '']'' # r"] 8(3) 8(5) n j by (simp add: stop_char_def)
    moreover obtain c t where ct: "?J = c # t" "\<not> json_ws c" using join_start [OF False] by blast
    moreover have "scan_elems m (?J @ w @ CHR '']'' # r) = Some (xs, r)"
      using 8(2) [OF _ False _ 8(6)] 8(3) 8(5) n j by simp
    ultimately show ?thesis using n j
      by (simp add: skip_ws_append newline_indent_ws skip_ws_stop)
  qed
next
  case (9 l)
  then show ?case by simp
next
  case (10 l k v kvs)
  then obtain m where n: "n = Suc m" by (cases n) auto
  let ?rest = "(if kvs = [] then w @ CHR ''}'' # r else sep_of l @ py_join (sep_of l) (dump_members l kvs) @ w @ CHR ''}'' # r)"
  have j: "py_join (sep_of l) (dump_members l ((k, v) # kvs)) @ w @ CHR ''}'' # r
      = CHR 0x22 # concat (map esc_char k) @ CHR 0x22 # CHR '':'' # CHR '' '' # dump_value l v @ ?rest"
    by (cases kvs) (auto simp: dump_str_def)
  have st: "stop_char ?rest"
  proof (cases "kvs = []")
    case True
    then show ?thesis using stop_char_close [OF 10(6), of "CHR ''}''" r] by simp
  next
    case False
    then show ?thesis by (simp add: stop_char_def)
  qed
  have len: "length (dump_value l v) \<le> m"
    using 10(5) n by (cases kvs) (auto simp: dump_str_def)
  have sv: "scan_value m (dump_value l v @ ?rest) = Some (v, ?rest)"
    using 10(1) [OF _ len st] 10(3) by simp
  have sk1: "skip_ws (CHR '':'' # CHR '' '' # dump_value l v @ ?rest) = CHR '':'' # CHR '' '' # dump_value l v @ ?rest"
    by (simp add: skip_ws_stop json_ws_def)
  have sk2: "skip_ws (CHR '' '' # dump_value l v @ ?rest) = dump_value l v @ ?rest"
    using skip_ws_dump [of l v ?rest] by (simp add: skip_ws_def json_ws_def)
  show ?case
  proof (cases "kvs = []")
    case True
    have "skip_ws (w @ CHR ''}'' # r) = CHR ''}'' # r"
      using 10(6) by (simp add: skip_ws_ws_char)
    with True n j sv sk1 sk2 show ?thesis by (simp add: scan_dump_str)
  next
    case False
    obtain t where t: "py_join (sep_of l) (dump_members l kvs) = CHR 0x22 # t" using members_start [OF False] by blast
    have dm: "dump_members l kvs \<noteq> []" using False by (cases kvs) auto
    have lm: "length (py_join (sep_of l) (dump_members l kvs)) < m"
      using 10(5) n dm by (simp add: py_join_Cons)
    have "scan_members m (py_join (sep_of l) (dump_members l kvs) @ w @ CHR ''}'' # r) = Some (kvs, r)"
      using 10(2) [OF _ False lm 10(6)] 10(3) by simp
    with False n j sv sk1 sk2 t show ?thesis
      by (simp add: scan_dump_str skip_ws_append newline_indent_ws skip_ws_stop json_ws_def)
  qed
qed

lemma load_dump_wf: "wf_json v \<Longrightarrow> json_load (json_dump v) = Inr v"
proof -
  assume wf: "wf_json v"
  obtain c t where ct: "dump_value 0 v = c # t" "c \<noteq> CHR 0xEF" using dump_value_start by blast
  have "take 3 (json_dump v) \<noteq> bom" using ct by (simp add: json_dump_def bom_def)
  moreover have "scan_value (Suc (length (json_dump v))) (dump_value 0 v @ []) = Some (v, [])"
    using scan_dump(1) [OF wf, of 0 "Suc (length (json_dump v))" "[]"] by (simp add: json_dump_def stop_char_def)
  ultimately show ?thesis
    using skip_ws_dump [of 0 v "[]"] by (simp add: json_load_def json_dump_def skip_ws_def)
qed

lemma wf_elems_iff: "wf_elems xs = list_all wf_json xs"
  by (induction xs) auto

lemma wf_members_iff: "wf_members kvs = (\<forall>kv \<in> set kvs. wf_json (snd kv))"
  by (induction kvs) auto

lemma dict_items_wf:
  "wf_members kvs \<Longrightarrow> distinct (map fst (dict_items kvs)) \<and> wf_members (dict_items kvs)"
proof -
  assume w: "wf_members kvs"
  have "map fst (dict_items kvs) = remdups (map fst kvs)" by (simp add: dict_items_def comp_def)
  moreover have "kv \<in> set kvs" if "kv \<in> set (dict_items kvs)" for kv
  proof -
    from that obtain k where k: "k \<in> fst ` set kvs" "kv = (k, the (map_of (rev kvs) k))"
      by (auto simp: dict_items_def)
    then obtain u where "map_of (rev kvs) k = Some u" by (cases "map_of (rev kvs) k") (auto simp: map_of_eq_None_iff)
    with k show ?thesis by (auto dest: map_of_SomeD)
  qed
  ultimately show ?thesis using w by (auto simp: wf_members_iff)
qed

lemma scan_number_int: "scan_number s = Some (v, r) \<Longrightarrow> wf_json v"
  by (auto simp: scan_number_def Let_def split: if_splits)

lemma scan_wf:
  "scan_value n s = Some (v, r) \<Longrightarrow> wf_json v"
  "scan_elems n s = Some (xs, r) \<Longrightarrow> wf_elems xs"
  "scan_members n s = Some (kvs, r) \<Longrightarrow> wf_members kvs"
proof (induction n s and n s and n s arbitrary: v r and xs r and kvs r rule: scan_value_scan_elems_scan_members.induct)
  case (2 n s)
  then obtain c q where s: "s = c # q" by (cases s) auto
  have e: "scan_value (Suc n) (c # q) = Some (v, r)" using 2(3) s by simp
  show ?case
  proof (cases "c = CHR 0x22")
    case True
    with e show ?thesis by (auto simp: map_option_eq_Some)
  next
    case nq: False
    show ?thesis
    proof (cases "c = CHR ''{''")
      case ob: True
      show ?thesis
      proof (cases "take 1 (skip_ws q) = ''}''")
        case True
        with e nq ob show ?thesis by auto
      next
        case False
        with e nq ob obtain kvs r' where m: "scan_members n (skip_ws q) = Some (kvs, r')"
          and v: "v = JObj (dict_items kvs)" by (auto simp: Let_def map_option_eq_Some)
        have "wf_members kvs" using 2(1) s nq ob False m by blast
        with v dict_items_wf show ?thesis by simp
      qed
    next
      case nob: False
      show ?thesis
      proof (cases "c = CHR ''[''")
        case ar: True
        show ?thesis
        proof (cases "take 1 (skip_ws q) = '']''")
          case True
          with e nq nob ar show ?thesis by auto
        next
          case False
          with e nq nob ar obtain xs r' where m: "scan_elems n (skip_ws q) = Some (xs, r')"
            and v: "v = JArr xs" by (auto simp: Let_def map_option_eq_Some)
          have "wf_elems xs" using 2(2) s nq nob ar False m by blast
          with v show ?thesis by simp
        qed
      next
        case False
        with e nq nob have "scan_atom (c # q) = Some (v, r)" by simp
        then show ?thesis by (auto simp: scan_atom_def split: if_splits dest: scan_number_int)
      qed
    qed
  qed
next
  case (4 n s)
  then show ?case
    by (auto simp: Let_def map_option_eq_Some split: if_splits option.splits)
next
  case (6 n s)
  then obtain c q where s: "s = c # q" by (cases s) auto
  from 6 show ?case
    unfolding s by (auto simp: Let_def map_option_eq_Some split: if_splits option.splits)
qed simp_all

lemma json_load_wf: "json_load s = Inr v \<Longrightarrow> wf_json v"
proof -
  assume "json_load s = Inr v"
  then obtain r where "scan_value (Suc (length s)) (skip_ws s) = Some (v, r)"
    by (auto simp: json_load_def simp del: scan_value.simps split: if_splits option.splits)
  then show ?thesis by (rule scan_wf(1))
qed


subsection \<open>Witnesses\<close>


end
