(* ===== verification/Config_File.thy ===== *)
theory Config_File
  imports Json_Text Converter
begin

text \<open>
  The configuration file of \<open>APIHandler\<close> (\<open>src/utils/api.py\<close>): \<open>load_config\<close>,
  which \<open>__init__\<close> calls with \<open>'config.json'\<close>, and the two accessors and the
  setter that work on the loaded document \<open>self.config\<close>. The document is a
  \<open>json\<close> value; relative paths are opened in the working directory \<open>cwd\<close> of the
  process environment. \<open>set_request_interval\<close> changes the document in memory and
  rewrites \<open>config.json\<close> in the working directory. A failure of \<open>open(..., 'w')\<close>
  is not modelled.
\<close>

definition config_json :: path where
  "config_json = ''config.json''"

text \<open>\<open>open(p)\<close> of a relative or absolute path.\<close>

definition open_path :: "locator_env \<Rightarrow> path \<Rightarrow> path" where
  "open_path env p = path_join (cwd env) p"

text \<open>\<open>load_config(config_path)\<close>: in the packaged program (\<open>sys._MEIPASS\<close> set) the
  path is taken inside the bundle; the file is read and parsed.\<close>

definition load_config :: "locator_env \<Rightarrow> path \<Rightarrow> world \<Rightarrow> exn + json" where
  "load_config env config_path w =
     (let p = (case meipass env of Some m \<Rightarrow> path_join m config_path | None \<Rightarrow> config_path) in
      case files w (open_path env p) of
        None \<Rightarrow> Inl (FileNotFoundError (''[Errno 2] No such file or directory: '' @ py_repr_str p))
      | Some text \<Rightarrow> json_load text)"

text \<open>\<open>APIHandler()\<close>.\<close>

definition api_handler_init :: "locator_env \<Rightarrow> world \<Rightarrow> exn + json" where
  "api_handler_init env w = load_config env config_json w"

text \<open>\<open>self.config['apis']['song_download']\<close>.\<close>

definition song_download_doc :: "json \<Rightarrow> exn + json" where
  "song_download_doc d = (case py_getitem d ''apis'' of Inl e \<Rightarrow> Inl e | Inr a \<Rightarrow> py_getitem a ''song_download'')"

text \<open>\<open>get_request_interval\<close>: \<open>.get('request_interval', 1000)\<close> of that dict.\<close>

definition doc_request_interval :: "json \<Rightarrow> exn + json" where
  "doc_request_interval d =
     (case song_download_doc d of Inl e \<Rightarrow> Inl e | Inr s \<Rightarrow> py_dict_get s ''request_interval'' (JInt 1000))"

text \<open>\<open>get_quality_options\<close> and \<open>get_default_quality\<close>.\<close>

definition doc_quality_options :: "json \<Rightarrow> exn + json" where
  "doc_quality_options d =
     (case song_download_doc d of Inl e \<Rightarrow> Inl e | Inr s \<Rightarrow> py_getitem s ''quality_options'')"

definition doc_default_quality :: "json \<Rightarrow> exn + json" where
  "doc_default_quality d =
     (case song_download_doc d of Inl e \<Rightarrow> Inl e | Inr s \<Rightarrow> py_getitem s ''default_quality'')"

text \<open>\<open>x[k] = v\<close> for a string key: a dict keeps the key's position or appends it.\<close>

fun py_setitem :: "json \<Rightarrow> string \<Rightarrow> json \<Rightarrow> exn + json" where
  "py_setitem (JObj kvs) k v =
     Inr (JObj (if k \<in> set (map fst kvs) then map (\<lambda>(k', v'). if k' = k then (k', v) else (k', v')) kvs
                else kvs @ [(k, v)]))"
| "py_setitem (JArr _) k v = Inl (TypeError ''list indices must be integers or slices, not str'')"
| "py_setitem x k v = Inl (TypeError (quoted (type_name x) @ '' object does not support item assignment''))"

text \<open>\<open>self.config['apis']['song_download']['request_interval'] = interval\<close>: the
  document after the assignment. The two dicts on the way are looked up first, so a
  missing key raises before anything changes.\<close>

definition set_interval_doc :: "int \<Rightarrow> json \<Rightarrow> exn + json" where
  "set_interval_doc i d =
     (case py_getitem d ''apis'' of
        Inl e \<Rightarrow> Inl e
      | Inr a \<Rightarrow>
          (case py_getitem a ''song_download'' of
             Inl e \<Rightarrow> Inl e
           | Inr s \<Rightarrow>
               (case py_setitem s ''request_interval'' (JInt i) of
                  Inl e \<Rightarrow> Inl e
                | Inr s' \<Rightarrow>
                    (case py_setitem a ''song_download'' s' of
                       Inl e \<Rightarrow> Inl e
                     | Inr a' \<Rightarrow> py_setitem d ''apis'' a'))))"

text \<open>\<open>with open('config.json', 'w', encoding='utf-8') as f: json.dump(self.config, f,
  ensure_ascii=False, indent=2)\<close>.\<close>

definition save_config :: "locator_env \<Rightarrow> json \<Rightarrow> world \<Rightarrow> world" where
  "save_config env d w = w\<lparr>files := (files w)(open_path env config_json \<mapsto> json_dump d)\<rparr>"

definition set_request_interval_file :: "locator_env \<Rightarrow> int \<Rightarrow> json \<Rightarrow> world \<Rightarrow> (exn + json) \<times> world" where
  "set_request_interval_file env i d w =
     (case set_interval_doc i d of
        Inl e \<Rightarrow> (Inl e, w)
      | Inr d' \<Rightarrow> (Inr d', save_config env d' w))"

subsection \<open>Examples\<close>

text \<open>A development run in \<open>/app\<close>, the same program packaged with its bundle in
  \<open>/bundle\<close>, and a configuration with a 1000 ms interval in each place.\<close>

definition dev_env :: locator_env where
  "dev_env = \<lparr>meipass = None, cwd = ''/app'', module_dir = ''/app/src/utils'', env_path = None\<rparr>"

definition bundled_env :: locator_env where
  "bundled_env = dev_env\<lparr>meipass := Some ''/bundle''\<rparr>"

definition example_doc :: json where
  "example_doc = JObj [(''apis'', JObj [(''song_download'', JObj [(''request_interval'', JInt 1000)])])]"

definition config_world :: world where
  "config_world = flaky_world\<lparr>files := [''/app/config.json'' \<mapsto> json_dump example_doc,
     ''/bundle/config.json'' \<mapsto> json_dump example_doc]\<rparr>"

subsection \<open>Lemmas\<close>

lemma py_getitem_wf: "wf_json x \<Longrightarrow> py_getitem x k = Inr v \<Longrightarrow> wf_json v"
proof (cases x)
  case (JObj kvs)
  assume "wf_json x" and g: "py_getitem x k = Inr v"
  with JObj have "map_of (rev kvs) k = Some v" by (simp add: obj_lookup_def split: option.splits)
  then have "(k, v) \<in> set kvs" by (auto dest: map_of_SomeD)
  with \<open>wf_json x\<close> JObj show ?thesis by (auto simp: wf_members_iff)
qed auto

lemma py_setitem_wf: "wf_json x \<Longrightarrow> wf_json v \<Longrightarrow> py_setitem x k v = Inr x' \<Longrightarrow> wf_json x'"
proof (cases x)
  case (JObj kvs)
  assume w: "wf_json x" "wf_json v" and s: "py_setitem x k v = Inr x'"
  let ?f = "\<lambda>(k', v'). if k' = k then (k', v) else (k', v')"
  show ?thesis
  proof (cases "k \<in> set (map fst kvs)")
    case True
    have x': "x' = JObj (map ?f kvs)" using s JObj True by auto
    have keys: "map fst (map ?f kvs) = map fst kvs" by (induction kvs) auto
    have d: "distinct (map fst (map ?f kvs))" unfolding keys using w JObj by simp
    have m: "wf_members (map ?f kvs)" using w JObj by (auto simp: wf_members_iff)
    show ?thesis using x' d m by simp
  next
    case False
    have x': "x' = JObj (kvs @ [(k, v)])" using s JObj False by auto
    have m: "wf_members (kvs @ [(k, v)])" using w JObj by (auto simp: wf_members_iff)
    show ?thesis using x' m w JObj False by simp
  qed
qed auto

lemma map_of_all_same:
  "k \<in> fst ` set ys \<Longrightarrow> (\<forall>(k', v') \<in> set ys. k' = k \<longrightarrow> v' = v) \<Longrightarrow> map_of ys k = Some v"
  by (induction ys) auto

lemma py_setitem_getitem: "py_setitem x k v = Inr x' \<Longrightarrow> py_getitem x' k = Inr v"
proof (cases x)
  case (JObj kvs)
  assume s: "py_setitem x k v = Inr x'"
  have "map_of (rev (map (\<lambda>(k', v'). if k' = k then (k', v) else (k', v')) kvs)) k = Some v"
    if "k \<in> set (map fst kvs)"
    using that by (intro map_of_all_same) (force simp: image_iff split: if_splits)+
  with s JObj show ?thesis by (auto simp: obj_lookup_def map_of_append split: if_splits)
qed auto

lemma py_setitem_dict: "py_setitem x k v = Inr x' \<Longrightarrow> \<exists>kvs. x' = JObj kvs"
  by (cases x) auto

lemma set_interval_doc_parts:
  assumes "set_interval_doc i d = Inr d'"
  obtains a s s' a' where "py_getitem d ''apis'' = Inr a" and "py_getitem a ''song_download'' = Inr s"
    and "py_setitem s ''request_interval'' (JInt i) = Inr s'" and "py_setitem a ''song_download'' s' = Inr a'"
    and "py_setitem d ''apis'' a' = Inr d'"
  using assms by (auto simp: set_interval_doc_def split: sum.splits)

lemma set_interval_doc_wf: "wf_json d \<Longrightarrow> set_interval_doc i d = Inr d' \<Longrightarrow> wf_json d'"
proof -
  assume w: "wf_json d" and h: "set_interval_doc i d = Inr d'"
  from h obtain a s s' a' where a: "py_getitem d ''apis'' = Inr a" and s: "py_getitem a ''song_download'' = Inr s"
    and s': "py_setitem s ''request_interval'' (JInt i) = Inr s'" and a': "py_setitem a ''song_download'' s' = Inr a'"
    and d': "py_setitem d ''apis'' a' = Inr d'"
    by (rule set_interval_doc_parts)
  have wa: "wf_json a" using py_getitem_wf [OF w a] .
  have ws: "wf_json s" using py_getitem_wf [OF wa s] .
  have ws': "wf_json s'" using py_setitem_wf [OF ws _ s'] by simp
  have wa': "wf_json a'" using py_setitem_wf [OF wa ws' a'] .
  show ?thesis using py_setitem_wf [OF w wa' d'] .
qed

lemma set_interval_doc_get: "set_interval_doc i d = Inr d' \<Longrightarrow> doc_request_interval d' = Inr (JInt i)"
proof -
  assume h: "set_interval_doc i d = Inr d'"
  then obtain a s s' a' where a: "py_getitem d ''apis'' = Inr a" and s: "py_getitem a ''song_download'' = Inr s"
    and s': "py_setitem s ''request_interval'' (JInt i) = Inr s'" and a': "py_setitem a ''song_download'' s' = Inr a'"
    and d': "py_setitem d ''apis'' a' = Inr d'"
    by (rule set_interval_doc_parts)
  from s' obtain kvs where "s' = JObj kvs" using py_setitem_dict by blast
  with py_setitem_getitem [OF s'] have "py_dict_get s' ''request_interval'' (JInt 1000) = Inr (JInt i)"
    by (simp split: option.splits)
  with py_setitem_getitem [OF d'] py_setitem_getitem [OF a'] show ?thesis
    by (simp add: doc_request_interval_def song_download_doc_def)
qed

lemma load_config_save: "load_config env config_json (save_config env d w) =
    (if open_path env (case meipass env of Some m \<Rightarrow> path_join m config_json | None \<Rightarrow> config_json)
          = open_path env config_json
     then json_load (json_dump d) else load_config env config_json w)"
  by (simp add: load_config_def save_config_def Let_def)

text \<open>C22: outside the bundle, an interval saved by \<open>set_request_interval\<close> is what
  \<open>APIHandler()\<close> reads at the next start: the file it loads is the document just
  written, and \<open>get_request_interval\<close> on it returns the saved value.\<close>

theorem saved_interval_read_back:
  assumes "meipass env = None" and "load_config env config_json w = Inr d"
    and "set_request_interval_file env i d w = (Inr d', w')"
  shows "load_config env config_json w' = Inr d' \<and> doc_request_interval d' = Inr (JInt i)"
proof -
  have s: "set_interval_doc i d = Inr d'" and w': "w' = save_config env d' w"
    using assms(3) by (auto simp: set_request_interval_file_def split: sum.splits)
  have "wf_json d"
    using assms(2) by (auto simp: load_config_def Let_def split: option.splits intro: json_load_wf)
  then have "wf_json d'" using s by (rule set_interval_doc_wf)
  then show ?thesis
    using assms(1) w' load_dump_wf set_interval_doc_get [OF s] by (simp add: load_config_save)
qed

text \<open>C33: in the packaged program, where \<open>load_config\<close> reads the bundled copy,
  \<open>set_request_interval\<close> writes \<open>config.json\<close> in the working directory, which
  the next start never reads: whatever the interval saved, the configuration loaded
  afterwards is the one loaded before.\<close>

theorem packaged_interval_lost:
  assumes "meipass env = Some m" and "open_path env (path_join m config_json) \<noteq> open_path env config_json"
  shows "load_config env config_json (snd (set_request_interval_file env i d w)) = load_config env config_json w"
  using assms by (simp add: set_request_interval_file_def load_config_save split: sum.splits)

subsection \<open>Witnesses\<close>

lemma example_doc_loads: "json_load (json_dump example_doc) = Inr example_doc"
  by (rule load_dump_wf) (simp add: example_doc_def)

theorem saved_interval_read_back_witness:
  "load_config dev_env config_json config_world = Inr example_doc
   \<and> load_config dev_env config_json (snd (set_request_interval_file dev_env 500 example_doc config_world))
       = set_interval_doc 500 example_doc
   \<and> doc_request_interval (projr (set_interval_doc 500 example_doc)) = Inr (JInt 500)"
proof -
  have l: "load_config dev_env config_json config_world = Inr example_doc"
    using example_doc_loads by (simp add: load_config_def dev_env_def config_world_def config_json_def open_path_def
        path_join_def starts_with_def)
  have s: "set_interval_doc 500 example_doc = Inr (JObj [(''apis'', JObj [(''song_download'', JObj [(''request_interval'', JInt 500)])])])"
    by (simp add: set_interval_doc_def example_doc_def obj_lookup_def)
  have f: "set_request_interval_file dev_env 500 example_doc config_world =
      (Inr (JObj [(''apis'', JObj [(''song_download'', JObj [(''request_interval'', JInt 500)])])]),
       save_config dev_env (JObj [(''apis'', JObj [(''song_download'', JObj [(''request_interval'', JInt 500)])])]) config_world)"
    using s by (simp add: set_request_interval_file_def)
  from saved_interval_read_back [OF _ l f] show ?thesis using l f s by (simp add: dev_env_def)
qed

theorem packaged_interval_lost_witness:
  "load_config bundled_env config_json (snd (set_request_interval_file bundled_env 500 example_doc config_world))
     = Inr example_doc
   \<and> doc_request_interval example_doc = Inr (JInt 1000)"
proof -
  have l: "load_config bundled_env config_json config_world = Inr example_doc"
    using example_doc_loads by (simp add: load_config_def bundled_env_def dev_env_def config_world_def config_json_def
        open_path_def path_join_def starts_with_def)
  have "open_path bundled_env (path_join ''/bundle'' config_json) \<noteq> open_path bundled_env config_json"
    by (simp add: bundled_env_def dev_env_def open_path_def path_join_def starts_with_def config_json_def)
  from packaged_interval_lost [OF _ this, of 500 example_doc config_world] l show ?thesis
    by (simp add: bundled_env_def dev_env_def example_doc_def doc_request_interval_def song_download_doc_def
        obj_lookup_def)
qed

end
