(* ===== verification/Progress_View.thy ===== *)
theory Progress_View
  imports Window
begin

text \<open>
  The download progress bar over one run of the download worker
  (\<open>src/utils/ui.py\<close>: the \<open>progress_signal\<close> emissions of \<open>download_playlist\<close>
  and \<open>progress_slot\<close>). \<open>bar_values\<close> lists the values the bar takes as
  the run's signals are delivered, in emission order.
\<close>

fun bar_values :: "ui_event list \<Rightarrow> int list" where
  "bar_values [] = []"
| "bar_values (Progress k n t # es) = progress_percent k n # bar_values es"
| "bar_values (Progress_done # es) = 100 # bar_values es"
| "bar_values (_ # es) = bar_values es"

subsection \<open>Lemmas\<close>

lemma bar_values_append [simp]: "bar_values (xs @ ys) = bar_values xs @ bar_values ys"
  by (induction xs rule: bar_values.induct) simp_all

lemma download_items_bars:
  assumes "download_items c save q sl skip fmt stopped n i ss t d w evs = (t', d', w', evs')"
  shows "\<exists>m. m \<le> length ss \<and> bar_values evs' = bar_values evs @ map (\<lambda>j. progress_percent j n) [Suc i..<Suc i + m]"
  using assms
proof (induction ss arbitrary: i t d w evs)
  case Nil
  then show ?case by simp
next
  case (Cons s ss)
  show ?case
  proof (cases "stopped i")
    case True
    with Cons.prems show ?thesis by (intro exI [of _ 0]) simp
  next
    case False
    obtain r d1 w1 where r: "download_song c s save (Some q) sl skip fmt d w = (r, d1, w1)"
      by (cases "download_song c s save (Some q) sl skip fmt d w") auto
    let ?e = "[Progress (Suc i) n (py_str (song_artist s) @ '' - '' @ py_str (song_name s)),
               ItemLog (Suc i) (classify_download r) (snd r)]"
    from Cons.prems False r have run: "download_items c save q sl skip fmt stopped n (Suc i) ss
        (count (classify_download r) t) d1 w1 (evs @ ?e) = (t', d', w', evs')" by simp
    from Cons.IH [OF run] obtain m where m: "m \<le> length ss"
      "bar_values evs' = bar_values (evs @ ?e) @ map (\<lambda>j. progress_percent j n) [Suc (Suc i)..<Suc (Suc i) + m]"
      by blast
    have "[Suc i..<Suc i + Suc m] = Suc i # [Suc (Suc i)..<Suc (Suc i) + m]" by (simp add: upt_rec)
    with m show ?thesis by (intro exI [of _ "Suc m"]) simp
  qed
qed

lemma sorted_progress_run:
  assumes "m \<le> n" and "n \<le> 2 ^ 40"
  shows "sorted (map (\<lambda>j. progress_percent j n) [1..<Suc m] @ [100])"
proof -
  have mono: "sorted (map (\<lambda>j. progress_percent j n) [1..<Suc m])"
    unfolding sorted_map by (rule sorted_wrt_mono_rel [OF _ sorted_upt])
      (use assms in \<open>auto intro: progress_percent_mono\<close>)
  have "\<forall>j\<in>set [1..<Suc m]. progress_percent j n \<le> 100"
    using assms progress_percent_bounds by auto
  with mono show ?thesis by (auto simp: sorted_append)
qed

lemma bar_values_cons: "bar_values (e # es) = bar_values [e] @ bar_values es"
  using bar_values_append [of "[e]" es] by simp

lemma deliver_bar: "dl_bar (deliver e w) = (case bar_values [e] of [] \<Rightarrow> dl_bar w | v # _ \<Rightarrow> v)"
  by (cases e) simp_all

lemma bar_values_single: "bar_values [e] = [] \<or> (\<exists>v. bar_values [e] = [v])"
  by (cases e) simp_all

lemma fold_deliver_bar:
  "dl_bar (fold deliver es w) = (if bar_values es = [] then dl_bar w else last (bar_values es))"
proof (induction es arbitrary: w)
  case (Cons e es)
  show ?case
    using bar_values_single [of e] Cons.IH [of "deliver e w"]
    by (auto simp: deliver_bar bar_values_cons [of e es])
qed simp


subsection \<open>Witnesses\<close>


end
