(* ===== verification/Download_Thread.thy ===== *)
theory Download_Thread
  imports Orchestrator Form
begin

text \<open>
  The download thread of \<open>MainWindow.download_playlist\<close> (\<open>src/utils/ui.py\<close>)
  as a sequence of atomic steps, interleaved with the main thread. The thread
  resolves the playlist, then handles one song per step, reading the shared stop
  flag \<open>self.stop_download\<close> at the top of each iteration, and finally emits the
  completion signals. Between two thread steps the main thread may click the
  stop button (\<open>stop_download_task\<close>) or save a request interval
  (\<open>save_request_interval\<close>). Deliveries and edits of the page widgets touch
  neither the core state nor the world, so they are left out here.
  \<open>download_worker\<close> runs the whole thread in one step, with the stop flag as
  an oracle. This theory shows that this abstraction is exact when no interval is
  saved during the run.
\<close>

datatype dl_phase = Resolving | Looping "song list" nat nat tally

record dl_sys =
  sys_app :: app
  sys_world :: world
  sys_phase :: "dl_phase option"
  sys_events :: "ui_event list"

text \<open>The signals that end a run: the final progress, the completion counts and
  the button reset of the \<open>finally\<close> clause.\<close>

definition finish_events :: "tally \<Rightarrow> ui_event list" where
  "finish_events t = [Progress_done, Download_complete (n_success t) (n_fail t), Button_state True False]"

text \<open>One step of the thread, with the arguments it was started with.\<close>

fun dl_thread_step :: "dl_args \<Rightarrow> dl_sys \<Rightarrow> dl_sys" where
  "dl_thread_step (lid, save, q, sl, skip, fmt) s =
     (case sys_phase s of
        None \<Rightarrow> s
      | Some Resolving \<Rightarrow>
          (case get_playlist_songs (app_config (sys_app s)) lid (sys_world s) of
             (Inl e, w1) \<Rightarrow> s\<lparr>sys_world := w1, sys_phase := None,
               sys_events := sys_events s @ [Download_error (download_error_message e), Button_state True False]\<rparr>
           | (Inr songs, w1) \<Rightarrow> s\<lparr>sys_world := w1, sys_phase := Some (Looping songs 0 (length songs) tally0)\<rparr>)
      | Some (Looping [] i n t) \<Rightarrow>
          s\<lparr>sys_phase := None, sys_events := sys_events s @ finish_events t\<rparr>
      | Some (Looping (song # ss) i n t) \<Rightarrow>
          (if stop_download (sys_app s)
           then s\<lparr>sys_phase := None, sys_events := sys_events s @ finish_events t\<rparr>
           else
             (case download_song (app_config (sys_app s)) song save (Some q) sl skip fmt (app_dl (sys_app s)) (sys_world s) of
                (r, d', w') \<Rightarrow>
                  s\<lparr>sys_app := (sys_app s)\<lparr>app_dl := d'\<rparr>, sys_world := w',
                    sys_phase := Some (Looping ss (Suc i) n (count (classify_download r) t)),
                    sys_events := sys_events s @
                      [Progress (Suc i) n (py_str (song_artist song) @ '' - '' @ py_str (song_name song)),
                       ItemLog (Suc i) (classify_download r) (snd r)]\<rparr>)))"

text \<open>The interleaving: a thread step, a click on the stop button, or (when
  \<open>saves\<close> is set) a successful click on the interval's save button.\<close>

inductive dl_step :: "bool \<Rightarrow> dl_args \<Rightarrow> dl_sys \<Rightarrow> dl_sys \<Rightarrow> bool" for saves args where
  thread: "sys_phase s \<noteq> None \<Longrightarrow> dl_step saves args s (dl_thread_step args s)"
| stop: "dl_step saves args s (s\<lparr>sys_app := stop_download_task (sys_app s)\<rparr>)"
| save: "saves \<Longrightarrow> save_request_interval (sys_app s) v = Inr a' \<Longrightarrow> dl_step saves args s (s\<lparr>sys_app := a'\<rparr>)"

definition dl_start :: "app \<Rightarrow> world \<Rightarrow> dl_sys" where
  "dl_start a w = \<lparr>sys_app = a, sys_world = w, sys_phase = Some Resolving, sys_events = []\<rparr>"

text \<open>The invariant of a run started from \<open>a0\<close> and \<open>w0\<close>: the core state
  differs from \<open>a0\<close> only in the downloader and the stop flag. While resolving,
  nothing has happened yet. In the loop, the rest of the atomic worker from here
  gives the same result as the whole of it, for every oracle that said "go on" at
  the checks made so far. At the end, the run is the atomic worker's run for a
  threshold oracle.\<close>

definition same_core :: "app \<Rightarrow> app \<Rightarrow> bool" where
  "same_core a0 a \<longleftrightarrow> a\<lparr>app_dl := app_dl a0, stop_download := stop_download a0\<rparr> = a0"

definition dl_inv :: "app \<Rightarrow> world \<Rightarrow> dl_args \<Rightarrow> dl_sys \<Rightarrow> bool" where
  "dl_inv a0 w0 args s \<longleftrightarrow> (case args of (lid, save, q, sl, skip, fmt) \<Rightarrow>
     same_core a0 (sys_app s) \<and>
     (case sys_phase s of
        Some Resolving \<Rightarrow> sys_world s = w0 \<and> sys_events s = [] \<and> app_dl (sys_app s) = app_dl a0
      | Some (Looping ss i n t) \<Rightarrow>
          (\<exists>songs w1. get_playlist_songs (app_config a0) lid w0 = (Inr songs, w1) \<and> n = length songs \<and>
             (\<forall>stopped. (\<forall>j<i. \<not> stopped j) \<longrightarrow>
                download_items (app_config a0) save q sl skip fmt stopped n 0 songs tally0 (app_dl a0) w1 []
                = download_items (app_config a0) save q sl skip fmt stopped n i ss t (app_dl (sys_app s))
                    (sys_world s) (sys_events s)))
      | None \<Rightarrow> (\<exists>m. download_worker a0 lid save q sl skip fmt (\<lambda>j. m \<le> j) w0
                   = ((sys_app s)\<lparr>stop_download := stop_download a0\<rparr>, sys_world s, sys_events s))))"

subsection \<open>Examples\<close>

text \<open>A run on the resolver scenario: the playlist resolves to one song, the user
  clicks stop, and the thread ends at its first check.\<close>

definition example_args :: dl_args where
  "example_args = (''3778678'', ''/music'', ''standard'', 0, False, 0)"

definition resolved_sys :: dl_sys where
  "resolved_sys = dl_thread_step example_args (dl_start scenario_app scenario_world)"

definition stop_clicked_sys :: dl_sys where
  "stop_clicked_sys = resolved_sys\<lparr>sys_app := stop_download_task (sys_app resolved_sys)\<rparr>"

definition ended_sys :: dl_sys where
  "ended_sys = dl_thread_step example_args stop_clicked_sys"

subsection \<open>Lemmas\<close>

lemma same_core_config: "same_core a0 a \<Longrightarrow> app_config a = app_config a0"
  unfolding same_core_def by (metis app.select_convs(1) app.surjective app.update_convs(2,4))

lemma same_core_restore:
  "same_core a0 a \<Longrightarrow> a\<lparr>stop_download := stop_download a0\<rparr> = a0\<lparr>app_dl := app_dl a\<rparr>"
  unfolding same_core_def by (cases a, cases a0) simp

lemma same_core_flag [simp]: "same_core a0 (a\<lparr>stop_download := b\<rparr>) = same_core a0 a"
  by (simp add: same_core_def)

lemma same_core_dl [simp]: "same_core a0 (a\<lparr>app_dl := d\<rparr>) = same_core a0 a"
  by (simp add: same_core_def)

lemma dl_inv_start: "dl_inv a0 w0 args (dl_start a0 w0)"
  by (cases args) (simp add: dl_inv_def dl_start_def same_core_def)

lemma finish_worker:
  assumes "get_playlist_songs (app_config a0) lid w0 = (Inr songs, w1)"
    and "download_items (app_config a0) save q sl skip fmt stopped (length songs) 0 songs tally0 (app_dl a0) w1 []
         = (t, d, w, evs)"
  shows "download_worker a0 lid save q sl skip fmt stopped w0 = (a0\<lparr>app_dl := d\<rparr>, w, evs @ finish_events t)"
  using assms by (simp add: download_worker_def finish_events_def)

lemma dl_inv_stop:
  "dl_inv a0 w0 args s \<Longrightarrow> dl_inv a0 w0 args (s\<lparr>sys_app := stop_download_task (sys_app s)\<rparr>)"
  by (cases args) (auto simp: dl_inv_def stop_download_task_def split: option.splits dl_phase.splits)

lemma dl_inv_resolving:
  assumes inv: "dl_inv a0 w0 (lid, save, q, sl, skip, fmt) s" and ph: "sys_phase s = Some Resolving"
  shows "dl_inv a0 w0 (lid, save, q, sl, skip, fmt) (dl_thread_step (lid, save, q, sl, skip, fmt) s)"
proof -
  have sc: "same_core a0 (sys_app s)" and w: "sys_world s = w0" and e: "sys_events s = []"
    and d: "app_dl (sys_app s) = app_dl a0"
    using inv ph by (auto simp: dl_inv_def)
  have cfg: "app_config (sys_app s) = app_config a0" by (rule same_core_config [OF sc])
  have a0: "(sys_app s)\<lparr>stop_download := stop_download a0\<rparr> = a0"
    using same_core_restore [OF sc] d by simp
  obtain r w1 where g: "get_playlist_songs (app_config a0) lid w0 = (r, w1)"
    by (cases "get_playlist_songs (app_config a0) lid w0")
  show ?thesis
  proof (cases r)
    case (Inl ex)
    with g show ?thesis using ph sc w e cfg a0
      by (auto simp: dl_inv_def download_worker_def)
  next
    case (Inr songs)
    with g show ?thesis using ph sc w e cfg d
      by (auto simp: dl_inv_def)
  qed
qed

lemma dl_inv_looping:
  assumes inv: "dl_inv a0 w0 (lid, save, q, sl, skip, fmt) s" and ph: "sys_phase s = Some (Looping ss i n t)"
  shows "dl_inv a0 w0 (lid, save, q, sl, skip, fmt) (dl_thread_step (lid, save, q, sl, skip, fmt) s)"
proof -
  let ?c = "app_config a0"
  have sc: "same_core a0 (sys_app s)" using inv by (simp add: dl_inv_def)
  have cfg: "app_config (sys_app s) = ?c" by (rule same_core_config [OF sc])
  from inv ph obtain songs w1 where g: "get_playlist_songs ?c lid w0 = (Inr songs, w1)" and n: "n = length songs"
    and it: "\<And>stopped. \<forall>j<i. \<not> stopped j \<Longrightarrow>
        download_items ?c save q sl skip fmt stopped n 0 songs tally0 (app_dl a0) w1 []
        = download_items ?c save q sl skip fmt stopped n i ss t (app_dl (sys_app s)) (sys_world s) (sys_events s)"
    by (auto simp: dl_inv_def)
  have thr: "\<forall>j<i. \<not> (i \<le> j)" by simp
  have stop_here: "download_items ?c save q sl skip fmt (\<lambda>j. i \<le> j) (length songs) 0 songs tally0 (app_dl a0) w1 []
      = (t, app_dl (sys_app s), sys_world s, sys_events s)" if "ss = [] \<or> stop_download (sys_app s)"
    using it [OF thr] that n by (cases ss) auto
  have fin: "download_worker a0 lid save q sl skip fmt (\<lambda>j. i \<le> j) w0
      = ((sys_app s)\<lparr>stop_download := stop_download a0\<rparr>, sys_world s, sys_events s @ finish_events t)"
    if "ss = [] \<or> stop_download (sys_app s)"
    using finish_worker [OF g stop_here [OF that]] same_core_restore [OF sc] by simp
  show ?thesis
  proof (cases ss)
    case Nil
    with fin ph sc show ?thesis by (auto simp: dl_inv_def)
  next
    case (Cons song ss')
    show ?thesis
    proof (cases "stop_download (sys_app s)")
      case True
      with fin ph sc Cons show ?thesis by (auto simp: dl_inv_def)
    next
      case False
      obtain r d' w' where r: "download_song ?c song save (Some q) sl skip fmt (app_dl (sys_app s)) (sys_world s) = (r, d', w')"
        by (cases "download_song ?c song save (Some q) sl skip fmt (app_dl (sys_app s)) (sys_world s)")
      have "\<forall>stopped. (\<forall>j<Suc i. \<not> stopped j) \<longrightarrow>
          download_items ?c save q sl skip fmt stopped n 0 songs tally0 (app_dl a0) w1 []
          = download_items ?c save q sl skip fmt stopped n (Suc i) ss' (count (classify_download r) t) d' w'
              (sys_events s @ [Progress (Suc i) n (py_str (song_artist song) @ '' - '' @ py_str (song_name song)),
                               ItemLog (Suc i) (classify_download r) (snd r)])"
        using it r Cons by (auto simp: less_Suc_eq)
      with ph False Cons r cfg sc g n show ?thesis by (auto simp: dl_inv_def)
    qed
  qed
qed

lemma dl_inv_step: "dl_step False args s s' \<Longrightarrow> dl_inv a0 w0 args s \<Longrightarrow> dl_inv a0 w0 args s'"
proof (induction rule: dl_step.induct)
  case (thread s)
  obtain lid save q sl skip fmt where a: "args = (lid, save, q, sl, skip, fmt)" by (cases args)
  from thread.hyps obtain ph where ph: "sys_phase s = Some ph" by auto
  show ?case
  proof (cases ph)
    case Resolving
    with ph have "sys_phase s = Some Resolving" by simp
    with thread.prems a show ?thesis using dl_inv_resolving by blast
  next
    case (Looping ss i n t)
    with ph have "sys_phase s = Some (Looping ss i n t)" by simp
    with thread.prems a show ?thesis using dl_inv_looping by blast
  qed
next
  case (stop s)
  then show ?case by (rule dl_inv_stop)
qed simp

lemma save_request_interval_core:
  "save_request_interval a v = Inr a' \<Longrightarrow> app_dl a' = app_dl a \<and> stop_download a' = stop_download a"
  by (auto simp: save_request_interval_def split: option.splits if_splits)

lemma looping_ends:
  "sys_phase s = Some (Looping ss i n t) \<Longrightarrow> \<exists>s'. (dl_step saves args)\<^sup>*\<^sup>* s s' \<and> sys_phase s' = None"
proof (induction ss arbitrary: s i t)
  case Nil
  then have "dl_step saves args s (dl_thread_step args s)" by (intro dl_step.thread) simp
  moreover have "sys_phase (dl_thread_step args s) = None" using Nil by (cases args) simp
  ultimately show ?case by blast
next
  case (Cons song ss)
  let ?s1 = "dl_thread_step args s"
  have st: "dl_step saves args s ?s1" using Cons.prems by (intro dl_step.thread) simp
  have "sys_phase ?s1 = None \<or> (\<exists>t'. sys_phase ?s1 = Some (Looping ss (Suc i) n t'))"
    using Cons.prems by (cases args) (auto split: prod.splits)
  then show ?case
  proof
    assume "sys_phase ?s1 = None"
    with st show ?thesis by blast
  next
    assume "\<exists>t'. sys_phase ?s1 = Some (Looping ss (Suc i) n t')"
    then obtain t' where "sys_phase ?s1 = Some (Looping ss (Suc i) n t')" ..
    from Cons.IH [OF this] obtain s' where "(dl_step saves args)\<^sup>*\<^sup>* ?s1 s'" "sys_phase s' = None" by blast
    with st show ?thesis by (meson converse_rtranclp_into_rtranclp)
  qed
qed

text \<open>The thread always ends: from every state, its own steps alone reach the end
  of the run, after at most one step per song and two more.\<close>

lemma dl_thread_ends: "\<exists>s'. (dl_step saves args)\<^sup>*\<^sup>* s s' \<and> sys_phase s' = None"
proof (cases "sys_phase s")
  case None
  then show ?thesis by blast
next
  case (Some ph)
  show ?thesis
  proof (cases ph)
    case Resolving
    let ?s1 = "dl_thread_step args s"
    have st: "dl_step saves args s ?s1" using Some by (intro dl_step.thread) simp
    have "sys_phase ?s1 = None \<or> (\<exists>ss n. sys_phase ?s1 = Some (Looping ss 0 n tally0))"
      using Some Resolving by (cases args) (auto split: prod.splits sum.splits)
    then show ?thesis
    proof
      assume "sys_phase ?s1 = None"
      with st show ?thesis by blast
    next
      assume "\<exists>ss n. sys_phase ?s1 = Some (Looping ss 0 n tally0)"
      then obtain ss n where "sys_phase ?s1 = Some (Looping ss 0 n tally0)" by blast
      from looping_ends [OF this] st show ?thesis by (meson converse_rtranclp_into_rtranclp)
    qed
  next
    case (Looping ss i n t)
    with Some have "sys_phase s = Some (Looping ss i n t)" by simp
    then show ?thesis by (rule looping_ends)
  qed
qed

lemma thread_step_stopped:
  assumes "stop_download (sys_app s)" and "sys_phase s = Some (Looping ss i n t)"
  shows "sys_world (dl_thread_step args s) = sys_world s \<and> sys_app (dl_thread_step args s) = sys_app s
    \<and> sys_phase (dl_thread_step args s) = None"
  using assms by (cases args, cases ss) auto

text \<open>C13: a run of the download thread interleaved with any number of clicks on the
  stop button, and no interval saved, ends exactly as the atomic
  \<open>download_worker\<close> for the oracle that stops from some item \<open>m\<close> on. The core
  state, the world and the signals emitted are the same, up to the stop flag
  itself. So the stop flag of the atomic model is sound, and the flag only ever
  goes from "go on" to "stop" during a run.\<close>

theorem dl_run_refines:
  assumes "(dl_step False (lid, save, q, sl, skip, fmt))\<^sup>*\<^sup>* (dl_start a0 w0) s" and "sys_phase s = None"
  shows "\<exists>m. download_worker a0 lid save q sl skip fmt (\<lambda>j. m \<le> j) w0
    = ((sys_app s)\<lparr>stop_download := stop_download a0\<rparr>, sys_world s, sys_events s)"
proof -
  have "dl_inv a0 w0 (lid, save, q, sl, skip, fmt) s"
    using assms(1) by (induction rule: rtranclp_induct) (auto intro: dl_inv_start dl_inv_step)
  with assms(2) show ?thesis by (simp add: dl_inv_def)
qed

text \<open>C23: once the thread is past resolving and the stop flag is set, nothing the
  thread or the main thread does afterwards transfers another song. The world and
  the downloader state stay as they are, and the flag stays set, also when
  intervals are saved.\<close>

theorem stop_seen_no_transfer:
  assumes "(dl_step saves args)\<^sup>*\<^sup>* s s'" and "stop_download (sys_app s)"
    and "sys_phase s \<noteq> Some Resolving"
  shows "sys_world s' = sys_world s \<and> app_dl (sys_app s') = app_dl (sys_app s) \<and> stop_download (sys_app s')"
proof -
  have "sys_world s' = sys_world s \<and> app_dl (sys_app s') = app_dl (sys_app s) \<and> stop_download (sys_app s')
      \<and> sys_phase s' \<noteq> Some Resolving"
    using assms(1)
  proof (induction rule: rtranclp_induct)
    case base
    with assms(2,3) show ?case by simp
  next
    case (step y z)
    from step.hyps(2) step.IH show ?case
    proof (cases rule: dl_step.cases)
      case thread
      then obtain ph where ph: "sys_phase y = Some ph" by auto
      with step.IH obtain ss i n t where "sys_phase y = Some (Looping ss i n t)" by (cases ph) auto
      with thread step.IH thread_step_stopped [of y] show ?thesis by auto
    next
      case stop
      with step.IH show ?thesis by (simp add: stop_download_task_def)
    next
      case (save v a')
      with step.IH save_request_interval_core [OF save(3)] show ?thesis by simp
    qed
  qed
  then show ?thesis by blast
qed

subsection \<open>Witnesses\<close>

lemma resolved_phase: "sys_phase resolved_sys = Some (Looping [scenario_song] 0 1 tally0)"
  using scenario_run by (simp add: resolved_sys_def example_args_def dl_start_def scenario_app_def)

lemma example_run:
  "(dl_step False example_args)\<^sup>*\<^sup>* (dl_start scenario_app scenario_world) ended_sys \<and> sys_phase ended_sys = None"
proof -
  have s1: "dl_step False example_args (dl_start scenario_app scenario_world) resolved_sys"
    unfolding resolved_sys_def by (rule dl_step.thread) (simp add: dl_start_def)
  have s2: "dl_step False example_args resolved_sys stop_clicked_sys"
    unfolding stop_clicked_sys_def by (rule dl_step.stop)
  have s3: "dl_step False example_args stop_clicked_sys ended_sys"
    unfolding ended_sys_def by (rule dl_step.thread) (simp add: stop_clicked_sys_def resolved_phase)
  have "sys_phase ended_sys = None"
    using thread_step_stopped [of stop_clicked_sys "[scenario_song]" 0 1 tally0 example_args]
    by (simp add: ended_sys_def stop_clicked_sys_def resolved_phase stop_download_task_def)
  with s1 s2 s3 show ?thesis by (meson rtranclp.rtrancl_into_rtrancl rtranclp.rtrancl_refl)
qed

theorem dl_run_refines_witness:
  "(dl_step False (''3778678'', ''/music'', ''standard'', 0, False, 0))\<^sup>*\<^sup>* (dl_start scenario_app scenario_world) ended_sys
   \<and> sys_phase ended_sys = None
   \<and> (\<exists>m. download_worker scenario_app ''3778678'' ''/music'' ''standard'' 0 False 0 (\<lambda>j. m \<le> j) scenario_world
        = ((sys_app ended_sys)\<lparr>stop_download := stop_download scenario_app\<rparr>, sys_world ended_sys, sys_events ended_sys))"
  using example_run dl_run_refines [of "''3778678''" "''/music''" "''standard''" 0 False 0 scenario_app scenario_world ended_sys]
  by (simp add: example_args_def)

theorem stop_seen_no_transfer_witness:
  "(dl_step False example_args)\<^sup>*\<^sup>* stop_clicked_sys ended_sys \<and> stop_download (sys_app stop_clicked_sys)
   \<and> sys_phase stop_clicked_sys \<noteq> Some Resolving
   \<and> sys_world ended_sys = sys_world stop_clicked_sys \<and> app_dl (sys_app ended_sys) = app_dl (sys_app stop_clicked_sys)"
proof -
  have r: "(dl_step False example_args)\<^sup>*\<^sup>* stop_clicked_sys ended_sys"
    unfolding ended_sys_def by (rule r_into_rtranclp, rule dl_step.thread) (simp add: stop_clicked_sys_def resolved_phase)
  have f: "stop_download (sys_app stop_clicked_sys)" by (simp add: stop_clicked_sys_def stop_download_task_def)
  have p: "sys_phase stop_clicked_sys \<noteq> Some Resolving" by (simp add: stop_clicked_sys_def resolved_phase)
  from stop_seen_no_transfer [OF r f p] r f p show ?thesis by simp
qed

end
