(* ===== verification/Spec2Isabelle.thy ===== *)
theory Spec2Isabelle
  imports Orchestrator Extract Background Window Config_File Progress_View Download_Thread
begin

text \<open>
  \<^bold>\<open>Verification library of 163worker\<close>, a NetEase playlist downloader with a
  batch converter for \<open>.ncm\<close> files. The program has four source files:

  \<^item> \<open>src/utils/api.py\<close>, class \<open>APIHandler\<close>: the configuration (\<open>load_config\<close>,
    \<open>get_request_interval\<close>, \<open>set_request_interval\<close>), the retrying transport
    \<open>request_with_retry\<close>, the resolver \<open>get_playlist_songs\<close> with
    \<open>extract_song_id_from_url\<close>, the location fetcher \<open>get_song_download_url\<close>,
    and the nested path extractor \<open>extract_data\<close>, which nothing calls;
  \<^item> \<open>src/utils/downloader.py\<close>, class \<open>SongDownloader\<close>: file names, the
    skip-if-exists check, the throttle on location fetches, the three-attempt
    download loop, and the rate-limited streamed transfer;
  \<^item> \<open>src/utils/ncm_converter.py\<close>, class \<open>NCMConverter\<close>: locating \<open>ncmdump\<close>,
    converting one file, and batch conversion;
  \<^item> \<open>src/utils/ui.py\<close>, class \<open>MainWindow\<close>: the handlers that start and stop
    work, and the worker threads that drive the three classes above and report
    through signals.

  The UI worker calls \<open>SongDownloader.download_song\<close> per song. That method calls
  \<open>APIHandler.get_song_download_url\<close>, which goes through \<open>request_with_retry\<close>.
  The conversion worker calls \<open>NCMConverter.convert_single_file\<close> per file.

  \<^bold>\<open>Theories.\<close>
  \<^item> \<open>Prelude\<close>: Python's exceptions as the datatype \<open>exn\<close>, and the exception-state
    monad \<open>('s, 'a) io = 's \<Rightarrow> (exn + 'a) \<times> 's\<close>, in which a raise is an \<open>Inl\<close>.
  \<^item> \<open>Py_Str\<close>: the string builtins the code uses, written from the language
    reference: \<open>in\<close>, \<open>replace\<close>, \<open>split\<close>/\<open>join\<close>, \<open>strip\<close>, \<open>str.format\<close> with
    keyword fields, \<open>repr\<close>, \<open>str(e)\<close> of an exception, and \<open>os.path.join\<close>.
    Lemmas: a \<open>split\<close>/\<open>join\<close> round trip and substitution laws for \<open>format\<close>.
  \<^item> \<open>Json\<close>: decoded JSON values with subscription, membership, \<open>dict.get\<close>,
    truthiness and \<open>str\<close>/\<open>repr\<close>.
  \<^item> \<open>Config\<close>: the fields of \<open>config.json\<close> that the code reads, as records.
  \<^item> \<open>Json_Text\<close>: JSON text as Python's \<open>json\<close> module writes and reads it,
    written from that module's documentation. \<open>json_dump\<close> is \<open>json.dump(...,
    ensure_ascii=False, indent=2)\<close>, with its escapes and indentation.
    \<open>json_load\<close> is \<open>json.load\<close>: a scanner with one unit of fuel per nested
    call, given one more than the length of the text. That is enough, since every call
    consumes a character. Objects become dicts: a repeated key keeps its first position
    and its last value. The round trip \<open>json_load (json_dump v) = Inr v\<close> holds for
    every value with distinct keys (\<open>wf_json\<close>), by a mutual induction over the
    printer. Every value \<open>json_load\<close> returns has distinct keys (C21).
  \<^item> \<open>Config_File\<close>: \<open>APIHandler.load_config\<close> with the \<open>_MEIPASS\<close> path,
    \<open>get_request_interval\<close>, \<open>get_quality_options\<close> and
    \<open>get_default_quality\<close> on the loaded document, and \<open>set_request_interval\<close>.
    The setter assigns into the document, then rewrites \<open>config.json\<close> in the
    working directory (C22, C33).
  \<^item> \<open>Transport\<close>: the world and the transport. The world record holds the clock
    (\<open>time.time\<close>), the network as an oracle giving the reply and latency of the
    \<open>i\<close>-th request, the file map, the directory listings, the external tool as an
    oracle per run, and a trace of requests, sleeps and tool runs. It defines
    \<open>http_get\<close>, \<open>raise_for_status\<close>, \<open>retry_loop\<close> and \<open>request_with_retry\<close>.
    An abstract contract, \<open>first_success\<close> of the next outcomes, is refined by the
    loop (C3), with the attempt and sleep counts (C4). The relation \<open>later\<close>
    orders the states of one run.
  \<^item> \<open>Api\<close>: the resolver (\<open>extract_song_id_from_url\<close>, \<open>song_info\<close>,
    \<open>collect_songs\<close>, \<open>playlist_tracks\<close>, \<open>try_provider\<close>, \<open>resolve_loop\<close>,
    \<open>get_playlist_songs\<close>) and \<open>get_song_download_url\<close> (C1, C2, C5, C6, C8 to
    C10).
  \<^item> \<open>Extract\<close>: \<open>APIHandler.extract_data\<close>. Python's \<open>int()\<close> on a string
    (\<open>py_int\<close>: whitespace, sign, underscores, the \<open>ValueError\<close> message) and
    integer subscription with negative indices (\<open>py_getitem_int\<close>) come from the
    language reference. The key forms are the datatype \<open>step\<close>; \<open>parse_key\<close> is
    lines 176 to 178, \<open>access_step\<close> lines 179 to 181, and \<open>extract_key\<close> the
    \<open>try\<close> with its \<open>except\<close>, which wraps lookup errors in a \<open>KeyError\<close> naming
    the path prefix. \<open>extract_data\<close> is the \<open>for\<close> loop as a \<open>while_option\<close> over
    (index, result). Its reference is \<open>get_path\<close>, a lookup along a list of steps,
    with the printer \<open>render_path\<close> (C7, C39, C40).
  \<^item> \<open>Downloader\<close>: \<open>SongDownloader\<close>, with state record \<open>downloader\<close> holding the
    copied interval and \<open>last_request_time\<close>: \<open>sanitize_filename\<close>,
    \<open>song_filename\<close>, \<open>throttle\<close>, \<open>download_attempt\<close>, \<open>download_loop\<close>,
    \<open>download_song\<close>, \<open>stream_chunks\<close>/\<open>download_file\<close> and
    \<open>download_playlist\<close> (C16, C18, C19, C24).
  \<^item> \<open>Converter\<close>: \<open>NCMConverter\<close>. The tool path is its state; it has
    \<open>find_ncmdump\<close>, \<open>ncm_converter_init\<close>, \<open>convert_single_file\<close> and
    \<open>batch_convert\<close>, with posixpath's \<open>basename\<close>, \<open>dirname\<close> and \<open>splitext\<close>,
    and \<open>glob\<close> (C25, C27).
  \<^item> \<open>Orchestrator\<close>: the \<open>MainWindow\<close> state \<open>app\<close>; the workers
    \<open>download_worker\<close> and \<open>convert_worker\<close> with their item loops; and the
    handlers \<open>app_init\<close>, \<open>start_download\<close>, \<open>start_ncm_convert\<close>,
    \<open>stop_download_task\<close>, \<open>stop_convert_task\<close> and \<open>save_request_interval\<close>
    (C30 to C32, C35 to C38). Signals are an event list in emission order. The stop flag
    that the main thread sets while a worker runs is an oracle: the value each
    item's check reads.
  \<^item> \<open>Background\<close>: the two other threads of \<open>MainWindow\<close>. \<open>api_test_worker\<close>
    is \<open>test_api\<close> of \<open>test_api_feasibility\<close>: it resolves playlist \<open>3778678\<close> and
    reports through \<open>api_test_signal\<close>. \<open>fetch_version\<close> is the thread of
    \<open>get_latest_version\<close>. \<open>api_test_notice\<close> is the choice made by
    \<open>api_test_result_slot\<close> (C29).
  \<^item> \<open>Py_Float\<close>: Python's \<open>float\<close> arithmetic as the workers' progress
    percentage \<open>int((i + 1) / total * 100)\<close> uses it. Values are exact rationals, and
    \<open>round_double\<close> rounds to the nearest IEEE binary64 value, ties to even. Its
    ulp exponent comes from \<open>flog2\<close>, computed with \<open>bitlen\<close>, with subnormals
    below 2^-1022. Each rounding has relative error at most 2^-53. Overflow is
    not modelled, since the values are at most 100 (C14, C15).
  \<^item> \<open>Form\<close>: the input widgets of \<open>PlaylistPage\<close> and \<open>NcmConvertPage\<close>
    (records \<open>playlist_form\<close> and \<open>ncm_form\<close>, by the attribute names). The page
    constructors fill them from the configuration (\<open>playlist_page_init\<close>,
    \<open>ncm_page_init\<close>). The user's edits and the three folder dialogs
    (\<open>browse_save_path\<close>, \<open>browse_ncm_input\<close>, \<open>browse_ncm_output\<close>) are the
    datatype \<open>form_action\<close>, applied by \<open>apply_action\<close>. The library's
    \<open>ComboBox\<close> is written out from its behaviour (\<open>addItems\<close>, \<open>setCurrentText\<close>,
    \<open>setCurrentIndex\<close>, \<open>currentText\<close>). The click handlers with their widget reads
    are \<open>download_click\<close>, \<open>convert_click\<close> and \<open>interval_click\<close>. They parse a line
    edit with \<open>int()\<close> through \<open>int_entry\<close> (C26, C28).
  \<^item> \<open>Window\<close>: \<open>MainWindow\<close> as a state machine. The record \<open>window\<close> holds
    the core state, the world and the page widgets. It also holds the enabled flags of the four start
    and stop buttons, the running worker of each kind with its arguments, the number
    of API tests running, whether the version fetch is pending, the version label,
    the kinds of \<open>InfoBar\<close> shown so far, and the queue of emitted signals. The connections are queued, so a slot runs later on the main
    thread. The inductive relation \<open>win_step\<close> has one rule per click handler
    (\<open>start_download\<close>, \<open>stop_download_task\<close>, \<open>start_ncm_convert\<close>,
    \<open>stop_convert_task\<close>, \<open>save_request_interval\<close>, \<open>test_api_feasibility\<close>).
    The click rules read the widgets through \<open>Form\<close>'s handlers, and the rule
    \<open>edit_form\<close> is a user action on a page. It has one rule per thread's whole run, and one for delivering the oldest signal
    (\<open>deliver\<close>: \<open>button_state_slot\<close>, \<open>ncm_button_state_slot\<close> and
    \<open>update_latest_version\<close>; the completion, error and API-test slots record
    the kind of \<open>InfoBar\<close> they show; the progress and log slots only display). \<open>init_window\<close> is the
    state after construction, with the widgets as the pages fill them. Both start buttons are enabled, the version fetch is
    pending, and one API test is running: \<open>__init__\<close> starts both (C12, C20, C34).
    The two progress bars are set by \<open>progress_slot\<close> and \<open>ncm_progress_slot\<close>.
  \<^item> \<open>Download_Thread\<close>: the download thread of \<open>download_playlist\<close> step by step.
    Its state \<open>dl_sys\<close> holds the core state, the world, the phase of the thread
    (\<open>dl_phase\<close>: resolving, or looping at song i with the counters) and the
    signals emitted. \<open>dl_thread_step\<close> is one atomic action: the resolution, one
    loop iteration with its stop-flag check and \<open>download_song\<close>, or the end.
    \<open>dl_step\<close> interleaves it with the main thread's stop clicks and interval
    saves. Deliveries and widget edits touch neither the core state nor the world.
    Other background threads' requests are not interleaved here: they would shift
    the network oracle's indices (C13, C23).
  \<^item> \<open>Progress_View\<close>: the values the download bar takes over one worker run,
    as its signals are delivered (C17).

  \<^bold>\<open>What the lemmas show.\<close>
  \<^item> Configuration file:
    \<^item> a document that was read, when written back, reads back unchanged (C21);
    \<^item> outside the bundle, a saved interval is the one read at the next start (C22);
    \<^item> in the packaged program, the file written is never read, so the saved
      interval is lost (C33).
  \<^item> Transport: refinement of the contract; 1 to 3 requests with a constant sleep
    between them; statuses below 400 are accepted (C3, C4, C11).
  \<^item> Resolver: first non-empty provider in order; aggregate error exactly when all
    providers fail; digit-only ids; the extraction examples; the first \<open>id=\<close> wins;
    empty ids are kept; the shape is chosen by provider name; a missing \<open>url\<close>
    gives an empty location.
  \<^item> Downloader:
    \<^item> the result is one of three forms;
    \<^item> skip-if-exists makes no request and changes nothing;
    \<^item> success leaves the file present;
    \<^item> each attempt's requests are at least the interval after the last fetch;
    \<^item> a complete body is written exactly;
    \<^item> the byte-rate bound holds;
    \<^item> a broken transfer leaves a partial file that later runs skip;
    \<^item> \<open>sanitize_filename\<close> equals a single map, is idempotent and is safe;
    \<^item> the class's own \<open>download_playlist\<close> (which the window does not call) gives
      one result per song, or one failed result when the playlist does not
      resolve;
    \<^item> distinct songs can share a file name.
  \<^item> Converter: lookup order; a success leaves an existing file; a stale
    \<open>.mp3\<close> beside the source is taken as output; non-zero exit codes fail;
    \<open>splitext\<close> round trip.
  \<^item> Extract: on a well-formed path, \<open>extract_data\<close> refines \<open>get_path\<close> and turns
    every failed lookup into a \<open>KeyError\<close> (C7). Printing a path and parsing its keys
    round-trips. A malformed index escapes as \<open>ValueError\<close> (C39). The loop
    always returns (C40).
  \<^item> Orchestrator:
    \<^item> a stop is seen within one item, and the counts sent are those of the
      logged outcomes;
    \<^item> a title containing the skip marker is counted as skipped;
    \<^item> the worker's specific error handlers are dead;
    \<^item> the flip is a swap at the first separator;
    \<^item> conversion skips on the canonical name;
    \<^item> a failed rename is still counted as a success;
    \<^item> two sources whose names are each other's flip lose one output;
    \<^item> a saved interval never reaches the downloader;
    \<^item> with \<open>PATH\<close> unset, start-up crashes.
  \<^item> Background: the self-test never warns, because \<open>get_playlist_songs\<close> never
    returns an empty list. It reports success or the aggregate error (C29).
  \<^item> Form: a download started from the page as constructed, after typing only the
    id, uses speed 2048, \<open>./downloads\<close>, skip on, the first format, and the
    configured default quality only when it is among the options (C28). A negative
    speed is accepted and runs exactly as 0, unthrottled, because the transfer
    throttles only for a positive limit (C26). Saving the untouched interval field
    stores the configured interval again, since \<open>int(str(i)) = i\<close>.
  \<^item> Progress: the percentage sent is always within 0 to 100 and is 100 at the last
    item (C14). For up to 2^40 items it equals the exact \<open>100 k div n\<close>, except that it
    is one less at some whole-number percentages, such as item 29 of 100 (C15).
    Over a run the bar never moves back and ends full, also for a stopped run (C17).
  \<^item> Download thread:
    \<^item> with stop clicks interleaved and no interval saved, a run ends exactly as the
      atomic \<open>download_worker\<close> for a threshold oracle that stops from some item on.
      This is proved with an invariant relating each phase to the rest of the atomic
      run, and it justifies the oracle used elsewhere (C13);
    \<^item> once the loop has started and the flag is set, no further song is
      transferred, also with saves interleaved (C23);
    \<^item> the thread always ends, after at most one step per song and two more.
      A save during a run reaches the transport for the remaining songs, since each
      iteration reads \<open>api_handler.config\<close>. That is the one interleaving the atomic
      model does not capture.
  \<^item> Window: the invariants \<open>dl_ok\<close> and \<open>cv_ok\<close> relate the buttons, the running
    worker and the button signals still queued. Every step preserves them (rule
    induction on \<open>win_step\<close>), and they hold after start-up. So in every
    reachable state an enabled start button means no worker of its kind runs, and
    each stop button is the negation of its start button (C34). From every
    reachable state, the threads can finish and the queue can drain, giving back an
    idle window with both start buttons enabled (C20). A download stopped before its
    first song ends with the success notification of a finished run (C12).

  \<^bold>\<open>Bounds and termination.\<close> Every loop of the program runs over a finite list
  or range, so every operation is a total function and no fuel is needed:
  \<^item> \<open>retry_loop\<close> terminates by the measure \<open>n - retry\<close> (\<open>max_retries = 3\<close>);
  \<^item> \<open>download_loop\<close> terminates by \<open>3 - attempt\<close> (three attempts, a 3-second delay);
  \<^item> \<open>py_replace\<close> and \<open>py_format\<close> terminate by the length of the text;
  \<^item> the chunk loop, the provider loop and the item loops are structural;
  \<^item> \<open>extract_data\<close>'s loop is a \<open>while_option\<close>; it returns on every input, by
    the measure \<open>length keys - i\<close> (C40).

  The interval is the configured milliseconds divided by 1000, as an exact
  rational; times are rationals in seconds. The chunk size of 1024 bytes appears
  only in the rate formula \<open>downloaded / (speed_limit * 1024)\<close>.

  \<^bold>\<open>Not modelled.\<close>
  \<^item> Layout, labels, \<open>InfoBar\<close> display and the log view; \<open>os.path.exists\<close>
    of the conversion input folder is a parameter of the click rule. Scheduling
    inside a thread's run is the stop-flag oracle: a thread's run is one step of
    \<open>win_step\<close>.
  \<^item> Log lines other than the per-item outcome, and the progress labels' text.
  \<^item> A failure of \<open>open(..., 'w')\<close> when \<open>config.json\<close> is rewritten, and
    floating-point numbers in JSON: the scanner refuses them.
  \<^item> \<open>print\<close>, \<open>tqdm\<close>, and the unused \<open>content-length\<close> read.
  \<^item> Thread scheduling beyond the stop-flag oracle, except for the download
    thread's steps against the main thread (Download_Thread). The conversion
    thread is only modelled atomically.
  \<^item> Glob metacharacters in folder names, and \<open>os.makedirs\<close> failures other than
    the empty path.
  \<^item> \<open>str(result)\<close> of \<open>extract_data\<close>'s message uses the model's rendering of JSON
    values.

  Paths follow \<open>posixpath\<close>. \<open>os.rename\<close> follows Windows, the platform the
  program ships for: an existing target is refused. Floating-point numbers in
  JSON are not modelled.
\<close>

end
